(* ===== verification/Prelude.thy ===== *)
theory Prelude
  imports Main "HOL-Library.Word"
begin

section \<open>Prelude: machine types, errors and shared list lemmas\<close>

text \<open>
  What every component of the development shares: the machine types the C++ code uses
  (bytes, 64-bit words), the ways an operation can fail, and generic facts on lists and words.
  \<open>ErrorExit\<close> and \<open>ParseError\<close> are the two functions of the source that end the process
  with a message; \<open>AssertFailed\<close> stands for a violated \<open>assert\<close>, and \<open>Undefined\<close> for an
  access the C++ standard leaves undefined (a read past the end of a vector, a null pointer).
\<close>

type_synonym byte = "8 word"
type_synonym u16 = "16 word"
type_synonym u32 = "32 word"
type_synonym u64 = "64 word"

datatype vm_error =
    ErrorExit string
  | ParseError string
  | AssertFailed string
  | Undefined string

type_synonym 'a res = "vm_error + 'a"

named_theorems mgen_simps \<open>unfolding rules of the method generation context\<close>
named_theorems mgen_intros \<open>invariant preservation of the method generation context\<close>
named_theorems infint_simps \<open>value equations of the big-integer limbs\<close>
named_theorems lex_simps \<open>unfolding rules of the lexer\<close>

subsection \<open>Failing computations\<close>

definition res_bind :: "'a res \<Rightarrow> ('a \<Rightarrow> 'b res) \<Rightarrow> 'b res" where
  "res_bind m f = (case m of Inl e \<Rightarrow> Inl e | Inr x \<Rightarrow> f x)"

lemma res_bind_Inl [simp]: "res_bind (Inl e) f = Inl e"
  by (simp add: res_bind_def)

lemma res_bind_Inr [simp]: "res_bind (Inr x) f = f x"
  by (simp add: res_bind_def)

lemma res_bind_eq_Inr: "res_bind m f = Inr y \<longleftrightarrow> (\<exists>x. m = Inr x \<and> f x = Inr y)"
  by (cases m) auto

lemma res_bind_InrE [elim!]:
  assumes "res_bind m f = Inr y"
  obtains x where "m = Inr x" and "f x = Inr y"
  using assms by (auto simp: res_bind_eq_Inr)

lemma res_bind_assoc: "res_bind (res_bind m f) g = res_bind m (\<lambda>x. res_bind (f x) g)"
  by (cases m) auto

subsection \<open>Lists\<close>

lemma butlast_append_single [simp]: "butlast (xs @ [x]) = xs"
  by simp

lemma take_length_minus_append: "take (length (xs @ ys) - length ys) (xs @ ys) = xs"
  by simp

lemma nth_append_length_plus: "(xs @ ys) ! (length xs + i) = ys ! i"
  by simp

lemma list_update_append_length: "(xs @ y # ys)[length xs := z] = xs @ z # ys"
  by simp

end
