(* ===== verification/Bytecodes.thy ===== *)
theory Bytecodes
  imports Prelude
begin

unbundle bit_operations_syntax

section \<open>Bytecodes\<close>

text \<open>
  The instruction set of \<open>src/interpreter/bytecodes.h\<close> and \<open>bytecodes.cpp\<close>: the opcode
  numbers, the table of instruction lengths and of names, the opcode classes the code generator
  asks for, and the 16-bit jump offset stored in two argument bytes. A method's code is a vector of
  bytes; \<open>split_instrs\<close> reads it as a sequence of whole instructions, each as long as
  the length table says.
\<close>

subsection \<open>Opcodes\<close>

abbreviation BC_HALT :: byte where "BC_HALT \<equiv> 0"
abbreviation BC_DUP :: byte where "BC_DUP \<equiv> 1"
abbreviation BC_DUP_SECOND :: byte where "BC_DUP_SECOND \<equiv> 2"
abbreviation BC_PUSH_LOCAL :: byte where "BC_PUSH_LOCAL \<equiv> 3"
abbreviation BC_PUSH_LOCAL_0 :: byte where "BC_PUSH_LOCAL_0 \<equiv> 4"
abbreviation BC_PUSH_LOCAL_1 :: byte where "BC_PUSH_LOCAL_1 \<equiv> 5"
abbreviation BC_PUSH_LOCAL_2 :: byte where "BC_PUSH_LOCAL_2 \<equiv> 6"
abbreviation BC_PUSH_ARGUMENT :: byte where "BC_PUSH_ARGUMENT \<equiv> 7"
abbreviation BC_PUSH_SELF :: byte where "BC_PUSH_SELF \<equiv> 8"
abbreviation BC_PUSH_ARG_1 :: byte where "BC_PUSH_ARG_1 \<equiv> 9"
abbreviation BC_PUSH_ARG_2 :: byte where "BC_PUSH_ARG_2 \<equiv> 10"
abbreviation BC_PUSH_FIELD :: byte where "BC_PUSH_FIELD \<equiv> 11"
abbreviation BC_PUSH_FIELD_0 :: byte where "BC_PUSH_FIELD_0 \<equiv> 12"
abbreviation BC_PUSH_FIELD_1 :: byte where "BC_PUSH_FIELD_1 \<equiv> 13"
abbreviation BC_PUSH_BLOCK :: byte where "BC_PUSH_BLOCK \<equiv> 14"
abbreviation BC_PUSH_CONSTANT :: byte where "BC_PUSH_CONSTANT \<equiv> 15"
abbreviation BC_PUSH_CONSTANT_0 :: byte where "BC_PUSH_CONSTANT_0 \<equiv> 16"
abbreviation BC_PUSH_CONSTANT_1 :: byte where "BC_PUSH_CONSTANT_1 \<equiv> 17"
abbreviation BC_PUSH_CONSTANT_2 :: byte where "BC_PUSH_CONSTANT_2 \<equiv> 18"
abbreviation BC_PUSH_0 :: byte where "BC_PUSH_0 \<equiv> 19"
abbreviation BC_PUSH_1 :: byte where "BC_PUSH_1 \<equiv> 20"
abbreviation BC_PUSH_NIL :: byte where "BC_PUSH_NIL \<equiv> 21"
abbreviation BC_PUSH_GLOBAL :: byte where "BC_PUSH_GLOBAL \<equiv> 22"
abbreviation BC_POP :: byte where "BC_POP \<equiv> 23"
abbreviation BC_POP_LOCAL :: byte where "BC_POP_LOCAL \<equiv> 24"
abbreviation BC_POP_LOCAL_0 :: byte where "BC_POP_LOCAL_0 \<equiv> 25"
abbreviation BC_POP_LOCAL_1 :: byte where "BC_POP_LOCAL_1 \<equiv> 26"
abbreviation BC_POP_LOCAL_2 :: byte where "BC_POP_LOCAL_2 \<equiv> 27"
abbreviation BC_POP_ARGUMENT :: byte where "BC_POP_ARGUMENT \<equiv> 28"
abbreviation BC_POP_FIELD :: byte where "BC_POP_FIELD \<equiv> 29"
abbreviation BC_POP_FIELD_0 :: byte where "BC_POP_FIELD_0 \<equiv> 30"
abbreviation BC_POP_FIELD_1 :: byte where "BC_POP_FIELD_1 \<equiv> 31"
abbreviation BC_SEND :: byte where "BC_SEND \<equiv> 32"
abbreviation BC_SEND_1 :: byte where "BC_SEND_1 \<equiv> 33"
abbreviation BC_SUPER_SEND :: byte where "BC_SUPER_SEND \<equiv> 34"
abbreviation BC_RETURN_LOCAL :: byte where "BC_RETURN_LOCAL \<equiv> 35"
abbreviation BC_RETURN_NON_LOCAL :: byte where "BC_RETURN_NON_LOCAL \<equiv> 36"
abbreviation BC_RETURN_SELF :: byte where "BC_RETURN_SELF \<equiv> 37"
abbreviation BC_RETURN_FIELD_0 :: byte where "BC_RETURN_FIELD_0 \<equiv> 38"
abbreviation BC_RETURN_FIELD_1 :: byte where "BC_RETURN_FIELD_1 \<equiv> 39"
abbreviation BC_RETURN_FIELD_2 :: byte where "BC_RETURN_FIELD_2 \<equiv> 40"
abbreviation BC_INC :: byte where "BC_INC \<equiv> 41"
abbreviation BC_DEC :: byte where "BC_DEC \<equiv> 42"
abbreviation BC_INC_FIELD :: byte where "BC_INC_FIELD \<equiv> 43"
abbreviation BC_INC_FIELD_PUSH :: byte where "BC_INC_FIELD_PUSH \<equiv> 44"
abbreviation BC_JUMP :: byte where "BC_JUMP \<equiv> 45"
abbreviation BC_JUMP_ON_FALSE_POP :: byte where "BC_JUMP_ON_FALSE_POP \<equiv> 46"
abbreviation BC_JUMP_ON_TRUE_POP :: byte where "BC_JUMP_ON_TRUE_POP \<equiv> 47"
abbreviation BC_JUMP_ON_FALSE_TOP_NIL :: byte where "BC_JUMP_ON_FALSE_TOP_NIL \<equiv> 48"
abbreviation BC_JUMP_ON_TRUE_TOP_NIL :: byte where "BC_JUMP_ON_TRUE_TOP_NIL \<equiv> 49"
abbreviation BC_JUMP_ON_NOT_NIL_POP :: byte where "BC_JUMP_ON_NOT_NIL_POP \<equiv> 50"
abbreviation BC_JUMP_ON_NIL_POP :: byte where "BC_JUMP_ON_NIL_POP \<equiv> 51"
abbreviation BC_JUMP_ON_NOT_NIL_TOP_TOP :: byte where "BC_JUMP_ON_NOT_NIL_TOP_TOP \<equiv> 52"
abbreviation BC_JUMP_ON_NIL_TOP_TOP :: byte where "BC_JUMP_ON_NIL_TOP_TOP \<equiv> 53"
abbreviation BC_JUMP_IF_GREATER :: byte where "BC_JUMP_IF_GREATER \<equiv> 54"
abbreviation BC_JUMP_BACKWARD :: byte where "BC_JUMP_BACKWARD \<equiv> 55"
abbreviation BC_JUMP2 :: byte where "BC_JUMP2 \<equiv> 56"
abbreviation BC_JUMP2_ON_FALSE_POP :: byte where "BC_JUMP2_ON_FALSE_POP \<equiv> 57"
abbreviation BC_JUMP2_ON_TRUE_POP :: byte where "BC_JUMP2_ON_TRUE_POP \<equiv> 58"
abbreviation BC_JUMP2_ON_FALSE_TOP_NIL :: byte where "BC_JUMP2_ON_FALSE_TOP_NIL \<equiv> 59"
abbreviation BC_JUMP2_ON_TRUE_TOP_NIL :: byte where "BC_JUMP2_ON_TRUE_TOP_NIL \<equiv> 60"
abbreviation BC_JUMP2_ON_NOT_NIL_POP :: byte where "BC_JUMP2_ON_NOT_NIL_POP \<equiv> 61"
abbreviation BC_JUMP2_ON_NIL_POP :: byte where "BC_JUMP2_ON_NIL_POP \<equiv> 62"
abbreviation BC_JUMP2_ON_NOT_NIL_TOP_TOP :: byte where "BC_JUMP2_ON_NOT_NIL_TOP_TOP \<equiv> 63"
abbreviation BC_JUMP2_ON_NIL_TOP_TOP :: byte where "BC_JUMP2_ON_NIL_TOP_TOP \<equiv> 64"
abbreviation BC_JUMP2_IF_GREATER :: byte where "BC_JUMP2_IF_GREATER \<equiv> 65"
abbreviation BC_JUMP2_BACKWARD :: byte where "BC_JUMP2_BACKWARD \<equiv> 66"
abbreviation BC_INVALID :: byte where "BC_INVALID \<equiv> 255"

text \<open>The opcodes that the source names but that are not ported yet.\<close>

abbreviation BC_SEND_N :: byte where "BC_SEND_N \<equiv> 250"
abbreviation BC_SEND_3 :: byte where "BC_SEND_3 \<equiv> 249"
abbreviation BC_SEND_2 :: byte where "BC_SEND_2 \<equiv> 248"

abbreviation LAST_BYTECODE :: byte where "LAST_BYTECODE \<equiv> BC_JUMP2_BACKWARD"
abbreviation FIRST_DOUBLE_BYTE_JUMP_BYTECODE :: byte where
  "FIRST_DOUBLE_BYTE_JUMP_BYTECODE \<equiv> BC_JUMP2"
abbreviation NUM_SINGLE_BYTE_JUMP_BYTECODES :: byte where
  "NUM_SINGLE_BYTE_JUMP_BYTECODES \<equiv> (BC_JUMP_BACKWARD - BC_JUMP) + 1"

subsection \<open>Tables\<close>

definition bytecodeLengths :: "nat list" where
  "bytecodeLengths =
    [1, 1, 1, 3, 1, 1, 1, 3, 1, 1, 1, 2, 1, 1, 2, 2, 1,
     1, 1, 1, 1, 1, 2, 1, 3, 1, 1, 1, 3, 2, 1, 1, 2, 2,
     2, 1, 1, 1, 1, 1, 1, 1, 1, 2, 2, 3, 3, 3, 3, 3, 3,
     3, 3, 3, 3, 3, 3, 3, 3, 3, 3, 3, 3, 3, 3, 3, 3]"

definition bytecodeNames :: "string list" where
  "bytecodeNames =
    [''HALT            '', ''DUP             '', ''DUP_SECOND      '',
     ''PUSH_LOCAL      '', ''PUSH_LOCAL_0    '', ''PUSH_LOCAL_1    '',
     ''PUSH_LOCAL_2    '', ''PUSH_ARGUMENT   '', ''PUSH_SELF       '',
     ''PUSH_ARG_1      '', ''PUSH_ARG_2      '', ''PUSH_FIELD      '',
     ''PUSH_FIELD_0    '', ''PUSH_FIELD_1    '', ''PUSH_BLOCK      '',
     ''PUSH_CONSTANT   '', ''PUSH_CONSTANT_0 '', ''PUSH_CONSTANT_1 '',
     ''PUSH_CONSTANT_2 '', ''PUSH_0          '', ''PUSH_1          '',
     ''PUSH_NIL        '', ''PUSH_GLOBAL     '', ''POP             '',
     ''POP_LOCAL       '', ''POP_LOCAL_0     '', ''POP_LOCAL_1     '',
     ''POP_LOCAL_2     '', ''POP_ARGUMENT    '', ''POP_FIELD       '',
     ''POP_FIELD_0     '', ''POP_FIELD_1     '', ''SEND            '',
     ''SEND_1          '', ''SUPER_SEND      '', ''RETURN_LOCAL    '',
     ''RETURN_NON_LOCAL'', ''RETURN_SELF     '', ''RETURN_FIELD_0  '',
     ''RETURN_FIELD_1  '', ''RETURN_FIELD_2  '', ''INC             '',
     ''DEC             '', ''INC_FIELD       '', ''INC_FIELD_PUSH  '',
     ''JUMP            '', ''JUMP_ON_FALSE_POP'', ''JUMP_ON_TRUE_POP'',
     ''JUMP_ON_FALSE_TOP_NIL'', ''JUMP_ON_TRUE_TOP_NIL'', ''JUMP_ON_NOT_NIL_POP'',
     ''JUMP_ON_NIL_POP '', ''JUMP_ON_NOT_NIL_TOP_TOP'', ''JUMP_ON_NIL_TOP_TOP'',
     ''JUMP_IF_GREATER '', ''JUMP_BACKWARD   '', ''JUMP2           '',
     ''JUMP2_ON_FALSE_POP'', ''JUMP2_ON_TRUE_POP'', ''JUMP2_ON_FALSE_TOP_NIL'',
     ''JUMP2_ON_TRUE_TOP_NIL'', ''JUMP2_ON_NOT_NIL_POP'', ''JUMP2_ON_NIL_POP '',
     ''JUMP2_ON_NOT_NIL_TOP_TOP'', ''JUMP2_ON_NIL_TOP_TOP'', ''JUMP2_IF_GREATER'',
     ''JUMP2_BACKWARD  '']"

definition GetBytecodeLength :: "byte \<Rightarrow> nat" where
  "GetBytecodeLength bc = bytecodeLengths ! unat bc"

definition GetBytecodeName :: "byte \<Rightarrow> string" where
  "GetBytecodeName bc = bytecodeNames ! unat bc"

definition BytecodeDefinitionsAreConsistent :: bool where
  "BytecodeDefinitionsAreConsistent \<longleftrightarrow>
     length bytecodeNames = length bytecodeLengths \<and>
     unat LAST_BYTECODE = length bytecodeLengths - 1"

definition ComputeOffset :: "byte \<Rightarrow> byte \<Rightarrow> u16" where
  "ComputeOffset byte1 byte2 = ucast byte1 OR push_bit 8 (ucast byte2)"

subsection \<open>Opcode classes\<close>

definition IsJumpBytecode :: "byte \<Rightarrow> bool" where
  "IsJumpBytecode bc \<longleftrightarrow> BC_JUMP \<le> bc \<and> bc \<le> BC_JUMP2_BACKWARD"

definition IsPushConstBytecode :: "byte \<Rightarrow> byte" where
  "IsPushConstBytecode bc =
     (if bc \<in> {BC_PUSH_CONSTANT, BC_PUSH_CONSTANT_0, BC_PUSH_CONSTANT_1, BC_PUSH_CONSTANT_2,
               BC_PUSH_0, BC_PUSH_1, BC_PUSH_NIL} then bc else BC_INVALID)"

definition IsPushArgBytecode :: "byte \<Rightarrow> byte" where
  "IsPushArgBytecode bc =
     (if bc \<in> {BC_PUSH_SELF, BC_PUSH_ARG_1, BC_PUSH_ARG_2, BC_PUSH_ARGUMENT}
      then bc else BC_INVALID)"

definition IsPushFieldBytecode :: "byte \<Rightarrow> byte" where
  "IsPushFieldBytecode bc =
     (if bc \<in> {BC_PUSH_FIELD, BC_PUSH_FIELD_0, BC_PUSH_FIELD_1} then bc else BC_INVALID)"

definition IsPopFieldBytecode :: "byte \<Rightarrow> byte" where
  "IsPopFieldBytecode bc =
     (if bc \<in> {BC_POP_FIELD, BC_POP_FIELD_0, BC_POP_FIELD_1} then bc else BC_INVALID)"

definition IsReturnFieldBytecode :: "byte \<Rightarrow> byte" where
  "IsReturnFieldBytecode bc =
     (if bc \<in> {BC_RETURN_FIELD_0, BC_RETURN_FIELD_1, BC_RETURN_FIELD_2}
      then bc else BC_INVALID)"

definition IsPopSmthBytecode :: "byte \<Rightarrow> byte" where
  "IsPopSmthBytecode bc =
     (if bc \<in> {BC_POP_LOCAL, BC_POP_LOCAL_0, BC_POP_LOCAL_1, BC_POP_LOCAL_2, BC_POP_ARGUMENT,
               BC_POP_FIELD, BC_POP_FIELD_0, BC_POP_FIELD_1} then bc else BC_INVALID)"

subsection \<open>The code vector as a sequence of instructions\<close>

definition valid_opcode :: "byte \<Rightarrow> bool" where
  "valid_opcode bc \<longleftrightarrow> bc \<le> LAST_BYTECODE"

definition wf_instr :: "byte list \<Rightarrow> bool" where
  "wf_instr i \<longleftrightarrow> i \<noteq> [] \<and> valid_opcode (hd i) \<and> length i = GetBytecodeLength (hd i)"

fun split_instrs :: "nat \<Rightarrow> byte list \<Rightarrow> byte list list option" where
  "split_instrs fuel [] = Some []"
| "split_instrs 0 (b # bs) = None"
| "split_instrs (Suc fuel) (b # bs) =
     (let n = GetBytecodeLength b in
      if \<not> valid_opcode b \<or> length (b # bs) < n then None
      else map_option ((#) (take n (b # bs))) (split_instrs fuel (drop n (b # bs))))"

text \<open>Fuel one per byte is enough: no instruction is empty.\<close>

definition instrs_of :: "byte list \<Rightarrow> byte list list option" where
  "instrs_of bs = split_instrs (length bs) bs"

subsection \<open>Table facts\<close>

lemma length_bytecodeLengths [simp]: "length bytecodeLengths = 67"
  by (simp add: bytecodeLengths_def)

lemma length_bytecodeNames [simp]: "length bytecodeNames = 67"
  by (simp add: bytecodeNames_def)

lemma valid_opcode_unat: "valid_opcode bc \<longleftrightarrow> unat bc < 67"
  by (simp add: valid_opcode_def word_le_nat_alt) arith

lemma bytecodeLengths_bounds: "\<forall>n \<in> set bytecodeLengths. 1 \<le> n \<and> n \<le> 3"
  by (simp add: bytecodeLengths_def)

lemma GetBytecodeLength_bounds:
  "valid_opcode bc \<Longrightarrow> 1 \<le> GetBytecodeLength bc \<and> GetBytecodeLength bc \<le> 3"
  using bytecodeLengths_bounds
  by (simp add: GetBytecodeLength_def valid_opcode_unat)

lemma GetBytecodeLength_pos [simp]: "valid_opcode bc \<Longrightarrow> 0 < GetBytecodeLength bc"
  using GetBytecodeLength_bounds [of bc] by simp

lemma not_valid_INVALID [simp]: "\<not> valid_opcode BC_INVALID"
  by (simp add: valid_opcode_def)

lemma GetBytecodeLength_code [simp]:
  "GetBytecodeLength 0 = Suc 0"
  "GetBytecodeLength 1 = Suc 0"
  "GetBytecodeLength 2 = Suc 0"
  "GetBytecodeLength 3 = 3"
  "GetBytecodeLength 4 = Suc 0"
  "GetBytecodeLength 5 = Suc 0"
  "GetBytecodeLength 6 = Suc 0"
  "GetBytecodeLength 7 = 3"
  "GetBytecodeLength 8 = Suc 0"
  "GetBytecodeLength 9 = Suc 0"
  "GetBytecodeLength 10 = Suc 0"
  "GetBytecodeLength 11 = 2"
  "GetBytecodeLength 12 = Suc 0"
  "GetBytecodeLength 13 = Suc 0"
  "GetBytecodeLength 14 = 2"
  "GetBytecodeLength 15 = 2"
  "GetBytecodeLength 16 = Suc 0"
  "GetBytecodeLength 17 = Suc 0"
  "GetBytecodeLength 18 = Suc 0"
  "GetBytecodeLength 19 = Suc 0"
  "GetBytecodeLength 20 = Suc 0"
  "GetBytecodeLength 21 = Suc 0"
  "GetBytecodeLength 22 = 2"
  "GetBytecodeLength 23 = Suc 0"
  "GetBytecodeLength 24 = 3"
  "GetBytecodeLength 25 = Suc 0"
  "GetBytecodeLength 26 = Suc 0"
  "GetBytecodeLength 27 = Suc 0"
  "GetBytecodeLength 28 = 3"
  "GetBytecodeLength 29 = 2"
  "GetBytecodeLength 30 = Suc 0"
  "GetBytecodeLength 31 = Suc 0"
  "GetBytecodeLength 32 = 2"
  "GetBytecodeLength 33 = 2"
  "GetBytecodeLength 34 = 2"
  "GetBytecodeLength 35 = Suc 0"
  "GetBytecodeLength 36 = Suc 0"
  "GetBytecodeLength 37 = Suc 0"
  "GetBytecodeLength 38 = Suc 0"
  "GetBytecodeLength 39 = Suc 0"
  "GetBytecodeLength 40 = Suc 0"
  "GetBytecodeLength 41 = Suc 0"
  "GetBytecodeLength 42 = Suc 0"
  "GetBytecodeLength 43 = 2"
  "GetBytecodeLength 44 = 2"
  "GetBytecodeLength 45 = 3"
  "GetBytecodeLength 46 = 3"
  "GetBytecodeLength 47 = 3"
  "GetBytecodeLength 48 = 3"
  "GetBytecodeLength 49 = 3"
  "GetBytecodeLength 50 = 3"
  "GetBytecodeLength 51 = 3"
  "GetBytecodeLength 52 = 3"
  "GetBytecodeLength 53 = 3"
  "GetBytecodeLength 54 = 3"
  "GetBytecodeLength 55 = 3"
  "GetBytecodeLength 56 = 3"
  "GetBytecodeLength 57 = 3"
  "GetBytecodeLength 58 = 3"
  "GetBytecodeLength 59 = 3"
  "GetBytecodeLength 60 = 3"
  "GetBytecodeLength 61 = 3"
  "GetBytecodeLength 62 = 3"
  "GetBytecodeLength 63 = 3"
  "GetBytecodeLength 64 = 3"
  "GetBytecodeLength 65 = 3"
  "GetBytecodeLength 66 = 3"
  by (simp_all add: GetBytecodeLength_def bytecodeLengths_def)

lemma valid_opcode_numeral [simp]: "valid_opcode 0" "valid_opcode 1"
  "valid_opcode (numeral n) \<longleftrightarrow> (numeral n :: byte) \<le> 66"
  by (simp_all add: valid_opcode_def)

subsection \<open>Splitting the code vector\<close>

lemma wf_instr_pos: "wf_instr i \<Longrightarrow> 0 < length i"
  by (simp add: wf_instr_def)

lemma split_instrs_concat:
  "list_all wf_instr is \<Longrightarrow> length (concat is) \<le> n \<Longrightarrow> split_instrs n (concat is) = Some is"
proof (induction "is" arbitrary: n)
  case (Cons i "is")
  then obtain b args where i: "i = b # args" and len: "Suc (length args) = GetBytecodeLength b"
    and b: "valid_opcode b" by (cases i) (auto simp: wf_instr_def)
  obtain n' where n: "n = Suc n'" using Cons.prems i by (cases n) auto
  have "length (concat is) \<le> n'" using Cons.prems i n by simp
  then have "split_instrs n' (concat is) = Some is" using Cons by simp
  then show ?case using i len[symmetric] b n by (simp add: Let_def)
qed simp

lemma split_instrs_sound:
  "split_instrs n bs = Some is \<Longrightarrow> concat is = bs \<and> list_all wf_instr is"
proof (induction n bs arbitrary: "is" rule: split_instrs.induct)
  case (3 n b bs)
  let ?n = "GetBytecodeLength b"
  obtain js where js: "split_instrs n (drop ?n (b # bs)) = Some js" "is = take ?n (b # bs) # js"
    and ok: "valid_opcode b" "?n \<le> length (b # bs)"
    using 3(2) by (auto simp: Let_def split: if_splits)
  then have "concat js = drop ?n (b # bs)" "list_all wf_instr js"
    using 3(1)[OF refl _ js(1)] by auto
  moreover have "wf_instr (take ?n (b # bs))"
    using ok GetBytecodeLength_pos[OF ok(1)] by (auto simp: wf_instr_def take_Cons')
  ultimately show ?case using js(2) by (simp del: take_Cons drop_Cons add: append_take_drop_id)
qed auto

text \<open>A code vector has at most one decomposition into instructions, and \<open>instrs_of\<close> finds it.\<close>

lemma instrs_of_iff: "instrs_of bs = Some is \<longleftrightarrow> bs = concat is \<and> list_all wf_instr is"
  unfolding instrs_of_def using split_instrs_concat[of "is" "length bs"] split_instrs_sound by auto

lemma ComputeOffset_of_nat:
  "ComputeOffset (of_nat (n mod 256)) (of_nat (n div 256)) = of_nat n"
proof (rule bit_word_eqI)
  fix k :: nat
  assume "k < LENGTH(16)"
  moreover have "n mod 256 = take_bit 8 n" "n div 256 = drop_bit 8 n"
    by (simp_all add: take_bit_eq_mod drop_bit_eq_div)
  ultimately show "bit (ComputeOffset (of_nat (n mod 256)) (of_nat (n div 256))) k = bit (of_nat n :: u16) k"
    by (auto simp: ComputeOffset_def bit_simps)
qed

text \<open>The two offset bytes of a jump decode to the offset they encode.\<close>

lemma ComputeOffset_bytes:
  "n < 65536 \<Longrightarrow> unat (ComputeOffset (of_nat (n mod 256)) (of_nat (n div 256))) = n"
  by (simp add: ComputeOffset_of_nat unsigned_of_nat take_bit_nat_eq_self)

end
