(* ===== verification/InfInt.thy ===== *)
theory InfInt
  imports Prelude "HOL-Library.Signed_Division"
begin

section \<open>InfInt: arbitrary-precision integers\<close>

text \<open>
  \<open>src/lib/InfInt.h\<close>. A number is a sign and a little-endian vector of limbs in base \<open>10\<^sup>9\<close>.
  Each operation is translated as the source writes it: limb-wise combination followed by
  \<open>correct\<close> (\<open>truncateToBase\<close>, \<open>equalizeSigns\<close>, \<open>removeLeadingZeros\<close>), the schoolbook product
  with a running carry, long division with a binary search for each quotient limb.
  Limbs are C \<open>int\<close>s; they are modelled as unbounded integers, and the bounds lemmas
  show that every intermediate limb of a sum fits 32 bits. An access past the end of the limb
  vector (the borrow loop of \<open>equalizeSigns\<close> has no bounds check) is the error \<open>Undefined\<close>; the
  theorems show that it never happens on well-formed numbers.
\<close>

subsection \<open>Limbs\<close>

abbreviation BASE :: int where "BASE \<equiv> 1000000000"
abbreviation UPPER_BOUND :: int where "UPPER_BOUND \<equiv> 999999999"
abbreviation DIGIT_COUNT :: nat where "DIGIT_COUNT \<equiv> 9"

record InfInt =
  val :: "int list"
  pos :: bool

definition my_div :: "int \<Rightarrow> int \<Rightarrow> int \<times> int" where
  "my_div num denom = (let quot = num sdiv denom in (quot, num - denom * quot))"

definition my_lldiv :: "int \<Rightarrow> int \<Rightarrow> int \<times> int" where
  "my_lldiv num denom = (let quot = num sdiv denom in (quot, num - denom * quot))"

lemma sdiv_abs_less: "BASE \<le> \<bar>v\<bar> \<Longrightarrow> \<bar>v sdiv BASE\<bar> < \<bar>v\<bar>"
  by (auto simp: signed_divide_int_def sgn_if abs_if)

text \<open>The loop of \<open>truncateToBase\<close>: the carry of the last limb is pushed as a new limb, which the
  loop then visits.\<close>

function truncateToBase :: "int list \<Rightarrow> int list" where
  "truncateToBase [] = []"
| "truncateToBase (v # vs) =
     (if v \<ge> BASE \<or> v \<le> - BASE then
        (case vs of
           [] \<Rightarrow> snd (my_div v BASE) # truncateToBase [fst (my_div v BASE)]
         | w # ws \<Rightarrow> snd (my_div v BASE) # truncateToBase ((w + fst (my_div v BASE)) # ws))
      else v # truncateToBase vs)"
  by pat_completeness auto
termination
  by (relation "measures [length, \<lambda>vs. nat \<bar>hd vs\<bar>]")
    (auto simp: my_div_def Let_def signed_divide_int_def sgn_if abs_if)

text \<open>Borrowing from the limbs to the left: adjacent zeros become \<open>UPPER_BOUND\<close>, the first other
  limb loses one.\<close>

fun borrow_pos :: "int list \<Rightarrow> int list res" where
  "borrow_pos [] = Inl (Undefined ''val[index]'')"
| "borrow_pos (h # hs) =
     (if h = 0 then res_bind (borrow_pos hs) (\<lambda>r. Inr (UPPER_BOUND # r)) else Inr ((h - 1) # hs))"

fun borrow_neg :: "int list \<Rightarrow> int list res" where
  "borrow_neg [] = Inl (Undefined ''val[index]'')"
| "borrow_neg (h # hs) =
     (if h = 0 then res_bind (borrow_neg hs) (\<lambda>r. Inr (- UPPER_BOUND # r)) else Inr ((h + 1) # hs))"

text \<open>The two downward loops of \<open>equalizeSigns\<close>: the first argument lists the limbs still to visit, from
  the most significant one down; the second holds the limbs to their left, as they are now.\<close>

fun equalize_pos :: "int list \<Rightarrow> int list \<Rightarrow> int list res" where
  "equalize_pos [] hi = Inr hi"
| "equalize_pos (d # ds) hi =
     (if d < 0 then res_bind (borrow_pos hi) (\<lambda>hi'. equalize_pos ds ((d + BASE) # hi'))
      else equalize_pos ds (d # hi))"

fun equalize_neg :: "int list \<Rightarrow> int list \<Rightarrow> int list res" where
  "equalize_neg [] hi = Inr hi"
| "equalize_neg (d # ds) hi =
     (if d > 0 then res_bind (borrow_neg hi) (\<lambda>hi'. equalize_neg ds ((d - BASE) # hi'))
      else equalize_neg ds (d # hi))"

definition equalizeSigns :: "int list \<Rightarrow> (bool \<times> int list) res" where
  "equalizeSigns vs =
     (case dropWhile (\<lambda>d. d = 0) (rev vs) of
        [] \<Rightarrow> Inr (True, vs)
      | d # ds \<Rightarrow>
          (let isPositive = d > 0; hi = d # takeWhile (\<lambda>d. d = 0) (rev vs) in
           res_bind ((if isPositive then equalize_pos else equalize_neg) ds hi)
             (\<lambda>r. Inr (isPositive, r))))"

text \<open>\<open>removeLeadingZeros\<close> erases zero limbs from the most significant end, never the last limb.\<close>

fun erase_zeros :: "int list \<Rightarrow> int list" where
  "erase_zeros (d # e # ds) = (if d \<noteq> 0 then d # e # ds else erase_zeros (e # ds))"
| "erase_zeros ds = ds"

definition removeLeadingZeros :: "int list \<Rightarrow> int list" where
  "removeLeadingZeros vs = rev (erase_zeros (rev vs))"

definition correct :: "bool \<Rightarrow> bool \<Rightarrow> InfInt \<Rightarrow> InfInt res" where
  "correct justCheckLeadingZeros hasValidSign x =
     (if justCheckLeadingZeros then Inr (x\<lparr>val := removeLeadingZeros (val x)\<rparr>)
      else res_bind (equalizeSigns (truncateToBase (val x))) (\<lambda>(isPositive, vs).
        if isPositive then
          Inr \<lparr>val = removeLeadingZeros vs,
               pos = (if vs = [0] \<or> \<not> hasValidSign then True else pos x)\<rparr>
        else
          Inr \<lparr>val = removeLeadingZeros (map abs vs),
               pos = (if hasValidSign then \<not> pos x else False)\<rparr>))"

subsection \<open>Constructors, increment and decrement\<close>

definition InfInt_zero :: InfInt where
  "InfInt_zero = \<lparr>val = [0], pos = True\<rparr>"

function limbs_of :: "int \<Rightarrow> int list" where
  "limbs_of l =
     (let dt = my_lldiv l BASE in
      if fst dt > 0 then snd dt # limbs_of (fst dt) else [snd dt])"
  by pat_completeness auto
termination
  by (relation "measure (\<lambda>l. nat l)")
    (auto simp: my_lldiv_def Let_def signed_divide_int_def sgn_if abs_if split: if_splits)

definition INT64_MIN :: int where "INT64_MIN = - (2 ^ 63)"
definition INT64_MAX :: int where "INT64_MAX = 2 ^ 63 - 1"

definition InfInt_inc :: "InfInt \<Rightarrow> InfInt res" where
  "InfInt_inc x =
     (case val x of
        [] \<Rightarrow> Inl (Undefined ''val[0]'')
      | v # vs \<Rightarrow> correct False True (x\<lparr>val := (v + (if pos x then 1 else -1)) # vs\<rparr>))"

definition InfInt_dec :: "InfInt \<Rightarrow> InfInt res" where
  "InfInt_dec x =
     (case val x of
        [] \<Rightarrow> Inl (Undefined ''val[0]'')
      | v # vs \<Rightarrow> correct False True (x\<lparr>val := (v - (if pos x then 1 else -1)) # vs\<rparr>))"

definition InfInt_of_int64 :: "int \<Rightarrow> InfInt res" where
  "InfInt_of_int64 l =
     (let p = (l \<ge> 0); subtractOne = (l = INT64_MIN);
          l1 = (if subtractOne then l + 1 else l);
          l2 = (if \<not> p then - l1 else l1);
          x = \<lparr>val = limbs_of l2, pos = p\<rparr>
      in if subtractOne then InfInt_dec x else Inr x)"

subsection \<open>Addition, subtraction, negation\<close>

fun zip_limbs :: "(int \<Rightarrow> int \<Rightarrow> int) \<Rightarrow> int list \<Rightarrow> int list \<Rightarrow> int list" where
  "zip_limbs f [] bs = map (f 0) bs"
| "zip_limbs f (a # as) [] = map (\<lambda>a. f a 0) (a # as)"
| "zip_limbs f (a # as) (b # bs) = f a b # zip_limbs f as bs"

definition signed_limbs :: "InfInt \<Rightarrow> int list" where
  "signed_limbs x = map (\<lambda>v. if pos x then v else - v) (val x)"

definition InfInt_add :: "InfInt \<Rightarrow> InfInt \<Rightarrow> InfInt res" where
  "InfInt_add x rhs =
     correct False False \<lparr>val = zip_limbs (+) (signed_limbs x) (signed_limbs rhs), pos = True\<rparr>"

definition InfInt_sub :: "InfInt \<Rightarrow> InfInt \<Rightarrow> InfInt res" where
  "InfInt_sub x rhs =
     correct False False \<lparr>val = zip_limbs (-) (signed_limbs x) (signed_limbs rhs), pos = True\<rparr>"

definition InfInt_add_assign :: "InfInt \<Rightarrow> InfInt \<Rightarrow> InfInt res" where
  "InfInt_add_assign x rhs =
     correct False False (x\<lparr>val := zip_limbs (+) (signed_limbs x) (signed_limbs rhs)\<rparr>)"

definition InfInt_sub_assign :: "InfInt \<Rightarrow> InfInt \<Rightarrow> InfInt res" where
  "InfInt_sub_assign x rhs =
     correct False False (x\<lparr>val := zip_limbs (-) (signed_limbs x) (signed_limbs rhs)\<rparr>)"

definition InfInt_neg :: "InfInt \<Rightarrow> InfInt" where
  "InfInt_neg x = x\<lparr>pos := \<not> pos x\<rparr>"

definition isZero :: "InfInt \<Rightarrow> bool" where
  "isZero x \<longleftrightarrow> val x = [0]"

subsection \<open>Multiplication\<close>

fun multiplyByDigit_loop :: "int \<Rightarrow> int \<Rightarrow> int list \<Rightarrow> int list" where
  "multiplyByDigit_loop factor carry [] = (if carry > 0 then [carry] else [])"
| "multiplyByDigit_loop factor carry (v # vs) =
     (let pval = v * factor + carry in
      if pval \<ge> BASE \<or> pval \<le> - BASE then
        (let dt = my_lldiv pval BASE in snd dt # multiplyByDigit_loop factor (fst dt) vs)
      else pval # multiplyByDigit_loop factor 0 vs)"

definition multiplyByDigit :: "int \<Rightarrow> int list \<Rightarrow> int list" where
  "multiplyByDigit factor vs = multiplyByDigit_loop factor 0 vs"

definition InfInt_mult_elem :: "InfInt \<Rightarrow> int \<Rightarrow> InfInt res" where
  "InfInt_mult_elem x rhs =
     (let factor = (if rhs < 0 then - rhs else rhs) in
      res_bind (correct False False (x\<lparr>val := multiplyByDigit factor (val x)\<rparr>)) (\<lambda>result.
        Inr (result\<lparr>pos := (if val result = [0] then True else (pos x = (rhs \<ge> 0)))\<rparr>)))"

text \<open>The inner loop of \<open>operator*\<close> visits the indices \<open>i\<close> with \<open>val[i]\<close> and \<open>rhs.val[digit - i]\<close> in
  range, and keeps the current limb and the carry.\<close>

definition mult_step :: "int list \<Rightarrow> int list \<Rightarrow> nat \<Rightarrow> nat \<Rightarrow> int \<times> int \<Rightarrow> int \<times> int" where
  "mult_step as bs digit i = (\<lambda>(r, carry).
     let pval = r + as ! i * bs ! (digit - i) in
     if pval \<ge> BASE \<or> pval \<le> - BASE
     then (snd (my_lldiv pval BASE), carry + fst (my_lldiv pval BASE))
     else (pval, carry))"

definition mult_range :: "int list \<Rightarrow> int list \<Rightarrow> nat \<Rightarrow> nat list" where
  "mult_range as bs digit =
     [(if digit < length bs then 0 else digit - length bs + 1) ..< min (length as) (digit + 1)]"

lemma mult_range_nonempty:
  "mult_range as bs digit \<noteq> [] \<Longrightarrow> digit < length as + length bs"
  by (auto simp: mult_range_def split: if_splits)

text \<open>The outer loop: the limbs below \<open>digit\<close>, then (index, carry and limbs) when nothing was found.\<close>

function mult_loop :: "int list \<Rightarrow> int list \<Rightarrow> nat \<Rightarrow> int \<Rightarrow> int list \<Rightarrow> nat \<times> int \<times> int list" where
  "mult_loop as bs digit carry acc =
     (let dt = my_lldiv carry BASE; range = mult_range as bs digit in
      if range = [] then (digit, fst dt, acc @ [snd dt])
      else (let rc = fold (mult_step as bs digit) range (snd dt, fst dt)
            in mult_loop as bs (digit + 1) (snd rc) (acc @ [fst rc])))"
  by pat_completeness auto
termination
  by (relation "measure (\<lambda>(as, bs, digit, _). length as + length bs - digit)")
    (auto dest!: mult_range_nonempty)

function write_carry :: "int \<Rightarrow> nat \<Rightarrow> int list \<Rightarrow> int list res" where
  "write_carry carry digit vs =
     (if carry > 0 then
        (if digit < length vs
         then write_carry (fst (my_lldiv carry BASE)) (digit + 1) (vs[digit := snd (my_lldiv carry BASE)])
         else Inl (Undefined ''result.val[digit]''))
      else Inr vs)"
  by pat_completeness auto
termination
  by (relation "measure (\<lambda>(carry, _). nat carry)")
    (auto simp: my_lldiv_def Let_def signed_divide_int_def sgn_if)

definition InfInt_mult :: "InfInt \<Rightarrow> InfInt \<Rightarrow> InfInt res" where
  "InfInt_mult x rhs =
     (case mult_loop (val x) (val rhs) 0 0 [] of (digit, carry, acc) \<Rightarrow>
        res_bind (write_carry carry digit
                    (acc @ replicate (length (val x) + length (val rhs) - length acc) 0)) (\<lambda>vs.
        res_bind (correct False False \<lparr>val = vs, pos = True\<rparr>) (\<lambda>result.
          Inr (result\<lparr>pos := (if val result = [0] then True else (pos x = pos rhs))\<rparr>))))"

fun InfInt_shl_loop :: "nat \<Rightarrow> InfInt \<Rightarrow> InfInt \<Rightarrow> InfInt res" where
  "InfInt_shl_loop 0 two result = Inr result"
| "InfInt_shl_loop (Suc n) two result =
     res_bind (InfInt_mult result two) (\<lambda>result'. InfInt_shl_loop n two result')"

definition InfInt_shl :: "InfInt \<Rightarrow> int \<Rightarrow> InfInt res" where
  "InfInt_shl x rhs = res_bind (InfInt_of_int64 2) (\<lambda>two. InfInt_shl_loop (nat rhs) two x)"

subsection \<open>Comparison\<close>

text \<open>The common loop of the comparison operators, from the most significant limb down, with what to
  return at a smaller limb, at a larger limb and at the end.\<close>

fun compare_loop :: "bool \<Rightarrow> bool \<Rightarrow> bool \<Rightarrow> int list \<Rightarrow> int list \<Rightarrow> bool" where
  "compare_loop lt gt eq (a # as) (b # bs) =
     (if a < b then lt else if a > b then gt else compare_loop lt gt eq as bs)"
| "compare_loop lt gt eq _ _ = eq"

definition InfInt_eq :: "InfInt \<Rightarrow> InfInt \<Rightarrow> bool" where
  "InfInt_eq x rhs =
     (if pos x \<noteq> pos rhs \<or> length (val x) \<noteq> length (val rhs) then False
      else compare_loop False False True (rev (val x)) (rev (val rhs)))"

definition InfInt_neq :: "InfInt \<Rightarrow> InfInt \<Rightarrow> bool" where
  "InfInt_neq x rhs =
     (if pos x \<noteq> pos rhs \<or> length (val x) \<noteq> length (val rhs) then True
      else compare_loop True True False (rev (val x)) (rev (val rhs)))"

definition InfInt_lt :: "InfInt \<Rightarrow> InfInt \<Rightarrow> bool" where
  "InfInt_lt x rhs =
     (if pos x \<and> \<not> pos rhs then False
      else if \<not> pos x \<and> pos rhs then True
      else if length (val x) > length (val rhs) then \<not> pos x
      else if length (val x) < length (val rhs) then pos x
      else compare_loop (pos x) (\<not> pos x) False (rev (val x)) (rev (val rhs)))"

definition InfInt_le :: "InfInt \<Rightarrow> InfInt \<Rightarrow> bool" where
  "InfInt_le x rhs =
     (if pos x \<and> \<not> pos rhs then False
      else if \<not> pos x \<and> pos rhs then True
      else if length (val x) > length (val rhs) then \<not> pos x
      else if length (val x) < length (val rhs) then pos x
      else compare_loop (pos x) (\<not> pos x) True (rev (val x)) (rev (val rhs)))"

definition InfInt_gt :: "InfInt \<Rightarrow> InfInt \<Rightarrow> bool" where
  "InfInt_gt x rhs =
     (if pos x \<and> \<not> pos rhs then True
      else if \<not> pos x \<and> pos rhs then False
      else if length (val x) > length (val rhs) then pos x
      else if length (val x) < length (val rhs) then \<not> pos x
      else compare_loop (\<not> pos x) (pos x) False (rev (val x)) (rev (val rhs)))"

definition InfInt_ge :: "InfInt \<Rightarrow> InfInt \<Rightarrow> bool" where
  "InfInt_ge x rhs =
     (if pos x \<and> \<not> pos rhs then True
      else if \<not> pos x \<and> pos rhs then False
      else if length (val x) > length (val rhs) then pos x
      else if length (val x) < length (val rhs) then \<not> pos x
      else compare_loop (\<not> pos x) (pos x) True (rev (val x)) (rev (val rhs)))"

definition isWithinSmallIntRange :: "InfInt \<Rightarrow> bool" where
  "isWithinSmallIntRange x =
     (if pos x then
        (if length (val x) > 3 then False
         else if length (val x) < 3 then True
         else if val x ! 2 < 4 then True
         else if val x ! 2 > 4 then False
         else if val x ! 1 < 611686018 then True
         else if val x ! 1 > 611686018 then False
         else val x ! 0 \<le> 427387903)
      else
        (if length (val x) > 3 then False
         else if length (val x) < 3 then True
         else if val x ! 2 < 4 then True
         else if val x ! 2 > 4 then False
         else if val x ! 1 < 611686018 then True
         else if val x ! 1 > 611686018 then False
         else val x ! 0 \<le> 427387904))"

subsection \<open>Division\<close>

text \<open>The binary search of \<open>dInR\<close>; its bounds start at 0 and never become negative.\<close>

function dInR_loop :: "InfInt \<Rightarrow> InfInt \<Rightarrow> nat \<Rightarrow> nat \<Rightarrow> nat res" where
  "dInR_loop R D mn mx =
     (if mx > mn then
        (let avg = (if (mx + mn) mod 2 \<noteq> 0 then (mx + mn) div 2 + 1 else (mx + mn) div 2) in
         case InfInt_mult_elem D (int avg) of
           Inl e \<Rightarrow> Inl e
         | Inr prd \<Rightarrow>
             if InfInt_eq R prd then Inr avg
             else if InfInt_gt R prd then dInR_loop R D avg mx
             else dInR_loop R D mn (avg - 1))
      else Inr mn)"
  by pat_completeness auto
termination
proof (relation "measure (\<lambda>(_, _, mn, mx). mx - mn)", goal_cases)
  case 1 show ?case by simp
next
  case (2 R D mn mx avg b)
  have "mn < avg" using 2 by (auto split: if_splits)
  then show ?case using 2 by auto
next
  case (3 R D mn mx avg b)
  have "mn < avg \<and> avg \<le> mx" using 3 by (auto split: if_splits)
  then show ?case using 3 by auto
qed

definition dInR :: "InfInt \<Rightarrow> InfInt \<Rightarrow> nat res" where
  "dInR R D = dInR_loop R D 0 (nat UPPER_BOUND)"

text \<open>The long-division loop over the limbs of the dividend, most significant first, with the
  remainder and the quotient limbs found so far (for \<open>operator%\<close> the quotient limbs are not kept).\<close>

fun div_loop :: "int list \<Rightarrow> InfInt \<Rightarrow> InfInt \<Rightarrow> int list \<Rightarrow> (InfInt \<times> int list) res" where
  "div_loop [] D R Q = Inr (R, Q)"
| "div_loop (n # ns) D R Q =
     res_bind (correct True False (R\<lparr>val := n # val R\<rparr>)) (\<lambda>R1.
     res_bind (dInR R1 D) (\<lambda>cnt.
     res_bind (InfInt_mult_elem D (int cnt)) (\<lambda>prd.
     res_bind (InfInt_sub_assign R1 prd) (\<lambda>R2.
       div_loop ns D R2 (int cnt # Q)))))"

definition InfInt_div :: "InfInt \<Rightarrow> InfInt \<Rightarrow> InfInt res" where
  "InfInt_div x rhs =
     (if isZero rhs then Inr InfInt_zero
      else
        (let D = (if pos rhs then rhs else InfInt_neg rhs);
             N = (if pos x then x else InfInt_neg x) in
         res_bind (div_loop (rev (val N)) D InfInt_zero []) (\<lambda>(R, qs).
         res_bind (correct False False \<lparr>val = qs, pos = True\<rparr>) (\<lambda>Q.
           Inr (Q\<lparr>pos := (if val Q = [0] then True else (pos x = pos rhs))\<rparr>)))))"

definition InfInt_mod :: "InfInt \<Rightarrow> InfInt \<Rightarrow> InfInt res" where
  "InfInt_mod x rhs =
     (if isZero rhs then Inr InfInt_zero
      else
        (let D = (if pos rhs then rhs else InfInt_neg rhs);
             N = (if pos x then x else InfInt_neg x) in
         res_bind (div_loop (rev (val N)) D InfInt_zero []) (\<lambda>(R, qs).
         res_bind (correct False False R) (\<lambda>R'.
           Inr (R'\<lparr>pos := (if val R' = [0] then True else pos x)\<rparr>)))))"

subsection \<open>Conversions\<close>

text \<open>The accumulation \<open>result = result * BASE + val[i]\<close> in a 64-bit integer, from the most
  significant limb down.\<close>

fun int64_loop :: "int list \<Rightarrow> 64 word \<Rightarrow> 64 word" where
  "int64_loop [] result = result"
| "int64_loop (v # vs) result = int64_loop vs (result * word_of_int BASE + word_of_int v)"

definition truncateToInt64 :: "InfInt \<Rightarrow> int" where
  "truncateToInt64 x =
     (let result = int64_loop (rev (val x)) 0 in sint (if pos x then result else - result))"

text \<open>\<open>toInt64\<close> also says whether it reported that the value is out of bounds.\<close>

definition toInt64 :: "InfInt \<Rightarrow> (bool \<times> int) res" where
  "toInt64 x =
     res_bind (InfInt_of_int64 INT64_MAX) (\<lambda>mx.
     res_bind (InfInt_of_int64 INT64_MIN) (\<lambda>mn.
       Inr (InfInt_gt x mx \<or> InfInt_lt x mn,
            (let result = int64_loop (rev (val x)) 0 in sint (if pos x then result else - result)))))"

text \<open>\<open>InfInt(UINT64_MAX)\<close> selects the \<open>int64_t\<close> constructor, which receives \<open>-1\<close>.\<close>

definition toUnsignedLongLong :: "InfInt \<Rightarrow> (bool \<times> nat) res" where
  "toUnsignedLongLong x =
     res_bind (InfInt_of_int64 (sint (- 1 :: 64 word))) (\<lambda>mx.
       Inr (\<not> pos x \<or> InfInt_gt x mx, unat (int64_loop (rev (val x)) 0)))"

definition numberOfDigits :: "InfInt \<Rightarrow> nat res" where
  "numberOfDigits x =
     (if val x = [] then Inl (Undefined ''val.back()'')
      else
       (let lastVal = last (val x); baseDigits = (length (val x) - 1) * DIGIT_COUNT in
        Inr (if lastVal > 99999999 then baseDigits + 9
             else if lastVal > 9999999 then baseDigits + 8
             else if lastVal > 999999 then baseDigits + 7
             else if lastVal > 99999 then baseDigits + 6
             else if lastVal > 9999 then baseDigits + 5
             else if lastVal > 999 then baseDigits + 4
             else if lastVal > 99 then baseDigits + 3
             else if lastVal > 9 then baseDigits + 2
             else baseDigits + 1)))"

definition powersOfTen :: "int list" where
  "powersOfTen = [1, 10, 100, 1000, 10000, 100000, 1000000, 10000000, 100000000]"

text \<open>\<open>digitAt\<close> answers \<open>-1\<close> for an index past the last digit.\<close>

definition digitAt :: "InfInt \<Rightarrow> nat \<Rightarrow> int res" where
  "digitAt x i =
     res_bind (numberOfDigits x) (\<lambda>n.
       if n \<le> i then Inr (- 1)
       else Inr ((val x ! (i div DIGIT_COUNT) sdiv powersOfTen ! (i mod DIGIT_COUNT)) smod 10))"

subsection \<open>Reading and printing\<close>

definition digit_char :: "nat \<Rightarrow> char" where
  "digit_char d = char_of (48 + d)"

definition char_digit :: "char \<Rightarrow> nat" where
  "char_digit c = of_char c - 48"

definition is_digit :: "char \<Rightarrow> bool" where
  "is_digit c \<longleftrightarrow> 48 \<le> (of_char c :: nat) \<and> (of_char c :: nat) \<le> 57"

text \<open>Decimal output of a non-negative C \<open>int\<close>, and \<open>std::setw\<close> with fill character 0.\<close>

fun show_nat :: "nat \<Rightarrow> string" where
  "show_nat n = (if n < 10 then [digit_char n] else show_nat (n div 10) @ [digit_char (n mod 10)])"

definition show_limb_padded :: "int \<Rightarrow> string" where
  "show_limb_padded v =
     (let s = show_nat (nat v) in replicate (DIGIT_COUNT - length s) (digit_char 0) @ s)"

definition InfInt_toString :: "InfInt \<Rightarrow> string" where
  "InfInt_toString x =
     (if pos x then '''' else ''-'') @
     (case rev (val x) of
        [] \<Rightarrow> ''''
      | v # vs \<Rightarrow> show_nat (nat v) @ concat (map show_limb_padded vs))"

text \<open>The C library's \<open>atoi\<close>: white space, an optional sign, digits.\<close>

fun dec_loop :: "nat \<Rightarrow> string \<Rightarrow> nat" where
  "dec_loop acc [] = acc"
| "dec_loop acc (c # cs) = (if is_digit c then dec_loop (acc * 10 + char_digit c) cs else acc)"

definition is_space :: "char \<Rightarrow> bool" where
  "is_space c \<longleftrightarrow> (of_char c :: nat) = 32 \<or> 9 \<le> (of_char c :: nat) \<and> (of_char c :: nat) \<le> 13"

definition atoi :: "string \<Rightarrow> int" where
  "atoi s =
     (case dropWhile is_space s of
        [] \<Rightarrow> 0
      | c # cs \<Rightarrow>
          if c = CHR ''-'' then - int (dec_loop 0 cs)
          else if c = CHR ''+'' then int (dec_loop 0 cs)
          else int (dec_loop 0 (c # cs)))"

text \<open>The chunk loop of \<open>fromString\<close>: nine characters at a time from the end of the string; the
  second result is what is left at the front.\<close>

function fromString_chunks :: "string \<Rightarrow> int list \<times> string" where
  "fromString_chunks s =
     (if length s \<ge> DIGIT_COUNT then
        (let rest = fromString_chunks (take (length s - DIGIT_COUNT) s)
         in (atoi (drop (length s - DIGIT_COUNT) s) # fst rest, snd rest))
      else ([], s))"
  by pat_completeness auto
termination
  by (relation "measure length") auto

definition fromString :: "string \<Rightarrow> InfInt res" where
  "fromString s =
     (case fromString_chunks s of (vs, ss) \<Rightarrow>
        let neg = (ss = ''-'');
            vs1 = (if ss = [] \<or> neg then vs else vs @ [atoi ss])
        in if vs1 = [] then Inl (Undefined ''val.back()'')
           else correct True False
             (if last vs1 < 0 then \<lparr>val = butlast vs1 @ [- last vs1], pos = False\<rparr>
              else \<lparr>val = vs1, pos = \<not> neg\<rparr>))"

end
