(* ===== verification/InfInt_Arith.thy ===== *)
theory InfInt_Arith
  imports InfInt
begin

section \<open>Arithmetic of InfInt\<close>

text \<open>
  The value of a number, the normal form every operation returns, and that each operation of
  \<open>src/lib/InfInt.h\<close> computes the mathematical one on normal forms: \<open>correct\<close> keeps the value
  of any limb vector, sums, products, long division and remainder are exact, the comparison
  operators decide the order of the values.
\<close>

subsection \<open>Values and normal forms\<close>

fun limbs_val :: "int list \<Rightarrow> int" where
  "limbs_val [] = 0"
| "limbs_val (v # vs) = v + BASE * limbs_val vs"

definition InfInt_val :: "InfInt \<Rightarrow> int" where
  "InfInt_val x = (if pos x then limbs_val (val x) else - limbs_val (val x))"

definition digit_limbs :: "int list \<Rightarrow> bool" where
  "digit_limbs vs \<longleftrightarrow> (\<forall>v \<in> set vs. 0 \<le> v \<and> v < BASE)"

definition wf_limbs :: "int list \<Rightarrow> bool" where
  "wf_limbs vs \<longleftrightarrow> vs \<noteq> [] \<and> digit_limbs vs \<and> (length vs = 1 \<or> last vs \<noteq> 0)"

definition wf_InfInt :: "InfInt \<Rightarrow> bool" where
  "wf_InfInt x \<longleftrightarrow> wf_limbs (val x) \<and> (val x = [0] \<longrightarrow> pos x)"

definition InfInt_of_int :: "int \<Rightarrow> InfInt" where
  "InfInt_of_int n = \<lparr>val = limbs_of \<bar>n\<bar>, pos = (n \<ge> 0)\<rparr>"

lemma digit_limbs_simps [simp]:
  "digit_limbs []"
  "digit_limbs (v # vs) \<longleftrightarrow> 0 \<le> v \<and> v < BASE \<and> digit_limbs vs"
  "digit_limbs (us @ vs) \<longleftrightarrow> digit_limbs us \<and> digit_limbs vs"
  "digit_limbs (rev vs) \<longleftrightarrow> digit_limbs vs"
  by (auto simp: digit_limbs_def)

lemma limbs_val_append [simp]:
  "limbs_val (us @ vs) = limbs_val us + BASE ^ length us * limbs_val vs"
  by (induction us) (simp_all add: algebra_simps)

lemma limbs_val_replicate_0 [simp]: "limbs_val (replicate n 0) = 0"
  by (induction n) simp_all

lemma limbs_val_map_uminus [simp]: "limbs_val (map uminus vs) = - limbs_val vs"
  by (induction vs) simp_all

lemma limbs_val_map_neg [simp]: "limbs_val (map (\<lambda>v. - v) vs) = - limbs_val vs"
  by (induction vs) simp_all

lemma limbs_val_zeros: "\<forall>v \<in> set vs. v = 0 \<Longrightarrow> limbs_val vs = 0"
  by (induction vs) simp_all

lemma limbs_val_nonneg [simp]: "digit_limbs vs \<Longrightarrow> 0 \<le> limbs_val vs"
  by (induction vs) simp_all

lemma limbs_val_less: "digit_limbs vs \<Longrightarrow> limbs_val vs < BASE ^ length vs"
proof (induction vs)
  case (Cons v vs)
  then have "limbs_val vs \<le> BASE ^ length vs - 1" "v < BASE" by auto
  then show ?case by simp
qed simp

lemma limbs_val_pos_iff: "digit_limbs vs \<Longrightarrow> 0 < limbs_val vs \<longleftrightarrow> (\<exists>v \<in> set vs. v \<noteq> 0)"
proof (induction vs)
  case (Cons v vs)
  then show ?case by (cases "v = 0") (auto intro: add_pos_nonneg)
qed simp

lemma limbs_val_ge_last:
  assumes "digit_limbs vs" "vs \<noteq> []" "last vs \<noteq> 0"
  shows "BASE ^ (length vs - 1) \<le> limbs_val vs"
proof -
  obtain us u where vs: "vs = us @ [u]" using \<open>vs \<noteq> []\<close> by (cases vs rule: rev_cases) auto
  have "u \<ge> 1" "digit_limbs us" using assms vs by auto
  then have "BASE ^ length us * 1 \<le> BASE ^ length us * u" by (intro mult_left_mono) auto
  moreover have "0 \<le> limbs_val us" using \<open>digit_limbs us\<close> by simp
  ultimately have "BASE ^ length us \<le> limbs_val us + BASE ^ length us * u" by linarith
  then show ?thesis using vs by simp
qed

lemma sdiv_nonneg [simp]: "0 \<le> v \<Longrightarrow> v sdiv BASE = v div BASE"
  by (auto simp: signed_divide_int_def sgn_if)

lemma my_lldiv_nonneg [simp]: "0 \<le> v \<Longrightarrow> my_lldiv v BASE = (v div BASE, v mod BASE)"
  by (simp add: my_lldiv_def Let_def minus_mult_div_eq_mod)

lemma my_div_decomp: "snd (my_div v BASE) + BASE * fst (my_div v BASE) = v"
  by (simp add: my_div_def Let_def)

lemma my_div_rem_bound: "\<bar>snd (my_div v BASE)\<bar> < BASE"
proof -
  have "\<bar>v\<bar> - BASE * (\<bar>v\<bar> div BASE) = \<bar>v\<bar> mod BASE" by (simp add: minus_mult_div_eq_mod)
  then have "snd (my_div v BASE) = sgn v * (\<bar>v\<bar> mod BASE)"
    by (cases "v \<ge> 0") (auto simp: my_div_def Let_def signed_divide_int_def sgn_if)
  then show ?thesis by (simp add: abs_mult sgn_if)
qed

declare limbs_of.simps [simp del]

lemma limbs_of_rec:
  "0 \<le> n \<Longrightarrow> limbs_of n = (if n < BASE then [n] else n mod BASE # limbs_of (n div BASE))"
  by (subst limbs_of.simps) (auto simp: Let_def)

lemma limbs_val_limbs_of [simp]: "0 \<le> n \<Longrightarrow> limbs_val (limbs_of n) = n"
proof (induction n rule: limbs_of.induct)
  case (1 n)
  then show ?case by (auto simp: limbs_of_rec[of n] pos_imp_zdiv_pos_iff)
qed

lemma wf_limbs_limbs_of [simp]: "0 \<le> n \<Longrightarrow> wf_limbs (limbs_of n)"
proof (induction n rule: limbs_of.induct)
  case (1 n)
  show ?case
  proof (cases "n < BASE")
    case False
    then have "wf_limbs (limbs_of (n div BASE))" using 1 by (simp add: pos_imp_zdiv_pos_iff)
    moreover have "limbs_of (n div BASE) \<noteq> [0]"
    proof
      assume "limbs_of (n div BASE) = [0]"
      then have "n div BASE = 0" using limbs_val_limbs_of[of "n div BASE"] 1 by auto
      then show False using False 1 by auto
    qed
    ultimately show ?thesis using False 1
      by (cases "limbs_of (n div BASE)") (auto simp: limbs_of_rec[of n] wf_limbs_def)
  qed (use 1 in \<open>auto simp: limbs_of_rec[of n] wf_limbs_def\<close>)
qed

lemma limbs_of_limbs_val: "wf_limbs vs \<Longrightarrow> limbs_of (limbs_val vs) = vs"
proof (induction vs)
  case (Cons v vs)
  show ?case
  proof (cases vs)
    case Nil
    then show ?thesis using Cons.prems by (simp add: limbs_of_rec wf_limbs_def)
  next
    case (Cons w ws)
    then have wf: "wf_limbs vs" and v: "0 \<le> v" "v < BASE" "digit_limbs vs"
      using Cons.prems by (auto simp: wf_limbs_def)
    have "0 < limbs_val vs"
      using Cons.prems v(3) Cons limbs_val_pos_iff[of vs] last_in_set[of vs] by (auto simp: wf_limbs_def)
    then show ?thesis using v Cons.IH[OF wf] by (simp add: limbs_of_rec)
  qed
qed (simp add: wf_limbs_def)

lemma InfInt_val_of_int [simp]: "InfInt_val (InfInt_of_int n) = n"
  by (simp add: InfInt_val_def InfInt_of_int_def)

lemma limbs_of_eq_0_iff [simp]: "0 \<le> n \<Longrightarrow> limbs_of n = [0] \<longleftrightarrow> n = 0"
  using limbs_val_limbs_of[of n] by (auto simp: limbs_of_rec)

lemma wf_InfInt_of_int [simp]: "wf_InfInt (InfInt_of_int n)"
  by (auto simp: wf_InfInt_def InfInt_of_int_def)

text \<open>The normal form is unique: a well-formed number is determined by its value.\<close>

lemma InfInt_of_int_val: "wf_InfInt x \<Longrightarrow> InfInt_of_int (InfInt_val x) = x"
proof -
  assume wf: "wf_InfInt x"
  then have "digit_limbs (val x)" by (simp add: wf_InfInt_def wf_limbs_def)
  then have nn: "0 \<le> limbs_val (val x)" by simp
  have "\<not> pos x \<Longrightarrow> limbs_val (val x) \<noteq> 0"
    using wf limbs_of_limbs_val[of "val x"] by (auto simp: wf_InfInt_def limbs_of_rec)
  then show ?thesis using wf nn limbs_of_limbs_val[of "val x"]
    by (cases x) (auto simp: InfInt_of_int_def InfInt_val_def wf_InfInt_def)
qed

lemma wf_InfInt_iff: "wf_InfInt x \<longleftrightarrow> x = InfInt_of_int (InfInt_val x)"
  by (metis InfInt_of_int_val wf_InfInt_of_int)

lemma InfInt_of_int_eq_iff [simp]: "InfInt_of_int m = InfInt_of_int n \<longleftrightarrow> m = n"
  by (metis InfInt_val_of_int)

subsection \<open>Normalisation\<close>

declare truncateToBase.simps(2) [simp del] mult_loop.simps [simp del] write_carry.simps [simp del]
  dInR_loop.simps [simp del] fromString_chunks.simps [simp del] show_nat.simps [simp del]

lemma truncateToBase_val [simp]: "limbs_val (truncateToBase vs) = limbs_val vs"
proof (induction vs rule: truncateToBase.induct)
  case (2 v vs)
  then show ?case using my_div_decomp[of v]
    by (subst truncateToBase.simps) (auto simp: algebra_simps split: list.split)
qed simp

lemma truncateToBase_bound: "u \<in> set (truncateToBase vs) \<Longrightarrow> \<bar>u\<bar> < BASE"
proof (induction vs rule: truncateToBase.induct)
  case (2 v vs)
  then show ?case using my_div_rem_bound[of v]
    by (subst (asm) (3) truncateToBase.simps) (auto split: list.splits if_splits)
qed simp

lemma truncateToBase_Nil_iff [simp]: "truncateToBase vs = [] \<longleftrightarrow> vs = []"
  by (cases vs) (auto simp: truncateToBase.simps(2) split: list.splits)

lemma borrow_pos_correct:
  assumes "digit_limbs hi" "0 < limbs_val hi"
  shows "\<exists>hi'. borrow_pos hi = Inr hi' \<and> digit_limbs hi' \<and> limbs_val hi' = limbs_val hi - 1"
  using assms
proof (induction hi)
  case (Cons h hi)
  then show ?case by (cases "h = 0") auto
qed simp

lemma equalize_pos_correct:
  assumes "\<forall>d \<in> set ds. \<bar>d\<bar> < BASE" "digit_limbs hi" "0 < limbs_val hi"
  shows "\<exists>r. equalize_pos ds hi = Inr r \<and> digit_limbs r \<and> 0 < limbs_val r
    \<and> limbs_val r = limbs_val (rev ds @ hi)"
  using assms
proof (induction ds arbitrary: hi)
  case (Cons d ds)
  have *: ?case if h: "equalize_pos (d # ds) hi = equalize_pos ds h" "digit_limbs h"
    "limbs_val h = d + BASE * limbs_val hi" for h
  proof -
    have "0 < limbs_val h" using h Cons.prems by auto
    then obtain r where "equalize_pos ds h = Inr r" "digit_limbs r" "0 < limbs_val r"
      "limbs_val r = limbs_val (rev ds @ h)"
      using Cons.IH[of h] Cons.prems h by auto
    moreover have "limbs_val (rev ds @ h) = limbs_val (rev (d # ds) @ hi)"
      using h(3) by (simp add: algebra_simps)
    ultimately show ?thesis using h(1) by auto
  qed
  show ?case
  proof (cases "d < 0")
    case True
    obtain hi' where hi': "borrow_pos hi = Inr hi'" "digit_limbs hi'" "limbs_val hi' = limbs_val hi - 1"
      using borrow_pos_correct Cons.prems by blast
    then show ?thesis by (intro *[of "(d + BASE) # hi'"]) (use Cons.prems True in auto)
  next
    case False
    then show ?thesis by (intro *[of "d # hi"]) (use Cons.prems in auto)
  qed
qed simp

lemma borrow_neg_uminus:
  "borrow_neg (map uminus hi) = map_sum id (map uminus) (borrow_pos hi)"
  by (induction hi) (auto simp: res_bind_def split: sum.split)

lemma equalize_neg_uminus:
  "equalize_neg (map uminus ds) (map uminus hi) = map_sum id (map uminus) (equalize_pos ds hi)"
proof (induction ds arbitrary: hi)
  case (Cons d ds)
  show ?case
  proof (cases "borrow_pos hi")
    case (Inl e)
    then show ?thesis using Cons.IH[of "d # hi"] by (simp add: borrow_neg_uminus)
  next
    case (Inr hi')
    then show ?thesis using Cons.IH[of "d # hi"] Cons.IH[of "(d + BASE) # hi'"]
      by (simp add: borrow_neg_uminus)
  qed
qed simp

lemma equalize_neg_correct:
  assumes "\<forall>d \<in> set ds. \<bar>d\<bar> < BASE" "digit_limbs (map uminus hi)" "limbs_val hi < 0"
  shows "\<exists>r. equalize_neg ds hi = Inr r \<and> digit_limbs (map uminus r) \<and> limbs_val r < 0
    \<and> limbs_val r = limbs_val (rev ds @ hi)"
proof -
  have "\<exists>r. equalize_pos (map uminus ds) (map uminus hi) = Inr r \<and> digit_limbs r \<and> 0 < limbs_val r
    \<and> limbs_val r = limbs_val (rev (map uminus ds) @ map uminus hi)"
    by (rule equalize_pos_correct) (use assms in auto)
  moreover have "rev (map uminus ds) @ map uminus hi = map uminus (rev ds @ hi)" by (simp add: rev_map)
  ultimately obtain r where r: "equalize_pos (map uminus ds) (map uminus hi) = Inr r" "digit_limbs r"
    "0 < limbs_val r" "limbs_val r = - limbs_val (rev ds @ hi)"
    by (metis limbs_val_map_uminus)
  then have "equalize_neg ds hi = Inr (map uminus r)"
    using equalize_neg_uminus[of "map uminus ds" "map uminus hi"] by (simp add: comp_def)
  then show ?thesis using r by (auto simp: comp_def)
qed

lemma limbs_split_top:
  "vs = rev (dropWhile (\<lambda>d. d = 0) (rev vs)) @ rev (takeWhile (\<lambda>d. d = 0) (rev vs))"
  by (metis rev_append rev_rev_ident takeWhile_dropWhile_id)

lemma rev_takeWhile_0 [simp]:
  "rev (takeWhile (\<lambda>d. d = 0) us) = takeWhile (\<lambda>d. d = (0::int)) us"
proof -
  have "takeWhile (\<lambda>d. d = 0) us = replicate (length (takeWhile (\<lambda>d. d = (0::int)) us)) 0"
    by (intro replicate_eqI) (auto dest: set_takeWhileD)
  then show ?thesis by (metis rev_replicate)
qed

text \<open>\<open>equalizeSigns\<close> never leaves the vector, keeps the value, and reports its sign.\<close>

lemma equalizeSigns_correct:
  assumes "\<forall>v \<in> set vs. \<bar>v\<bar> < BASE"
  shows "\<exists>r. equalizeSigns vs = Inr (0 \<le> limbs_val vs, r) \<and> limbs_val r = limbs_val vs
    \<and> (if 0 \<le> limbs_val vs then digit_limbs r else digit_limbs (map uminus r))"
proof (cases "dropWhile (\<lambda>d. d = 0) (rev vs)")
  case Nil
  then have "\<forall>v \<in> set vs. v = 0" by simp
  then have "limbs_val vs = 0" "digit_limbs vs" by (auto simp: limbs_val_zeros digit_limbs_def)
  then show ?thesis unfolding equalizeSigns_def Nil by simp
next
  case (Cons d ds)
  let ?z = "takeWhile (\<lambda>d. d = 0) (rev vs)"
  have vs: "vs = rev ds @ d # ?z"
    using limbs_split_top[of vs] Cons by simp
  have d: "d \<noteq> 0" using Cons hd_dropWhile[of "\<lambda>d. d = 0" "rev vs"] by auto
  have z: "\<forall>v \<in> set ?z. v = 0" by (auto dest: set_takeWhileD)
  then have z0: "limbs_val ?z = 0" "digit_limbs ?z" "digit_limbs (map uminus ?z)"
    by (auto simp: limbs_val_zeros digit_limbs_def)
  have b: "\<forall>v \<in> set ds. \<bar>v\<bar> < BASE" "\<bar>d\<bar> < BASE" 
    using assms arg_cong[OF vs, of set] by auto
  show ?thesis
  proof (cases "d > 0")
    case True
    then have "digit_limbs (d # ?z)" "0 < limbs_val (d # ?z)" using b z0 by auto
    then obtain r where "equalize_pos ds (d # ?z) = Inr r" "digit_limbs r"
      "0 < limbs_val r" "limbs_val r = limbs_val vs"
      using equalize_pos_correct[OF b(1)] vs by metis
    then show ?thesis unfolding equalizeSigns_def Cons using True by simp
  next
    case False
    then have "d < 0" using d by simp
    then have "digit_limbs (map uminus (d # ?z))" "limbs_val (d # ?z) < 0" using b z0 by auto
    then obtain r where "equalize_neg ds (d # ?z) = Inr r" "digit_limbs (map uminus r)"
      "limbs_val r < 0" "limbs_val r = limbs_val vs"
      using equalize_neg_correct[OF b(1)] vs by metis
    then show ?thesis unfolding equalizeSigns_def Cons using False by simp
  qed
qed

lemma erase_zeros_facts:
  "limbs_val (rev (erase_zeros ds)) = limbs_val (rev ds)"
  "set (erase_zeros ds) \<subseteq> set ds"
  "erase_zeros ds = [] \<longleftrightarrow> ds = []"
  "ds \<noteq> [] \<Longrightarrow> length (erase_zeros ds) = 1 \<or> hd (erase_zeros ds) \<noteq> 0"
  by (induction ds rule: erase_zeros.induct) auto

lemma removeLeadingZeros_val [simp]: "limbs_val (removeLeadingZeros vs) = limbs_val vs"
  using erase_zeros_facts(1)[of "rev vs"] by (simp add: removeLeadingZeros_def)

lemma removeLeadingZeros_wf:
  assumes "vs \<noteq> []" "digit_limbs vs"
  shows "wf_limbs (removeLeadingZeros vs)"
  using assms erase_zeros_facts(2-4)[of "rev vs"]
  by (auto simp: wf_limbs_def removeLeadingZeros_def last_rev digit_limbs_def)

lemma removeLeadingZeros_limbs_of:
  "vs \<noteq> [] \<Longrightarrow> digit_limbs vs \<Longrightarrow> removeLeadingZeros vs = limbs_of (limbs_val vs)"
  by (metis removeLeadingZeros_val removeLeadingZeros_wf limbs_of_limbs_val)

lemma digit_limbs_map_uminus_abs: "digit_limbs (map uminus r) \<Longrightarrow> map abs r = map uminus r"
  by (auto simp: digit_limbs_def)

lemma removeLeadingZeros_abs:
  "r \<noteq> [] \<Longrightarrow> digit_limbs (map uminus r) \<Longrightarrow> removeLeadingZeros (map abs r) = limbs_of (- limbs_val r)"
  by (simp add: digit_limbs_map_uminus_abs removeLeadingZeros_limbs_of)

lemma equalizeSigns_Nil: "equalizeSigns vs = Inr (b, []) \<Longrightarrow> vs = []"
proof -
  have b: "borrow_pos hi \<noteq> Inr []" "borrow_neg hi \<noteq> Inr []" for hi
    by (induction hi) (auto simp: res_bind_def split: sum.splits)
  have e: "equalize_pos ds hi = Inr [] \<Longrightarrow> hi = []" "equalize_neg ds hi = Inr [] \<Longrightarrow> hi = []" for ds hi
    by (induction ds arbitrary: hi) (auto split: if_splits)
  show "equalizeSigns vs = Inr (b, []) \<Longrightarrow> vs = []"
    by (auto simp: equalizeSigns_def Let_def split: list.splits if_splits dest!: e)
qed

text \<open>\<open>correct\<close> normalises every limb vector and keeps its value.\<close>

lemma correct_normalises:
  assumes "val x \<noteq> []"
  shows "correct False False x = Inr (InfInt_of_int (limbs_val (val x)))"
proof -
  obtain r where r: "equalizeSigns (truncateToBase (val x)) = Inr (0 \<le> limbs_val (val x), r)"
    "limbs_val r = limbs_val (val x)"
    "if 0 \<le> limbs_val (val x) then digit_limbs r else digit_limbs (map uminus r)"
    using equalizeSigns_correct[of "truncateToBase (val x)"] truncateToBase_bound by auto
  have "r \<noteq> []" using equalizeSigns_Nil r(1) assms truncateToBase_Nil_iff by metis
  show ?thesis
  proof (cases "0 \<le> limbs_val (val x)")
    case True
    then show ?thesis using r \<open>r \<noteq> []\<close>
      by (simp add: correct_def InfInt_of_int_def removeLeadingZeros_limbs_of)
  next
    case False
    then show ?thesis using r \<open>r \<noteq> []\<close>
      by (simp add: correct_def InfInt_of_int_def removeLeadingZeros_abs)
  qed
qed

lemma correct_keeps_sign:
  assumes "val x \<noteq> []" "limbs_val (val x) \<noteq> 0"
  shows "correct False True x = Inr (InfInt_of_int (InfInt_val x))"
proof -
  obtain r where r: "equalizeSigns (truncateToBase (val x)) = Inr (0 \<le> limbs_val (val x), r)"
    "limbs_val r = limbs_val (val x)"
    "if 0 \<le> limbs_val (val x) then digit_limbs r else digit_limbs (map uminus r)"
    using equalizeSigns_correct[of "truncateToBase (val x)"] truncateToBase_bound by auto
  have r0: "r \<noteq> []" "r \<noteq> [0]" using r(2) assms by auto
  show ?thesis
  proof (cases "0 \<le> limbs_val (val x)")
    case True
    then show ?thesis using r r0 assms
      by (cases "pos x") (auto simp: correct_def InfInt_of_int_def InfInt_val_def removeLeadingZeros_limbs_of)
  next
    case False
    then show ?thesis using r r0
      by (cases "pos x") (auto simp: correct_def InfInt_of_int_def InfInt_val_def removeLeadingZeros_abs)
  qed
qed

lemma correct_leading_zeros:
  "val x \<noteq> [] \<Longrightarrow> digit_limbs (val x) \<Longrightarrow>
   correct True b x = Inr (x\<lparr>val := limbs_of (limbs_val (val x))\<rparr>)"
  by (simp add: correct_def removeLeadingZeros_limbs_of)

lemma wf_InfIntD [dest]:
  "wf_InfInt x \<Longrightarrow> val x \<noteq> []"
  "wf_InfInt x \<Longrightarrow> digit_limbs (val x)"
  by (auto simp: wf_InfInt_def wf_limbs_def)

subsection \<open>Sums and constructors\<close>

lemma limbs_val_map_0 [simp]:
  "limbs_val (map ((+) 0) bs) = limbs_val bs" "limbs_val (map ((-) 0) bs) = - limbs_val bs"
  by (induction bs) simp_all

lemma limbs_val_zip_add [simp]: "limbs_val (zip_limbs (+) as bs) = limbs_val as + limbs_val bs"
  by (induction "(+) :: int \<Rightarrow> int \<Rightarrow> int" as bs rule: zip_limbs.induct) (auto simp: algebra_simps)

lemma limbs_val_zip_sub [simp]: "limbs_val (zip_limbs (-) as bs) = limbs_val as - limbs_val bs"
  by (induction "(-) :: int \<Rightarrow> int \<Rightarrow> int" as bs rule: zip_limbs.induct) (auto simp: algebra_simps)

lemma zip_limbs_Nil_iff [simp]: "zip_limbs f as bs = [] \<longleftrightarrow> as = [] \<and> bs = []"
  by (cases "(f, as, bs)" rule: zip_limbs.cases) auto

lemma limbs_val_signed [simp]: "limbs_val (signed_limbs x) = InfInt_val x"
  by (simp add: signed_limbs_def InfInt_val_def)

lemma signed_limbs_Nil_iff [simp]: "signed_limbs x = [] \<longleftrightarrow> val x = []"
  by (simp add: signed_limbs_def)

lemma InfInt_add_val:
  "val x \<noteq> [] \<Longrightarrow> InfInt_add x y = Inr (InfInt_of_int (InfInt_val x + InfInt_val y))"
  by (simp add: InfInt_add_def correct_normalises)

lemma InfInt_sub_val:
  "val x \<noteq> [] \<Longrightarrow> InfInt_sub x y = Inr (InfInt_of_int (InfInt_val x - InfInt_val y))"
  by (simp add: InfInt_sub_def correct_normalises)

lemma InfInt_add_assign_val:
  "val x \<noteq> [] \<Longrightarrow> InfInt_add_assign x y = Inr (InfInt_of_int (InfInt_val x + InfInt_val y))"
  by (simp add: InfInt_add_assign_def correct_normalises)

lemma InfInt_sub_assign_val:
  "val x \<noteq> [] \<Longrightarrow> InfInt_sub_assign x y = Inr (InfInt_of_int (InfInt_val x - InfInt_val y))"
  by (simp add: InfInt_sub_assign_def correct_normalises)

lemma val_of_int_Nil [simp]: "val (InfInt_of_int n) \<noteq> []" "limbs_of m \<noteq> []"
  using wf_InfIntD(1)[OF wf_InfInt_of_int] by (auto simp: limbs_of.simps[of m] Let_def)

lemma InfInt_zero_of_int: "InfInt_zero = InfInt_of_int 0"
  by (simp add: InfInt_zero_def InfInt_of_int_def limbs_of_rec)

lemma InfInt_neg_of_int: "n \<noteq> 0 \<Longrightarrow> InfInt_neg (InfInt_of_int n) = InfInt_of_int (- n)"
  by (auto simp: InfInt_neg_def InfInt_of_int_def)

lemma isZero_of_int [simp]: "isZero (InfInt_of_int n) \<longleftrightarrow> n = 0"
  by (simp add: isZero_def InfInt_of_int_def)

lemma correct_keeps_sign_zero:
  "correct False True \<lparr>val = [0], pos = p\<rparr> = Inr (InfInt_of_int 0)"
  by (simp add: correct_def truncateToBase.simps equalizeSigns_def removeLeadingZeros_def
      InfInt_of_int_def limbs_of_rec)

lemma InfInt_step_aux:
  assumes "wf_InfInt x" "val x = v # vs" "\<bar>k\<bar> = 1"
  shows "correct False True (x\<lparr>val := (v + k) # vs\<rparr>) =
    Inr (InfInt_of_int (InfInt_val x + (if pos x then k else - k)))"
proof (cases "limbs_val ((v + k) # vs) = 0")
  case False
  then show ?thesis using assms by (simp add: correct_keeps_sign InfInt_val_def)
next
  case True
  have "vs = []"
  proof (rule ccontr)
    assume "vs \<noteq> []"
    then have "BASE ^ (length (v # vs) - 1) \<le> limbs_val (v # vs)"
      using assms by (intro limbs_val_ge_last) (auto simp: wf_InfInt_def wf_limbs_def)
    moreover have "BASE ^ 1 \<le> BASE ^ (length (v # vs) - 1)"
      using \<open>vs \<noteq> []\<close> by (intro power_increasing) (auto simp: Suc_le_eq)
    ultimately show False using True assms(3) by simp
  qed
  then show ?thesis using True assms
    by (cases x) (auto simp: correct_keeps_sign_zero InfInt_val_def)
qed

lemma InfInt_inc_val: "wf_InfInt x \<Longrightarrow> InfInt_inc x = Inr (InfInt_of_int (InfInt_val x + 1))"
  using InfInt_step_aux[of x _ _ "if pos x then 1 else -1"]
  by (cases "val x") (auto simp: InfInt_inc_def dest: wf_InfIntD)

lemma InfInt_dec_val: "wf_InfInt x \<Longrightarrow> InfInt_dec x = Inr (InfInt_of_int (InfInt_val x - 1))"
  using InfInt_step_aux[of x _ _ "if pos x then -1 else 1"]
  by (cases "val x") (auto simp: InfInt_dec_def dest: wf_InfIntD)

lemma InfInt_of_int64_val:
  assumes "INT64_MIN \<le> l" "l \<le> INT64_MAX"
  shows "InfInt_of_int64 l = Inr (InfInt_of_int l)"
proof (cases "l = INT64_MIN")
  case True
  have "\<lparr>val = limbs_of (- (INT64_MIN + 1)), pos = False\<rparr> = InfInt_of_int (INT64_MIN + 1)"
    by (simp add: InfInt_of_int_def INT64_MIN_def)
  then show ?thesis using True
    by (simp add: InfInt_of_int64_def Let_def InfInt_dec_val) (simp add: INT64_MIN_def)
qed (auto simp: InfInt_of_int64_def Let_def InfInt_of_int_def)

subsection \<open>Comparison\<close>

lemma compare_loop_val:
  assumes "length as = length bs" "digit_limbs as" "digit_limbs bs"
  shows "compare_loop lt gt eq (rev as) (rev bs) =
    (if limbs_val as < limbs_val bs then lt else if limbs_val as > limbs_val bs then gt else eq)"
  using assms
proof (induction as bs rule: rev_induct2)
  case (4 a as b bs)
  then have IH: "compare_loop lt gt eq (rev as) (rev bs) =
    (if limbs_val as < limbs_val bs then lt else if limbs_val as > limbs_val bs then gt else eq)"
    and l: "length as = length bs" and d: "digit_limbs as" "digit_limbs bs" by auto
  let ?P = "BASE ^ length bs"
  have *: "limbs_val us + ?P * u < limbs_val ws + ?P * w"
    if "u < w" "digit_limbs us" "digit_limbs ws" "length us = length bs" for u w us ws
  proof -
    have "?P * (u + 1) \<le> ?P * w" using that by (intro mult_left_mono) auto
    moreover have "limbs_val us < ?P" "0 \<le> limbs_val ws" using that limbs_val_less[of us] by auto
    ultimately show ?thesis by (simp add: algebra_simps)
  qed
  consider "a < b" | "b < a" | "a = b" by linarith
  then show ?case
  proof cases
    case 1 then show ?thesis using *[of a b as bs] d l by simp
  next
    case 2 then show ?thesis using *[of b a bs as] d l by simp
  next
    case 3 then show ?thesis using IH l by simp
  qed
qed auto

lemma limbs_val_shorter:
  assumes "wf_limbs as" "wf_limbs bs" "length as < length bs"
  shows "limbs_val as < limbs_val bs"
proof -
  have "limbs_val as < BASE ^ length as" using assms limbs_val_less by (auto simp: wf_limbs_def)
  also have "\<dots> \<le> BASE ^ (length bs - 1)" using assms by (intro power_increasing) auto
  also have "\<dots> \<le> limbs_val bs"
    using assms by (intro limbs_val_ge_last) (auto simp: wf_limbs_def)
  finally show ?thesis .
qed

lemma InfInt_val_sign:
  assumes "wf_InfInt x"
  shows "pos x \<longleftrightarrow> 0 \<le> InfInt_val x"
  using InfInt_of_int_val[OF assms] by (metis InfInt_of_int_def InfInt.select_convs(2))

lemma wf_InfInt_limbs: "wf_InfInt x \<Longrightarrow> wf_limbs (val x)"
  by (simp add: wf_InfInt_def)

lemma InfInt_compare_cases:
  assumes "wf_InfInt x" "wf_InfInt y"
  shows "(if pos x \<and> \<not> pos y then g else if \<not> pos x \<and> pos y then l
      else if length (val x) > length (val y) then (if pos x then g else l)
      else if length (val x) < length (val y) then (if pos x then l else g)
      else compare_loop (if pos x then l else g) (if pos x then g else l) e (rev (val x)) (rev (val y)))
    = (if InfInt_val x < InfInt_val y then l else if InfInt_val x > InfInt_val y then g else e)"
proof (cases "pos x = pos y")
  case False
  then show ?thesis using InfInt_val_sign[OF assms(1)] InfInt_val_sign[OF assms(2)] by auto
next
  case True
  note wf = wf_InfInt_limbs[OF assms(1)] wf_InfInt_limbs[OF assms(2)]
  consider "length (val x) < length (val y)" | "length (val y) < length (val x)"
    | "length (val x) = length (val y)" by linarith
  then show ?thesis
  proof cases
    case 1
    then show ?thesis using limbs_val_shorter[OF wf] True by (auto simp: InfInt_val_def)
  next
    case 2
    then show ?thesis using limbs_val_shorter[OF wf(2,1)] True by (auto simp: InfInt_val_def)
  next
    case 3
    then show ?thesis using compare_loop_val[OF 3] assms True
      by (cases "pos x") (auto simp: InfInt_val_def wf_InfIntD)
  qed
qed

lemma InfInt_lt_val: "wf_InfInt x \<Longrightarrow> wf_InfInt y \<Longrightarrow> InfInt_lt x y \<longleftrightarrow> InfInt_val x < InfInt_val y"
  using InfInt_compare_cases[of x y False True False]
  by (auto simp: InfInt_lt_def split: if_splits)

lemma InfInt_le_val: "wf_InfInt x \<Longrightarrow> wf_InfInt y \<Longrightarrow> InfInt_le x y \<longleftrightarrow> InfInt_val x \<le> InfInt_val y"
  using InfInt_compare_cases[of x y False True True]
  by (auto simp: InfInt_le_def split: if_splits)

lemma InfInt_gt_val: "wf_InfInt x \<Longrightarrow> wf_InfInt y \<Longrightarrow> InfInt_gt x y \<longleftrightarrow> InfInt_val x > InfInt_val y"
  using InfInt_compare_cases[of x y True False False]
  by (auto simp: InfInt_gt_def split: if_splits)

lemma InfInt_ge_val: "wf_InfInt x \<Longrightarrow> wf_InfInt y \<Longrightarrow> InfInt_ge x y \<longleftrightarrow> InfInt_val x \<ge> InfInt_val y"
  using InfInt_compare_cases[of x y True False True]
  by (auto simp: InfInt_ge_def split: if_splits)

lemma compare_loop_eq:
  "length as = length bs \<Longrightarrow> compare_loop False False True as bs \<longleftrightarrow> as = bs"
  "length as = length bs \<Longrightarrow> compare_loop True True False as bs \<longleftrightarrow> as \<noteq> bs"
  by (induction as bs rule: list_induct2) auto

lemma InfInt_eq_iff: "InfInt_eq x y \<longleftrightarrow> x = y"
  by (cases x; cases y) (auto simp: InfInt_eq_def compare_loop_eq)

lemma InfInt_neq_iff: "InfInt_neq x y \<longleftrightarrow> x \<noteq> y"
  by (cases x; cases y) (auto simp: InfInt_neq_def compare_loop_eq)

lemma InfInt_eq_val: "wf_InfInt x \<Longrightarrow> wf_InfInt y \<Longrightarrow> InfInt_eq x y \<longleftrightarrow> InfInt_val x = InfInt_val y"
  by (metis InfInt_eq_iff InfInt_of_int_val)

lemma isWithinSmallIntRange_limbs:
  assumes "wf_limbs vs" "0 \<le> k" "k < BASE"
  shows "(if length vs > 3 then False else if length vs < 3 then True
      else if vs ! 2 < 4 then True else if vs ! 2 > 4 then False
      else if vs ! 1 < 611686018 then True else if vs ! 1 > 611686018 then False
      else vs ! 0 \<le> k) \<longleftrightarrow> limbs_val vs \<le> 4611686018000000000 + k"
proof -
  have "0 < length vs" using assms(1) by (simp add: wf_limbs_def)
  then consider "length vs = 1" | "length vs = 2" | "length vs = 3" | "length vs > 3" by linarith
  then show ?thesis
  proof cases
    case 1
    then obtain a where "vs = [a]" by (auto simp: length_Suc_conv)
    then show ?thesis using assms by (simp add: wf_limbs_def)
  next
    case 2
    then obtain a b where "vs = [a, b]" by (auto simp: length_Suc_conv numeral_2_eq_2)
    then show ?thesis using assms by (simp add: wf_limbs_def)
  next
    case 3
    then obtain a b c where 3: "vs = [a, b, c]" by (auto simp: length_Suc_conv numeral_3_eq_3)
    then have "0 \<le> a" "a < BASE" "0 \<le> b" "b < BASE" "limbs_val vs = a + BASE * (b + BASE * c)"
      using assms by (auto simp: wf_limbs_def)
    moreover have "vs ! 2 = c" "vs ! 1 = b" "vs ! 0 = a" "length vs = 3" using 3 by simp_all
    ultimately show ?thesis using assms(2,3) by auto
  next
    case 4
    have "BASE ^ 3 \<le> BASE ^ (length vs - 1)" using 4 by (intro power_increasing) auto
    also have "\<dots> \<le> limbs_val vs"
      using assms(1) 4 by (intro limbs_val_ge_last) (auto simp: wf_limbs_def)
    finally show ?thesis using 4 assms by simp
  qed
qed

lemma isWithinSmallIntRange_val:
  assumes "wf_InfInt x"
  shows "isWithinSmallIntRange x \<longleftrightarrow> - (2 ^ 62) \<le> InfInt_val x \<and> InfInt_val x \<le> 2 ^ 62 - 1"
proof -
  have wf: "wf_limbs (val x)" and nn: "0 \<le> limbs_val (val x)"
    using assms by (auto simp: wf_InfInt_def wf_InfIntD)
  have "isWithinSmallIntRange x \<longleftrightarrow>
      limbs_val (val x) \<le> (if pos x then 4611686018427387903 else 4611686018427387904)"
    using isWithinSmallIntRange_limbs[OF wf, of 427387903]
      isWithinSmallIntRange_limbs[OF wf, of 427387904]
    by (simp only: isWithinSmallIntRange_def) simp
  then show ?thesis using nn by (simp only: InfInt_val_def) auto
qed

subsection \<open>Products\<close>

lemma multiplyByDigit_loop_val:
  assumes "digit_limbs vs" "0 \<le> factor" "0 \<le> carry"
  shows "limbs_val (multiplyByDigit_loop factor carry vs) = factor * limbs_val vs + carry"
  using assms
proof (induction vs arbitrary: carry)
  case (Cons v vs)
  let ?p = "v * factor + carry"
  have "0 \<le> ?p" using Cons.prems by simp
  then have "multiplyByDigit_loop factor carry (v # vs) =
      ?p mod BASE # multiplyByDigit_loop factor (?p div BASE) vs"
    by (auto simp: Let_def)
  moreover have "0 \<le> ?p div BASE" using \<open>0 \<le> ?p\<close> by (simp add: pos_imp_zdiv_nonneg_iff)
  ultimately show ?case using Cons.IH[of "?p div BASE"] Cons.prems
    by (simp add: algebra_simps)
qed auto

lemma multiplyByDigit_loop_Nil: "vs \<noteq> [] \<Longrightarrow> multiplyByDigit_loop factor carry vs \<noteq> []"
  by (cases vs) (auto simp: Let_def)

lemma InfInt_sign_fix:
  "(InfInt_of_int n)\<lparr>pos := (if val (InfInt_of_int n) = [0] then True else p)\<rparr> =
   InfInt_of_int (if p then \<bar>n\<bar> else - \<bar>n\<bar>)"
  by (auto simp: InfInt_of_int_def)

lemma InfInt_mult_elem_val:
  assumes "wf_InfInt x"
  shows "InfInt_mult_elem x k = Inr (InfInt_of_int (InfInt_val x * k))"
proof -
  have "limbs_val (multiplyByDigit \<bar>k\<bar> (val x)) = \<bar>k\<bar> * limbs_val (val x)"
    using assms by (simp add: multiplyByDigit_def multiplyByDigit_loop_val wf_InfIntD)
  moreover have "multiplyByDigit \<bar>k\<bar> (val x) \<noteq> []"
    using assms multiplyByDigit_loop_Nil by (auto simp: multiplyByDigit_def)
  moreover have "0 \<le> limbs_val (val x)" using assms by (simp add: wf_InfIntD)
  moreover have "(if k < 0 then - k else k) = \<bar>k\<bar>" by simp
  ultimately show ?thesis
    by (auto simp: InfInt_mult_elem_def Let_def correct_normalises InfInt_sign_fix InfInt_val_def abs_mult
        mult.commute)
qed

lemma mult_step_nonneg:
  assumes "0 \<le> r" "0 \<le> as ! i" "0 \<le> bs ! (digit - i)"
  shows "mult_step as bs digit i (r, c) =
    ((r + as ! i * bs ! (digit - i)) mod BASE, c + (r + as ! i * bs ! (digit - i)) div BASE)"
  using assms by (auto simp: mult_step_def Let_def)

lemma mult_fold:
  assumes "\<And>i. i \<in> set is \<Longrightarrow> 0 \<le> as ! i \<and> 0 \<le> bs ! (digit - i)"
    and "0 \<le> r" "r < BASE" "0 \<le> c"
    and "fold (mult_step as bs digit) is (r, c) = (r', c')"
  shows "0 \<le> r' \<and> r' < BASE \<and> 0 \<le> c' \<and>
    r' + BASE * c' = r + BASE * c + (\<Sum>i\<leftarrow>is. as ! i * bs ! (digit - i))"
  using assms
proof (induction "is" arbitrary: r c)
  case (Cons i "is")
  let ?p = "r + as ! i * bs ! (digit - i)"
  have ij: "0 \<le> as ! i" "0 \<le> bs ! (digit - i)" using Cons.prems(1) by auto
  then have p: "0 \<le> ?p" "0 \<le> c + ?p div BASE"
    using Cons.prems by (auto simp: pos_imp_zdiv_nonneg_iff)
  have "fold (mult_step as bs digit) is (?p mod BASE, c + ?p div BASE) = (r', c')"
    using Cons.prems(5) mult_step_nonneg[OF Cons.prems(2) ij] by simp
  then have "0 \<le> r' \<and> r' < BASE \<and> 0 \<le> c' \<and>
    r' + BASE * c' = ?p mod BASE + BASE * (c + ?p div BASE) + (\<Sum>i\<leftarrow>is. as ! i * bs ! (digit - i))"
    using Cons.IH[of "?p mod BASE" "c + ?p div BASE"] Cons.prems(1) p by simp
  moreover have "?p mod BASE + BASE * (c + ?p div BASE) = ?p + BASE * c"
    by (simp add: algebra_simps)
  ultimately show ?case by simp
qed simp

definition conv :: "int list \<Rightarrow> int list \<Rightarrow> nat \<Rightarrow> int" where
  "conv as bs k = (\<Sum>i\<leftarrow>mult_range as bs k. as ! i * bs ! (k - i))"

lemma set_mult_range: "set (mult_range as bs k) = {i. i < length as \<and> i \<le> k \<and> k - i < length bs}"
  by (auto simp: mult_range_def)

lemma distinct_mult_range [simp]: "distinct (mult_range as bs k)"
  by (simp add: mult_range_def)

lemma mult_range_Nil_iff:
  "as \<noteq> [] \<Longrightarrow> bs \<noteq> [] \<Longrightarrow> mult_range as bs k = [] \<longleftrightarrow> length as + length bs \<le> k + 1"
  by (auto simp: mult_range_def) (auto simp flip: length_greater_0_conv)

lemma limbs_val_sum: "limbs_val vs = (\<Sum>i<length vs. vs ! i * BASE ^ i)"
proof (induction vs)
  case (Cons v vs)
  then show ?case
    by (simp add: sum.lessThan_Suc_shift sum_distrib_left mult.assoc mult.left_commute
        del: sum.lessThan_Suc)
qed simp

lemma conv_product:
  assumes "as \<noteq> []" "bs \<noteq> []"
  shows "(\<Sum>k < length as + length bs - 1. conv as bs k * BASE ^ k) = limbs_val as * limbs_val bs"
proof -
  let ?R = "\<lambda>k. {i. i < length as \<and> i \<le> k \<and> k - i < length bs}"
  have "limbs_val as * limbs_val bs =
      (\<Sum>(i, j) \<in> {..<length as} \<times> {..<length bs}. as ! i * bs ! j * BASE ^ (i + j))"
    by (simp add: limbs_val_sum sum_product sum.cartesian_product power_add algebra_simps)
  also have "\<dots> = (\<Sum>(k, i) \<in> (SIGMA k:{..<length as + length bs - 1}. ?R k). as ! i * bs ! (k - i) * BASE ^ k)"
    by (rule sum.reindex_bij_witness[of _ "\<lambda>(k, i). (i, k - i)" "\<lambda>(i, j). (i + j, i)"]) auto
  also have "\<dots> = (\<Sum>k < length as + length bs - 1. \<Sum>i \<in> ?R k. as ! i * bs ! (k - i) * BASE ^ k)"
    by (rule sum.Sigma[symmetric]) auto
  also have "\<dots> = (\<Sum>k < length as + length bs - 1. conv as bs k * BASE ^ k)"
    by (simp add: conv_def sum_list_distinct_conv_sum_set set_mult_range sum_distrib_right)
  finally show ?thesis by simp
qed

lemma limbs_val_snoc_carry:
  "length acc = d \<Longrightarrow>
   limbs_val (acc @ [r]) + BASE ^ (d + 1) * c = limbs_val acc + BASE ^ d * (r + BASE * c)"
  by (simp add: algebra_simps)

lemma mult_loop_correct:
  assumes "as \<noteq> []" "bs \<noteq> []" "digit_limbs as" "digit_limbs bs"
    and "digit < length as + length bs" "length acc = digit" "digit_limbs acc" "0 \<le> carry"
    and "limbs_val acc + BASE ^ digit * carry = (\<Sum>k<digit. conv as bs k * BASE ^ k)"
  shows "\<exists>c acc'. mult_loop as bs digit carry acc = (length as + length bs - 1, c, acc') \<and>
    length acc' = length as + length bs \<and> digit_limbs acc' \<and> 0 \<le> c \<and>
    limbs_val acc' + BASE ^ length acc' * c = limbs_val as * limbs_val bs"
  using assms
proof (induction as bs digit carry acc rule: mult_loop.induct)
  case (1 as bs digit carry acc)
  let ?range = "mult_range as bs digit"
  have carry: "carry mod BASE + BASE * (carry div BASE) = carry" "0 \<le> carry div BASE"
    using "1.prems" by (auto simp: pos_imp_zdiv_nonneg_iff)
  show ?case
  proof (cases "?range = []")
    case True
    then have d: "digit = length as + length bs - 1"
      using "1.prems" mult_range_Nil_iff[of as bs digit] by simp
    have "limbs_val (acc @ [carry mod BASE]) + BASE ^ (digit + 1) * (carry div BASE)
        = limbs_val acc + BASE ^ digit * (carry mod BASE + BASE * (carry div BASE))"
      using "1.prems"(6) by (rule limbs_val_snoc_carry)
    also have "\<dots> = limbs_val acc + BASE ^ digit * carry" by (simp only: carry)
    also have "\<dots> = limbs_val as * limbs_val bs"
      using "1.prems"(9) d conv_product[OF "1.prems"(1,2)] by (simp only:)
    finally have *: "limbs_val (acc @ [carry mod BASE]) + BASE ^ (digit + 1) * (carry div BASE) =
      limbs_val as * limbs_val bs" .
    have "mult_loop as bs digit carry acc = (digit, carry div BASE, acc @ [carry mod BASE])"
      using True "1.prems"(8) by (subst mult_loop.simps) simp
    moreover have "length (acc @ [carry mod BASE]) = digit + 1" "digit + 1 = length as + length bs"
      using d "1.prems" by auto
    ultimately show ?thesis using * d carry(2) "1.prems"(7) 
      by (intro exI[of _ "carry div BASE"] exI[of _ "acc @ [carry mod BASE]"]) auto
  next
    case False
    obtain r c where rc: "fold (mult_step as bs digit) ?range (carry mod BASE, carry div BASE) = (r, c)"
      by force
    have nn: "0 \<le> as ! i \<and> 0 \<le> bs ! (digit - i)" if "i \<in> set ?range" for i
      using that "1.prems"(3,4) by (auto simp: set_mult_range digit_limbs_def)
    have *: "0 \<le> r \<and> r < BASE \<and> 0 \<le> c \<and> r + BASE * c = carry + conv as bs digit"
      using mult_fold[OF nn _ _ _ rc] carry "1.prems" by (simp add: conv_def)
    have "digit + 1 < length as + length bs" using False mult_range_Nil_iff "1.prems" by simp
    moreover have "limbs_val (acc @ [r]) + BASE ^ (digit + 1) * c = (\<Sum>k<digit + 1. conv as bs k * BASE ^ k)"
      using * "1.prems"(9) unfolding limbs_val_snoc_carry[OF "1.prems"(6)] by (simp add: algebra_simps)
    moreover have "mult_loop as bs digit carry acc = mult_loop as bs (digit + 1) c (acc @ [r])"
      using False rc "1.prems"(8) by (subst mult_loop.simps) (simp add: Let_def)
    ultimately show ?thesis
      using "1.IH"[OF refl refl False refl] rc * "1.prems"(1-8) by simp
  qed
qed

text \<open>The carry left after the last limb is zero, so the second loop of \<open>operator*\<close> writes nothing.\<close>

lemma InfInt_mult_val:
  assumes "wf_InfInt x" "wf_InfInt y"
  shows "InfInt_mult x y = Inr (InfInt_of_int (InfInt_val x * InfInt_val y))"
proof -
  let ?a = "val x" and ?b = "val y"
  have d: "?a \<noteq> []" "?b \<noteq> []" "digit_limbs ?a" "digit_limbs ?b" using assms by (auto simp: wf_InfIntD)
  then obtain c acc where m: "mult_loop ?a ?b 0 0 [] = (length ?a + length ?b - 1, c, acc)"
    "length acc = length ?a + length ?b" "digit_limbs acc" "0 \<le> c"
    "limbs_val acc + BASE ^ length acc * c = limbs_val ?a * limbs_val ?b"
    using mult_loop_correct[of ?a ?b 0 "[]" 0] by auto
  have "limbs_val ?a * limbs_val ?b < BASE ^ length ?a * BASE ^ length ?b"
    using d limbs_val_less[of ?a] limbs_val_less[of ?b] by (intro mult_strict_mono) auto
  then have lt: "limbs_val acc + BASE ^ length acc * c < BASE ^ length acc"
    using m by (simp add: power_add)
  have "c = 0"
  proof (rule ccontr)
    assume "c \<noteq> 0"
    then have "BASE ^ length acc * 1 \<le> BASE ^ length acc * c" using m by (intro mult_left_mono) auto
    then show False using lt limbs_val_nonneg[OF m(3)] by linarith
  qed
  moreover have "0 \<le> limbs_val ?a" "0 \<le> limbs_val ?b" using d by auto
  moreover have "acc \<noteq> []" using m d by auto
  ultimately show ?thesis using m
    by (auto simp: InfInt_mult_def write_carry.simps[of 0] correct_normalises InfInt_sign_fix
        InfInt_val_def)
qed

lemma InfInt_shl_loop_val:
  "wf_InfInt x \<Longrightarrow> InfInt_shl_loop n (InfInt_of_int 2) x = Inr (InfInt_of_int (InfInt_val x * 2 ^ n))"
  by (induction n arbitrary: x) (simp_all add: InfInt_mult_val InfInt_of_int_val)

lemma InfInt_shl_val:
  "wf_InfInt x \<Longrightarrow> InfInt_shl x n = Inr (InfInt_of_int (InfInt_val x * 2 ^ nat n))"
  by (simp add: InfInt_shl_def InfInt_of_int64_val INT64_MIN_def INT64_MAX_def InfInt_shl_loop_val)

subsection \<open>Division\<close>

lemma dInR_loop_correct:
  assumes "mn \<le> mx" "0 < d" "int mn * d \<le> r" "r < (int mx + 1) * d"
  shows "dInR_loop (InfInt_of_int r) (InfInt_of_int d) mn mx = Inr (nat (r div d))"
  using assms
proof (induction "InfInt_of_int r" "InfInt_of_int d" mn mx rule: dInR_loop.induct)
  case (1 mn mx)
  show ?case
  proof (cases "mx > mn")
    case False
    then have "r div d = int mn" using "1.prems" by (intro int_div_pos_eq[of _ _ _ "r - int mn * d"])
        (auto simp: algebra_simps)
    then show ?thesis using False by (simp add: dInR_loop.simps)
  next
    case True
    define avg where "avg = (if (mx + mn) mod 2 \<noteq> 0 then (mx + mn) div 2 + 1 else (mx + mn) div 2)"
    have avg: "mn < avg" "avg \<le> mx" using True by (auto simp: avg_def)
    have unfold: "dInR_loop (InfInt_of_int r) (InfInt_of_int d) mn mx =
      (if r = d * int avg then Inr avg
       else if r > d * int avg then dInR_loop (InfInt_of_int r) (InfInt_of_int d) avg mx
       else dInR_loop (InfInt_of_int r) (InfInt_of_int d) mn (avg - 1))"
    proof -
      have "dInR_loop (InfInt_of_int r) (InfInt_of_int d) mn mx =
        (case InfInt_mult_elem (InfInt_of_int d) (int avg) of
           Inl e \<Rightarrow> Inl e
         | Inr prd \<Rightarrow>
             if InfInt_eq (InfInt_of_int r) prd then Inr avg
             else if InfInt_gt (InfInt_of_int r) prd then dInR_loop (InfInt_of_int r) (InfInt_of_int d) avg mx
             else dInR_loop (InfInt_of_int r) (InfInt_of_int d) mn (avg - 1))"
        by (subst dInR_loop.simps) (simp only: True if_True Let_def avg_def)
      then show ?thesis by (simp add: InfInt_mult_elem_val InfInt_eq_val InfInt_gt_val)
    qed
    consider "r = d * int avg" | "r > d * int avg" | "r < d * int avg" by linarith
    then show ?thesis
    proof cases
      case 1
      then show ?thesis unfolding unfold using "1.prems" by simp
    next
      case 2
      then show ?thesis unfolding unfold
        using "1.hyps"(1)[OF True avg_def, of "InfInt_of_int (d * int avg)"] "1.prems" avg
        by (simp add: InfInt_mult_elem_val InfInt_eq_val InfInt_gt_val algebra_simps)
    next
      case 3
      then show ?thesis unfolding unfold
        using "1.hyps"(2)[OF True avg_def, of "InfInt_of_int (d * int avg)"] "1.prems" avg
        by (simp add: InfInt_mult_elem_val InfInt_eq_val InfInt_gt_val algebra_simps of_nat_diff)
    qed
  qed
qed

text \<open>\<open>dInR\<close> finds the quotient limb, provided it fits one limb.\<close>

lemma dInR_correct:
  assumes "0 < d" "0 \<le> r" "r < BASE * d"
  shows "dInR (InfInt_of_int r) (InfInt_of_int d) = Inr (nat (r div d))"
  using dInR_loop_correct[of 0 "nat UPPER_BOUND" d r] assms by (simp add: dInR_def)

lemma InfInt_of_int_insert:
  assumes "0 \<le> r" "0 \<le> n" "n < BASE"
  shows "correct True b ((InfInt_of_int r)\<lparr>val := n # val (InfInt_of_int r)\<rparr>) = Inr (InfInt_of_int (n + BASE * r))"
  using assms wf_limbs_limbs_of[of r]
  by (auto simp: correct_leading_zeros InfInt_of_int_def wf_limbs_def)

lemma div_step_bound:
  fixes r d n :: int
  assumes "0 \<le> r" "r < d" "n < BASE"
  shows "n + BASE * r < BASE * d"
proof -
  have "BASE * (r + 1) \<le> BASE * d" using assms by (intro mult_left_mono) auto
  then show ?thesis using assms by (simp add: algebra_simps)
qed

lemma div_less_limb:
  fixes m d :: int
  assumes "0 < d" "m < BASE * d"
  shows "m div d < BASE"
proof (rule ccontr)
  assume "\<not> m div d < BASE"
  then have "BASE * d \<le> m div d * d" using assms by (intro mult_right_mono) auto
  also have "\<dots> \<le> m" 
    using pos_mod_sign[OF assms(1), of m] div_mult_mod_eq[of m d] by linarith
  finally show False using assms by simp
qed

lemma div_loop_correct:
  assumes "digit_limbs ns" "0 < d" "0 \<le> r" "r < d"
  shows "\<exists>qs. div_loop (rev ns) (InfInt_of_int d) (InfInt_of_int r) Q =
      Inr (InfInt_of_int ((limbs_val ns + BASE ^ length ns * r) mod d), qs @ Q) \<and>
    length qs = length ns \<and> digit_limbs qs \<and>
    limbs_val qs = (limbs_val ns + BASE ^ length ns * r) div d"
  using assms
proof (induction ns arbitrary: r Q rule: rev_induct)
  case (snoc n ns)
  let ?m = "n + BASE * r"
  let ?q = "?m div d" and ?r = "?m mod d"
  have n: "0 \<le> n" "n < BASE" and ns: "digit_limbs ns" using snoc.prems by auto
  have m: "0 \<le> ?m" "?m < BASE * d" using n snoc.prems div_step_bound[of r d n] by auto
  have q: "0 \<le> ?q" "?q < BASE"
    using m snoc.prems(2) div_less_limb[of d ?m] by (auto simp: pos_imp_zdiv_nonneg_iff)
  have "?m - d * ?q = ?r" by (simp add: minus_mult_div_eq_mod)
  then have step: "div_loop (rev (ns @ [n])) (InfInt_of_int d) (InfInt_of_int r) Q =
      div_loop (rev ns) (InfInt_of_int d) (InfInt_of_int ?r) (?q # Q)"
    using snoc.prems n m q
    by (simp add: InfInt_of_int_insert dInR_correct InfInt_mult_elem_val InfInt_sub_assign_val)
  obtain qs where qs: "div_loop (rev ns) (InfInt_of_int d) (InfInt_of_int ?r) (?q # Q) =
      Inr (InfInt_of_int ((limbs_val ns + BASE ^ length ns * ?r) mod d), qs @ ?q # Q)"
    "length qs = length ns" "digit_limbs qs" "limbs_val qs = (limbs_val ns + BASE ^ length ns * ?r) div d"
    using snoc.IH[OF ns, of ?r "?q # Q"] snoc.prems by auto
  have total: "limbs_val (ns @ [n]) + BASE ^ length (ns @ [n]) * r =
      limbs_val ns + BASE ^ length ns * ?r + BASE ^ length ns * ?q * d"
  proof -
    have "limbs_val (ns @ [n]) + BASE ^ length (ns @ [n]) * r = limbs_val ns + BASE ^ length ns * ?m"
      by (simp add: algebra_simps)
    also have "\<dots> = limbs_val ns + BASE ^ length ns * (?r + ?q * d)" by (simp only: mod_div_mult_eq)
    also have "\<dots> = limbs_val ns + BASE ^ length ns * ?r + BASE ^ length ns * ?q * d"
      by (simp only: distrib_left mult.assoc add.assoc)
    finally show ?thesis .
  qed
  have "(a + c * d) mod d = a mod d" "(a + c * d) div d = a div d + c" for a c
    using snoc.prems(2) by simp_all
  then show ?case unfolding step total qs(1)
    using qs q by (intro exI[of _ "qs @ [?q]"]) simp
qed simp

lemma InfInt_abs_of_int:
  "(if pos (InfInt_of_int n) then InfInt_of_int n else InfInt_neg (InfInt_of_int n)) = InfInt_of_int \<bar>n\<bar>"
  by (auto simp: InfInt_of_int_def InfInt_neg_def)

lemma sdiv_int_abs: "m sdiv n = (if (0 \<le> m) = (0 \<le> n) then \<bar>m\<bar> div \<bar>n\<bar> else - (\<bar>m\<bar> div \<bar>n\<bar>))" for m n :: int
  by (auto simp: signed_divide_int_def sgn_if)

lemma smod_int_abs: "m smod n = (if 0 \<le> m then \<bar>m\<bar> mod \<bar>n\<bar> else - (\<bar>m\<bar> mod \<bar>n\<bar>))" for m n :: int
  by (auto simp: signed_modulo_int_def sgn_if)

lemma div_loop_top:
  assumes "0 < d"
  obtains qs where
    "div_loop (rev (limbs_of \<bar>n\<bar>)) (InfInt_of_int d) InfInt_zero [] = Inr (InfInt_of_int (\<bar>n\<bar> mod d), qs)"
    "qs \<noteq> []" "limbs_val qs = \<bar>n\<bar> div d"
proof -
  have "digit_limbs (limbs_of \<bar>n\<bar>)" "0 < length (limbs_of \<bar>n\<bar>)"
    using wf_limbs_limbs_of[of "\<bar>n\<bar>"] by (auto simp: wf_limbs_def)
  then obtain qs where "div_loop (rev (limbs_of \<bar>n\<bar>)) (InfInt_of_int d) (InfInt_of_int 0) [] =
      Inr (InfInt_of_int (\<bar>n\<bar> mod d), qs)" "length qs = length (limbs_of \<bar>n\<bar>)" "limbs_val qs = \<bar>n\<bar> div d"
    using div_loop_correct[of "limbs_of \<bar>n\<bar>" d 0 "[]"] assms by auto
  then show thesis using that[of qs] \<open>0 < length (limbs_of \<bar>n\<bar>)\<close>
    by (metis InfInt_zero_of_int length_greater_0_conv)
qed

lemma InfInt_div_of_int:
  assumes "n \<noteq> 0"
  shows "InfInt_div (InfInt_of_int m) (InfInt_of_int n) = Inr (InfInt_of_int (m sdiv n))"
proof -
  obtain qs where qs: "div_loop (rev (limbs_of \<bar>m\<bar>)) (InfInt_of_int \<bar>n\<bar>) InfInt_zero [] =
      Inr (InfInt_of_int (\<bar>m\<bar> mod \<bar>n\<bar>), qs)" "qs \<noteq> []" "limbs_val qs = \<bar>m\<bar> div \<bar>n\<bar>"
    using div_loop_top[of "\<bar>n\<bar>" m] assms by auto
  have "val (InfInt_of_int \<bar>m\<bar>) = limbs_of \<bar>m\<bar>" by (simp add: InfInt_of_int_def)
  moreover have "0 \<le> \<bar>m\<bar> div \<bar>n\<bar>" using assms by (simp add: pos_imp_zdiv_nonneg_iff)
  moreover have "pos (InfInt_of_int k) = (0 \<le> k)" for k by (simp add: InfInt_of_int_def)
  ultimately show ?thesis unfolding InfInt_div_def Let_def InfInt_abs_of_int using qs assms
    by (simp add: correct_normalises InfInt_sign_fix sdiv_int_abs
        del: abs_div)
qed

lemma InfInt_mod_of_int:
  assumes "n \<noteq> 0"
  shows "InfInt_mod (InfInt_of_int m) (InfInt_of_int n) = Inr (InfInt_of_int (m smod n))"
proof -
  obtain qs where qs: "div_loop (rev (limbs_of \<bar>m\<bar>)) (InfInt_of_int \<bar>n\<bar>) InfInt_zero [] =
      Inr (InfInt_of_int (\<bar>m\<bar> mod \<bar>n\<bar>), qs)"
    using div_loop_top[of "\<bar>n\<bar>" m] assms by auto
  have v: "val (InfInt_of_int \<bar>m\<bar>) = limbs_of \<bar>m\<bar>" "limbs_val (val (InfInt_of_int k)) = \<bar>k\<bar>" for k
    by (simp_all add: InfInt_of_int_def)
  have "0 \<le> \<bar>m\<bar> mod \<bar>n\<bar>" using assms by simp
  moreover have "pos (InfInt_of_int k) = (0 \<le> k)" for k by (simp add: InfInt_of_int_def)
  ultimately show ?thesis unfolding InfInt_mod_def Let_def InfInt_abs_of_int using qs assms
    by (simp add: correct_normalises InfInt_sign_fix smod_int_abs v)
qed

end
