(* ===== verification/InfInt_Text.thy ===== *)
theory InfInt_Text
  imports InfInt_Arith
begin

section \<open>InfInt: machine integers and decimal text\<close>

text \<open>
  What the conversions of \<open>src/lib/InfInt.h\<close> compute on normal forms: truncation to 64 bits is
  reduction modulo \<open>2\<^sup>6\<^sup>4\<close>, printing and reading decimal text are inverse to each other.
\<close>

subsection \<open>Conversions to machine integers\<close>

lemma int64_loop_append: "int64_loop (us @ vs) r = int64_loop vs (int64_loop us r)"
  by (induction us arbitrary: r) simp_all

lemma int64_loop_val: "int64_loop (rev vs) 0 = word_of_int (limbs_val vs)"
  by (induction vs) (simp_all add: int64_loop_append algebra_simps)

lemma truncateToInt64_val: "truncateToInt64 x = signed_take_bit 63 (InfInt_val x)"
proof -
  have "truncateToInt64 x = sint (word_of_int (InfInt_val x) :: 64 word)"
    by (simp add: truncateToInt64_def int64_loop_val InfInt_val_def)
  then show ?thesis by (simp add: sint_sbintrunc')
qed

lemma signed_take_bit_int64: "INT64_MIN \<le> n \<Longrightarrow> n \<le> INT64_MAX \<Longrightarrow> signed_take_bit 63 n = n"
  by (rule signed_take_bit_int_eq_self) (simp_all add: INT64_MIN_def INT64_MAX_def)

lemma toInt64_val:
  assumes "wf_InfInt x"
  shows "toInt64 x = Inr (\<not> (INT64_MIN \<le> InfInt_val x \<and> InfInt_val x \<le> INT64_MAX),
    signed_take_bit 63 (InfInt_val x))"
proof -
  have "InfInt_of_int64 INT64_MAX = Inr (InfInt_of_int INT64_MAX)"
    "InfInt_of_int64 INT64_MIN = Inr (InfInt_of_int INT64_MIN)"
    by (auto intro!: InfInt_of_int64_val simp: INT64_MIN_def INT64_MAX_def)
  then show ?thesis
    using assms truncateToInt64_val[of x]
    by (auto simp: toInt64_def InfInt_gt_val InfInt_lt_val truncateToInt64_def)
qed

subsection \<open>Reading and printing\<close>

lemma is_digit_char [simp]: "d < 10 \<Longrightarrow> is_digit (digit_char d)"
  by (auto simp: is_digit_def digit_char_def of_char_of take_bit_nat_eq_self)

lemma char_digit_digit_char [simp]: "d < 10 \<Longrightarrow> char_digit (digit_char d) = d"
  by (auto simp: char_digit_def digit_char_def of_char_of take_bit_nat_eq_self)

lemma char_digit_bound: "is_digit c \<Longrightarrow> char_digit c < 10"
  by (auto simp: is_digit_def char_digit_def)

lemma is_digit_neq [simp]: "\<not> is_digit CHR ''-''" "\<not> is_digit CHR ''+''"
  by (simp_all add: is_digit_def)

lemma is_digit_not_space: "is_digit c \<Longrightarrow> \<not> is_space c"
  by (auto simp: is_digit_def is_space_def)

lemma dec_loop_append:
  "\<forall>c \<in> set s. is_digit c \<Longrightarrow> dec_loop acc (s @ t) = dec_loop (dec_loop acc s) t"
  by (induction s arbitrary: acc) auto

lemma dec_loop_acc:
  "\<forall>c \<in> set s. is_digit c \<Longrightarrow> dec_loop acc s = acc * 10 ^ length s + dec_loop 0 s"
proof (induction s arbitrary: acc)
  case (Cons c s)
  have "dec_loop a s = a * 10 ^ length s + dec_loop 0 s" for a using Cons.IH[of a] Cons.prems by simp
  from this[of "acc * 10 + char_digit c"] this[of "char_digit c"] show ?case
    using Cons.prems by (simp add: algebra_simps)
qed simp

lemma dec_loop_less: "\<forall>c \<in> set s. is_digit c \<Longrightarrow> dec_loop 0 s < 10 ^ length s"
proof (induction s)
  case (Cons c s)
  then have "char_digit c \<le> 9" "dec_loop 0 s < 10 ^ length s"
    using char_digit_bound[of c] by auto
  then have "char_digit c * 10 ^ length s + dec_loop 0 s < 9 * 10 ^ length s + 10 ^ length s"
    by (intro add_le_less_mono mult_right_mono) auto
  then show ?case using Cons.prems dec_loop_acc[of s "char_digit c"] by simp
qed simp

lemma atoi_digits: "\<forall>c \<in> set s. is_digit c \<Longrightarrow> atoi s = int (dec_loop 0 s)"
  by (cases s) (auto simp: atoi_def is_digit_not_space)

lemma atoi_minus: "atoi (CHR ''-'' # s) = - int (dec_loop 0 s)"
  by (simp add: atoi_def is_space_def)

lemma fromString_chunks_digits:
  assumes "\<forall>c \<in> set s. is_digit c"
  shows "\<exists>vs ss. fromString_chunks s = (vs, ss) \<and> length ss < 9 \<and> digit_limbs vs \<and>
    (\<exists>k. ss = take k s) \<and> (ss = [] \<longrightarrow> vs \<noteq> [] \<or> s = []) \<and>
    int (dec_loop 0 s) = limbs_val vs + BASE ^ length vs * int (dec_loop 0 ss)"
  using assms
proof (induction s rule: fromString_chunks.induct)
  case (1 s)
  show ?case
  proof (cases "length s \<ge> DIGIT_COUNT")
    case False
    then show ?thesis using 1 by (auto simp: fromString_chunks.simps[of s] intro!: exI[of _ "length s"])
  next
    case True
    define p where "p = take (length s - DIGIT_COUNT) s"
    define q where "q = drop (length s - DIGIT_COUNT) s"
    have s: "s = p @ q" "length q = 9" using True by (auto simp: p_def q_def)
    have dig: "\<forall>c \<in> set p. is_digit c" "\<forall>c \<in> set q. is_digit c" using 1(2) s by auto
    obtain vs ss k where IH: "fromString_chunks p = (vs, ss)" "length ss < 9" "digit_limbs vs"
      "ss = take k p" "int (dec_loop 0 p) = limbs_val vs + BASE ^ length vs * int (dec_loop 0 ss)"
      using 1(1)[OF True] dig unfolding p_def[symmetric] by metis
    have ch: "fromString_chunks s = (int (dec_loop 0 q) # vs, ss)"
      using True IH(1) dig(2)
      by (subst fromString_chunks.simps) (simp add: atoi_digits flip: p_def q_def)
    have "dec_loop 0 s = dec_loop 0 p * 10 ^ 9 + dec_loop 0 q"
      using dec_loop_append[OF dig(1), of 0 q] dec_loop_acc[OF dig(2), of "dec_loop 0 p"] s by simp
    moreover have "dec_loop 0 q < 10 ^ 9" using dec_loop_less[OF dig(2)] s by simp
    moreover have "ss = take (min k (length p)) s" using IH(4) s by (simp add: min_def)
    ultimately show ?thesis using ch IH(2,3,5) by (auto simp: algebra_simps)
  qed
qed

lemma digit_limbs_last: "vs \<noteq> [] \<Longrightarrow> digit_limbs vs \<Longrightarrow> 0 \<le> last vs"
  unfolding digit_limbs_def using last_in_set by blast

lemma wf_correct_leading:
  assumes "vs \<noteq> []" "digit_limbs vs"
  shows "correct True b \<lparr>val = vs, pos = True\<rparr> = Inr (InfInt_of_int (limbs_val vs))"
    and "0 < limbs_val vs \<Longrightarrow> correct True b \<lparr>val = vs, pos = False\<rparr> = Inr (InfInt_of_int (- limbs_val vs))"
  using assms by (simp_all add: correct_leading_zeros InfInt_of_int_def)

lemma fromString_digits_aux:
  assumes "s \<noteq> []" "\<forall>c \<in> set s. is_digit c" "fromString_chunks s = (vs, ss)"
  obtains us where "us = (if ss = [] then vs else vs @ [int (dec_loop 0 ss)])" "us \<noteq> []"
    "digit_limbs us" "limbs_val us = int (dec_loop 0 s)" "\<forall>c \<in> set ss. is_digit c" "length ss < 9"
    "ss \<noteq> [] \<Longrightarrow> hd ss = hd s"
proof -
  obtain k where k: "length ss < 9" "digit_limbs vs" "ss = take k s" "ss = [] \<longrightarrow> vs \<noteq> []"
    "int (dec_loop 0 s) = limbs_val vs + BASE ^ length vs * int (dec_loop 0 ss)"
    using fromString_chunks_digits[OF assms(2)] assms by auto
  have dig: "\<forall>c \<in> set ss. is_digit c" using k(3) assms(2) by (auto dest: in_set_takeD)
  have "dec_loop 0 ss < 10 ^ length ss" using dec_loop_less[OF dig] .
  also have "(10::nat) ^ length ss \<le> 10 ^ 8" using k(1) by (intro power_increasing) auto
  finally have "int (dec_loop 0 ss) < BASE" by simp
  then show thesis
    using that[OF refl] k dig by (cases "ss = []") (auto simp: hd_take)
qed

text \<open>An unsigned decimal numeral is read as its value.\<close>

lemma fromString_digits:
  assumes "s \<noteq> []" "\<forall>c \<in> set s. is_digit c"
  shows "fromString s = Inr (InfInt_of_int (int (dec_loop 0 s)))"
proof -
  obtain vs ss where ch: "fromString_chunks s = (vs, ss)" by force
  obtain us where us: "us = (if ss = [] then vs else vs @ [int (dec_loop 0 ss)])" "us \<noteq> []"
    "digit_limbs us" "limbs_val us = int (dec_loop 0 s)" "\<forall>c \<in> set ss. is_digit c"
    using fromString_digits_aux[OF assms ch] by metis
  have "ss \<noteq> ''-''" using us(5) by auto
  moreover have "\<not> last us < 0" using digit_limbs_last[OF us(2,3)] by simp
  ultimately have "fromString s = correct True False \<lparr>val = us, pos = True\<rparr>"
    using us(1,2) ch atoi_digits[OF us(5)] by (auto simp: fromString_def Let_def)
  then show ?thesis using wf_correct_leading(1)[OF us(2,3)] us(4) by simp
qed

lemma fromString_chunks_long:
  "DIGIT_COUNT \<le> length s \<Longrightarrow> fromString_chunks s =
    (atoi (drop (length s - DIGIT_COUNT) s) # fst (fromString_chunks (take (length s - DIGIT_COUNT) s)),
     snd (fromString_chunks (take (length s - DIGIT_COUNT) s)))"
  by (subst fromString_chunks.simps) (simp only: if_True Let_def)

lemma fromString_chunks_short: "length s < DIGIT_COUNT \<Longrightarrow> fromString_chunks s = ([], s)"
  by (simp add: fromString_chunks.simps)

lemma fromString_chunks_minus:
  assumes "fromString_chunks s = (vs, ss)"
  shows "fromString_chunks (CHR ''-'' # s) =
    (if length ss = 8 then (vs @ [atoi (CHR ''-'' # ss)], []) else (vs, CHR ''-'' # ss))"
  using assms
proof (induction s arbitrary: vs rule: fromString_chunks.induct)
  case (1 s)
  show ?case
  proof (cases "length s \<ge> DIGIT_COUNT")
    case True
    obtain vs' where vs': "fromString_chunks (take (length s - DIGIT_COUNT) s) = (vs', ss)"
      "vs = atoi (drop (length s - DIGIT_COUNT) s) # vs'"
      using 1(2) fromString_chunks_long[OF True] by (metis fst_conv prod.collapse snd_conv)
    have "Suc (length s) - DIGIT_COUNT = Suc (length s - DIGIT_COUNT)" using True by simp
    then show ?thesis using 1(1)[OF True vs'(1)] vs'(2) True
      by (simp add: fromString_chunks_long)
  next
    case False
    then have "vs = []" "ss = s" using 1(2) by (auto simp: fromString_chunks_short)
    then show ?thesis using False
      by (cases "length s = 8") (simp_all add: fromString_chunks_long fromString_chunks_short)
  qed
qed

text \<open>A minus sign and digits without a leading zero are read as the negated value.\<close>

lemma dec_loop_pos:
  assumes "s \<noteq> []" "\<forall>c \<in> set s. is_digit c" "hd s \<noteq> CHR ''0''"
  shows "0 < dec_loop 0 s"
proof (cases s)
  case (Cons c t)
  have "char_digit c \<noteq> 0"
  proof
    assume "char_digit c = 0"
    then have "(of_char c :: nat) = 48" using assms Cons by (auto simp: char_digit_def is_digit_def)
    moreover have "(of_char CHR ''0'' :: nat) = 48" by simp
    ultimately have "c = CHR ''0''" by (metis of_char_eq_iff)
    then show False using assms Cons by simp
  qed
  then show ?thesis using assms Cons dec_loop_acc[of t "char_digit c"] by simp
qed (use assms in simp)

lemma fromString_minus:
  assumes "s \<noteq> []" "\<forall>c \<in> set s. is_digit c" "hd s \<noteq> CHR ''0''"
  shows "fromString (CHR ''-'' # s) = Inr (InfInt_of_int (- int (dec_loop 0 s)))"
proof -
  obtain vs ss where ch: "fromString_chunks s = (vs, ss)" by force
  obtain us where us: "us = (if ss = [] then vs else vs @ [int (dec_loop 0 ss)])" "us \<noteq> []"
    "digit_limbs us" "limbs_val us = int (dec_loop 0 s)" "\<forall>c \<in> set ss. is_digit c" "length ss < 9"
    "ss \<noteq> [] \<Longrightarrow> hd ss = hd s"
    using fromString_digits_aux[OF assms(1,2) ch] by metis
  have "fromString (CHR ''-'' # s) = correct True False \<lparr>val = us, pos = False\<rparr>"
  proof (cases "ss = []")
    case True
    moreover have "\<not> last us < 0" using digit_limbs_last[OF us(2,3)] by simp
    ultimately show ?thesis using us(1,2) fromString_chunks_minus[OF ch]
      by (simp add: fromString_def Let_def)
  next
    case False
    then have "0 < dec_loop 0 ss" using dec_loop_pos[OF False us(5)] us(7) assms(3) by simp
    then show ?thesis using us(1,2) fromString_chunks_minus[OF ch] False
      by (auto simp: fromString_def Let_def atoi_minus)
  qed
  moreover have "0 < limbs_val us" using us(4) dec_loop_pos[OF assms] by simp
  ultimately show ?thesis using wf_correct_leading(2)[OF us(2,3)] us(4) by simp
qed

lemma show_nat_digits [simp]: "\<forall>c \<in> set (show_nat n). is_digit c"
proof (induction n rule: show_nat.induct)
  case (1 n)
  then show ?case by (simp add: show_nat.simps[of n])
qed

lemma show_nat_Nil [simp]: "show_nat n \<noteq> []"
  by (simp add: show_nat.simps[of n])

lemma dec_loop_show_nat [simp]: "dec_loop 0 (show_nat n) = n"
proof (induction n rule: show_nat.induct)
  case (1 n)
  show ?case
  proof (cases "n < 10")
    case False
    then show ?thesis using 1 dec_loop_append[of "show_nat (n div 10)" 0 "[digit_char (n mod 10)]"]
      by (simp add: show_nat.simps[of n])
  qed (simp add: show_nat.simps[of n])
qed

lemma digit_char_0: "d < 10 \<Longrightarrow> digit_char d = CHR ''0'' \<longleftrightarrow> d = 0"
proof -
  assume "d < 10"
  then have "(of_char (digit_char d) :: nat) = 48 + d" by (simp add: digit_char_def)
  moreover have "(of_char CHR ''0'' :: nat) = 48" by simp
  ultimately show ?thesis by (metis add_cancel_right_right of_char_eq_iff)
qed

lemma show_nat_hd: "0 < n \<Longrightarrow> hd (show_nat n) \<noteq> CHR ''0''"
proof (induction n rule: show_nat.induct)
  case (1 n)
  then show ?case by (cases "n < 10") (simp_all add: show_nat.simps[of n] digit_char_0)
qed

lemma length_show_nat: "n < 10 ^ k \<Longrightarrow> 0 < k \<Longrightarrow> length (show_nat n) \<le> k"
proof (induction n arbitrary: k rule: show_nat.induct)
  case (1 n)
  show ?case
  proof (cases "n < 10")
    case False
    then obtain k' where k: "k = Suc (Suc k')" using 1(2,3)
      by (cases k; cases "k - 1") auto
    then have "n div 10 < 10 ^ Suc k'" using 1(2) by (simp add: div_less_iff_less_mult)
    then show ?thesis using 1(1)[OF False, of "Suc k'"] False k by (simp add: show_nat.simps[of n])
  qed (use 1 in \<open>simp add: show_nat.simps[of n]\<close>)
qed

lemma show_limb_padded:
  assumes "0 \<le> v" "v < BASE"
  shows "length (show_limb_padded v) = 9" "\<forall>c \<in> set (show_limb_padded v). is_digit c"
    "dec_loop 0 (show_limb_padded v) = nat v"
proof -
  have "nat v < 10 ^ 9" using assms by simp
  then have "length (show_nat (nat v)) \<le> 9" by (rule length_show_nat) simp
  then show "length (show_limb_padded v) = 9" by (simp add: show_limb_padded_def Let_def)
  show "\<forall>c \<in> set (show_limb_padded v). is_digit c"
    using show_nat_digits[of "nat v"] by (auto simp: show_limb_padded_def Let_def)
  have z: "\<forall>c \<in> set (replicate k (digit_char 0)). is_digit c" for k by simp
  have "dec_loop 0 (replicate k (digit_char 0)) = 0" for k by (induction k) simp_all
  then show "dec_loop 0 (show_limb_padded v) = nat v"
    using dec_loop_append[OF z] by (simp add: show_limb_padded_def Let_def)
qed

lemma show_limbs_val:
  assumes "digit_limbs vs"
  shows "\<forall>c \<in> set (concat (map show_limb_padded (rev vs))). is_digit c"
    "int (dec_loop acc (concat (map show_limb_padded (rev vs)))) = int acc * BASE ^ length vs + limbs_val vs"
  using assms
proof (induction vs arbitrary: acc)
  case (Cons v vs)
  let ?s = "concat (map show_limb_padded (rev vs))"
  { case 1 then show ?case using Cons.IH(1) show_limb_padded[of v] by auto }
  { case 2
    have v: "0 \<le> v" "v < BASE" and d: "\<forall>c \<in> set ?s. is_digit c" using 2 Cons.IH(1) by auto
    have "dec_loop acc (?s @ show_limb_padded v) = dec_loop acc ?s * 10 ^ 9 + nat v"
      using dec_loop_append[OF d] dec_loop_acc[OF show_limb_padded(2)[OF v]] show_limb_padded[OF v] by simp
    then show ?case using Cons.IH(2)[of acc] 2 v by (simp add: algebra_simps) }
qed simp_all

definition InfInt_digits :: "int list \<Rightarrow> string" where
  "InfInt_digits vs = show_nat (nat (last vs)) @ concat (map show_limb_padded (rev (butlast vs)))"

lemma InfInt_digits:
  assumes "wf_limbs vs"
  shows "\<forall>c \<in> set (InfInt_digits vs). is_digit c" "InfInt_digits vs \<noteq> []"
    "int (dec_loop 0 (InfInt_digits vs)) = limbs_val vs"
    "vs \<noteq> [0] \<Longrightarrow> hd (InfInt_digits vs) \<noteq> CHR ''0''"
proof -
  have vs: "vs = butlast vs @ [last vs]" and dig: "digit_limbs (butlast vs)" "0 \<le> last vs"
    using assms digit_limbs_last[of vs] digit_limbs_simps(3)[of "butlast vs" "[last vs]"]
    by (auto simp: wf_limbs_def)
  show "\<forall>c \<in> set (InfInt_digits vs). is_digit c"
    using show_limbs_val(1)[OF dig(1)] by (auto simp: InfInt_digits_def)
  show "InfInt_digits vs \<noteq> []" by (simp add: InfInt_digits_def)
  have "int (dec_loop 0 (InfInt_digits vs)) = last vs * BASE ^ length (butlast vs) + limbs_val (butlast vs)"
    unfolding InfInt_digits_def dec_loop_append[OF show_nat_digits] dec_loop_show_nat
      show_limbs_val(2)[OF dig(1)] using dig(2) by simp
  also have "\<dots> = limbs_val (butlast vs @ [last vs])" by simp
  finally show "int (dec_loop 0 (InfInt_digits vs)) = limbs_val vs" using vs by simp
  show "hd (InfInt_digits vs) \<noteq> CHR ''0''" if "vs \<noteq> [0]"
  proof -
    have "last vs \<noteq> 0" using assms that by (cases vs) (auto simp: wf_limbs_def)
    then show ?thesis using show_nat_hd[of "nat (last vs)"] dig(2) by (simp add: InfInt_digits_def)
  qed
qed

lemma InfInt_toString_digits:
  "val x \<noteq> [] \<Longrightarrow> InfInt_toString x = (if pos x then '''' else ''-'') @ InfInt_digits (val x)"
  by (cases "val x" rule: rev_cases) (auto simp: InfInt_toString_def InfInt_digits_def)

subsection \<open>The interface the integer primitives use\<close>

text \<open>
  What \<open>VMBigInteger\<close> relies on: a representation of integers with exact operations. The lemmas
  below are proved once from these laws and used through the interpretation on \<open>InfInt\<close>.
\<close>

lemma smod_bound: "n \<noteq> 0 \<Longrightarrow> \<bar>m smod n\<bar> < \<bar>n\<bar>" for m n :: int
  by (simp add: smod_int_abs)

lemma smod_sign: "m smod n = 0 \<or> sgn (m smod n) = sgn m" for m n :: int
proof (cases "n = 0")
  case False
  then have "0 \<le> \<bar>m\<bar> mod \<bar>n\<bar>" by simp
  then show ?thesis by (cases "\<bar>m\<bar> mod \<bar>n\<bar> = 0") (auto simp: signed_modulo_int_def sgn_mult)
qed simp

locale exact_integers =
  fixes rep_ok :: "'n \<Rightarrow> bool" and denote :: "'n \<Rightarrow> int"
    and add sub mul quo rem :: "'n \<Rightarrow> 'n \<Rightarrow> 'n res"
    and less equal :: "'n \<Rightarrow> 'n \<Rightarrow> bool"
  assumes add_law: "rep_ok x \<Longrightarrow> rep_ok y \<Longrightarrow> \<exists>z. add x y = Inr z \<and> rep_ok z \<and> denote z = denote x + denote y"
    and sub_law: "rep_ok x \<Longrightarrow> rep_ok y \<Longrightarrow> \<exists>z. sub x y = Inr z \<and> rep_ok z \<and> denote z = denote x - denote y"
    and mul_law: "rep_ok x \<Longrightarrow> rep_ok y \<Longrightarrow> \<exists>z. mul x y = Inr z \<and> rep_ok z \<and> denote z = denote x * denote y"
    and quo_law: "rep_ok x \<Longrightarrow> rep_ok y \<Longrightarrow> denote y \<noteq> 0 \<Longrightarrow>
      \<exists>z. quo x y = Inr z \<and> rep_ok z \<and> denote z = denote x sdiv denote y"
    and rem_law: "rep_ok x \<Longrightarrow> rep_ok y \<Longrightarrow> denote y \<noteq> 0 \<Longrightarrow>
      \<exists>z. rem x y = Inr z \<and> rep_ok z \<and> denote z = denote x smod denote y"
    and less_law: "rep_ok x \<Longrightarrow> rep_ok y \<Longrightarrow> less x y \<longleftrightarrow> denote x < denote y"
    and equal_law: "rep_ok x \<Longrightarrow> rep_ok y \<Longrightarrow> equal x y \<longleftrightarrow> denote x = denote y"
begin

text \<open>Quotient and remainder fit together as truncating division does.\<close>

lemma quo_rem:
  assumes "rep_ok x" "rep_ok y" "denote y \<noteq> 0"
  shows "\<exists>q r. quo x y = Inr q \<and> rem x y = Inr r \<and> rep_ok q \<and> rep_ok r
    \<and> denote x = denote q * denote y + denote r \<and> \<bar>denote r\<bar> < \<bar>denote y\<bar>
    \<and> (denote r = 0 \<or> sgn (denote r) = sgn (denote x))"
proof -
  obtain q r where "quo x y = Inr q" "rep_ok q" "denote q = denote x sdiv denote y"
    "rem x y = Inr r" "rep_ok r" "denote r = denote x smod denote y"
    using quo_law rem_law assms by metis
  then show ?thesis
    using sdiv_mult_smod_eq[of "denote x" "denote y"] smod_bound[OF assms(3)] smod_sign by auto
qed

text \<open>Equal results of different computations compare as equal.\<close>

lemma add_sub_cancel:
  assumes "rep_ok x" "rep_ok y" "add x y = Inr s" "sub s y = Inr d"
  shows "equal d x \<and> \<not> less d x"
  using add_law[OF assms(1,2)] sub_law[of s y] equal_law[of d x] less_law[of d x] assms by auto

lemma mul_commutes:
  assumes "rep_ok x" "rep_ok y" "mul x y = Inr p" "mul y x = Inr q"
  shows "equal p q"
  using mul_law[OF assms(1,2)] mul_law[OF assms(2,1)] equal_law[of p q] assms by (auto simp: mult.commute)

end

lemma InfInt_div_val:
  "wf_InfInt x \<Longrightarrow> wf_InfInt y \<Longrightarrow> InfInt_val y \<noteq> 0 \<Longrightarrow>
   InfInt_div x y = Inr (InfInt_of_int (InfInt_val x sdiv InfInt_val y))"
  using InfInt_div_of_int[of "InfInt_val y" "InfInt_val x"] by (simp add: InfInt_of_int_val)

lemma InfInt_mod_val:
  "wf_InfInt x \<Longrightarrow> wf_InfInt y \<Longrightarrow> InfInt_val y \<noteq> 0 \<Longrightarrow>
   InfInt_mod x y = Inr (InfInt_of_int (InfInt_val x smod InfInt_val y))"
  using InfInt_mod_of_int[of "InfInt_val y" "InfInt_val x"] by (simp add: InfInt_of_int_val)

lemmas InfInt_exact =
  InfInt_add_val InfInt_sub_val InfInt_mult_val InfInt_div_val InfInt_mod_val

interpretation inf: exact_integers wf_InfInt InfInt_val InfInt_add InfInt_sub InfInt_mult
    InfInt_div InfInt_mod InfInt_lt InfInt_eq
  by unfold_locales (auto simp: InfInt_exact InfInt_lt_val InfInt_eq_val wf_InfIntD)

subsection \<open>Properties\<close>


text \<open>C14. Long division and remainder (\<open>operator/\<close>, \<open>operator%\<close>, \<open>dInR\<close>) by a non-zero number return
  normal forms of the truncated quotient and of the remainder, whose sign is that of the dividend.\<close>

theorem InfInt_division_exact:
  assumes "wf_InfInt x" "wf_InfInt y" "InfInt_val y \<noteq> 0"
  shows "\<exists>q r. InfInt_div x y = Inr q \<and> InfInt_mod x y = Inr r \<and> wf_InfInt q \<and> wf_InfInt r
    \<and> InfInt_val x = InfInt_val q * InfInt_val y + InfInt_val r
    \<and> \<bar>InfInt_val r\<bar> < \<bar>InfInt_val y\<bar>
    \<and> (InfInt_val r = 0 \<or> sgn (InfInt_val r) = sgn (InfInt_val x))"
  using inf.quo_rem[OF assms] .

text \<open>C25. Addition and subtraction, in both their forms, and increment and decrement return the
  normal form of the exact result: the borrow loop never runs past the most significant limb.\<close>

theorem InfInt_sums_exact:
  assumes "wf_InfInt x" "wf_InfInt y"
  shows "InfInt_add x y = Inr (InfInt_of_int (InfInt_val x + InfInt_val y))
    \<and> InfInt_sub x y = Inr (InfInt_of_int (InfInt_val x - InfInt_val y))
    \<and> InfInt_add_assign x y = Inr (InfInt_of_int (InfInt_val x + InfInt_val y))
    \<and> InfInt_sub_assign x y = Inr (InfInt_of_int (InfInt_val x - InfInt_val y))
    \<and> InfInt_inc x = Inr (InfInt_of_int (InfInt_val x + 1))
    \<and> InfInt_dec x = Inr (InfInt_of_int (InfInt_val x - 1))"
  using assms
  by (simp add: InfInt_exact InfInt_add_assign_val InfInt_sub_assign_val InfInt_inc_val InfInt_dec_val
      wf_InfIntD)

text \<open>C26. The comparison operators decide the order of the values.\<close>

theorem InfInt_order_exact:
  assumes "wf_InfInt x" "wf_InfInt y"
  shows "(InfInt_lt x y \<longleftrightarrow> InfInt_val x < InfInt_val y)
    \<and> (InfInt_le x y \<longleftrightarrow> InfInt_val x \<le> InfInt_val y)
    \<and> (InfInt_gt x y \<longleftrightarrow> InfInt_val x > InfInt_val y)
    \<and> (InfInt_ge x y \<longleftrightarrow> InfInt_val x \<ge> InfInt_val y)
    \<and> (InfInt_eq x y \<longleftrightarrow> InfInt_val x = InfInt_val y)
    \<and> (InfInt_neq x y \<longleftrightarrow> InfInt_val x \<noteq> InfInt_val y)"
  using assms InfInt_eq_val[OF assms]
  by (auto simp: InfInt_lt_val InfInt_le_val InfInt_gt_val InfInt_ge_val InfInt_neq_iff InfInt_eq_iff)

text \<open>C27. \<open>isWithinSmallIntRange\<close> accepts exactly the integers of the tagged range
  \<open>-2\<^sup>6\<^sup>2 .. 2\<^sup>6\<^sup>2 - 1\<close>, and for those \<open>truncateToInt64\<close> is the value.\<close>

theorem isWithinSmallIntRange_exact:
  assumes "wf_InfInt x"
  shows "(isWithinSmallIntRange x \<longleftrightarrow> - (2 ^ 62) \<le> InfInt_val x \<and> InfInt_val x \<le> 2 ^ 62 - 1)
    \<and> (isWithinSmallIntRange x \<longrightarrow> truncateToInt64 x = InfInt_val x)"
  using isWithinSmallIntRange_val[OF assms] signed_take_bit_int64[of "InfInt_val x"]
  by (auto simp: truncateToInt64_val INT64_MIN_def INT64_MAX_def)

text \<open>C20. Printing a number and reading the text gives the number back.\<close>

theorem fromString_toString:
  assumes "wf_InfInt x"
  shows "fromString (InfInt_toString x) = Inr x"
proof -
  have wf: "wf_limbs (val x)" and ne: "val x \<noteq> []" using assms by (auto simp: wf_InfInt_def wf_InfIntD)
  note d = InfInt_digits[OF wf]
  have "fromString (InfInt_toString x) = Inr (InfInt_of_int (InfInt_val x))"
  proof (cases "pos x")
    case True
    then show ?thesis using fromString_digits[OF d(2,1)] d(3) ne
      by (simp add: InfInt_toString_digits InfInt_val_def)
  next
    case False
    then have "val x \<noteq> [0]" using assms by (auto simp: wf_InfInt_def)
    then show ?thesis using fromString_minus[OF d(2,1,4)] d(3) ne False
      by (simp add: InfInt_toString_digits InfInt_val_def)
  qed
  then show ?thesis using InfInt_of_int_val[OF assms] by simp
qed

text \<open>C28. A non-empty string of decimal digits, leading zeros included, is read as its value.\<close>

theorem fromString_value:
  assumes "s \<noteq> []" "\<forall>c \<in> set s. is_digit c"
  shows "\<exists>x. fromString s = Inr x \<and> wf_InfInt x \<and> InfInt_val x = int (dec_loop 0 s)"
  using fromString_digits[OF assms] by simp


theorem InfInt_division_exact_witness:
  "\<exists>q r. InfInt_div \<lparr>val = [5, 0, 1], pos = False\<rparr> \<lparr>val = [999999999], pos = True\<rparr> = Inr q
    \<and> InfInt_mod \<lparr>val = [5, 0, 1], pos = False\<rparr> \<lparr>val = [999999999], pos = True\<rparr> = Inr r
    \<and> - 1000000000000000005 = InfInt_val q * 999999999 + InfInt_val r \<and> \<bar>InfInt_val r\<bar> < 999999999"
proof -
  let ?x = "\<lparr>val = [5, 0, 1], pos = False\<rparr>" and ?y = "\<lparr>val = [999999999], pos = True\<rparr>"
  have "wf_InfInt ?x" "wf_InfInt ?y" "InfInt_val ?x = - 1000000000000000005" "InfInt_val ?y = 999999999"
    by (simp_all add: wf_InfInt_def wf_limbs_def InfInt_val_def)
  then show ?thesis using InfInt_division_exact[of ?x ?y] by (auto simp del: InfInt.simps)
qed

theorem InfInt_sums_exact_witness:
  "InfInt_add \<lparr>val = [0, 1], pos = True\<rparr> \<lparr>val = [1], pos = False\<rparr> = Inr (InfInt_of_int 999999999)
    \<and> InfInt_inc \<lparr>val = [0, 1], pos = True\<rparr> = Inr (InfInt_of_int 1000000001)"
  using InfInt_sums_exact[of "\<lparr>val = [0, 1], pos = True\<rparr>" "\<lparr>val = [1], pos = False\<rparr>"]
  by (simp add: wf_InfInt_def wf_limbs_def InfInt_val_def)

theorem InfInt_order_exact_witness:
  "InfInt_lt \<lparr>val = [0, 2], pos = False\<rparr> \<lparr>val = [999999999, 1], pos = False\<rparr>
    \<and> \<not> InfInt_ge \<lparr>val = [0, 2], pos = False\<rparr> \<lparr>val = [999999999, 1], pos = False\<rparr>"
  using InfInt_order_exact[of "\<lparr>val = [0, 2], pos = False\<rparr>" "\<lparr>val = [999999999, 1], pos = False\<rparr>"]
  by (simp add: wf_InfInt_def wf_limbs_def InfInt_val_def)

theorem isWithinSmallIntRange_exact_witness:
  "isWithinSmallIntRange \<lparr>val = [427387904, 611686018, 4], pos = False\<rparr>
    \<and> truncateToInt64 \<lparr>val = [427387904, 611686018, 4], pos = False\<rparr> = - (2 ^ 62)"
  using isWithinSmallIntRange_exact[of "\<lparr>val = [427387904, 611686018, 4], pos = False\<rparr>"]
  by (simp add: wf_InfInt_def wf_limbs_def InfInt_val_def)

theorem fromString_toString_witness:
  "fromString (InfInt_toString \<lparr>val = [7, 12], pos = False\<rparr>) = Inr \<lparr>val = [7, 12], pos = False\<rparr>"
  using fromString_toString[of "\<lparr>val = [7, 12], pos = False\<rparr>"]
  by (simp add: wf_InfInt_def wf_limbs_def)

theorem fromString_value_witness:
  "\<exists>x. fromString ''0012345678901'' = Inr x \<and> wf_InfInt x \<and> InfInt_val x = 12345678901"
  using fromString_value[of "''0012345678901''"] by (simp add: is_digit_def char_digit_def)

end
