(* ===== verification/CodeObjects.thy ===== *)
theory CodeObjects
  imports Bytecodes
begin

section \<open>Signatures, variables, scopes and code objects\<close>

text \<open>
  The data the compiler works on: message signatures (\<open>src/vmobjects/Signature.cpp\<close>), variables with
  their source coordinate (\<open>src/compiler/Variable.h\<close>), lexical scopes (\<open>src/compiler/LexicalScope.h\<close>),
  literals and invokables (\<open>src/vmobjects/VMMethod.h\<close>, \<open>VMTrivialMethod.h\<close>) and the class generation
  context (\<open>src/compiler/ClassGenerationContext.cpp\<close>).

  Symbols are interned, so a symbol is its string. A block method and any other heap constant carries
  its address, because the literal vector is searched by pointer equality. Lexical scopes are shared
  and updated in place while blocks are inlined; they live in a store and are referred to by index.
\<close>

subsection \<open>Signatures\<close>

definition IsBinary :: "string \<Rightarrow> bool" where
  "IsBinary sig \<longleftrightarrow> sig \<noteq> [] \<and>
     hd sig \<in> {CHR ''~'', CHR ''&'', CHR ''|'', CHR ''*'', CHR ''/'', CHR ''@'', CHR ''+'', CHR ''-'',
                CHR ''='', CHR ''>'', CHR ''<'', CHR '','', CHR ''%'', CHR 0x5C}"

fun count_colons :: "string \<Rightarrow> nat" where
  "count_colons [] = 0"
| "count_colons (c # cs) = (if c = CHR '':'' then count_colons cs + 1 else count_colons cs)"

definition DetermineNumberOfArguments :: "string \<Rightarrow> byte" where
  "DetermineNumberOfArguments sig =
     (if IsBinary sig then 2 else of_nat (count_colons sig + 1))"

abbreviation GetNumberOfArguments :: "string \<Rightarrow> byte" where
  "GetNumberOfArguments sig \<equiv> DetermineNumberOfArguments sig"

subsection \<open>Variables and scopes\<close>

record SourceCoordinate =
  line :: nat
  column :: nat

record Variable =
  vname :: string
  vindex :: byte
  visArgument :: bool
  vcoord :: SourceCoordinate

definition strBlockSelf :: string where
  "strBlockSelf = ''$blockSelf''"

definition MakeVariable :: "string \<Rightarrow> nat \<Rightarrow> bool \<Rightarrow> SourceCoordinate \<Rightarrow> Variable" where
  "MakeVariable n index isArgument coord =
     \<lparr>vname = n, vindex = of_nat index, visArgument = isArgument, vcoord = coord\<rparr>"

definition InvalidVariable :: Variable where
  "InvalidVariable = \<lparr>vname = '''', vindex = 255, visArgument = False, vcoord = \<lparr>line = 0, column = 0\<rparr>\<rparr>"

definition IsNamed :: "Variable \<Rightarrow> string \<Rightarrow> bool" where
  "IsNamed v n \<longleftrightarrow> vname v = n"

definition IsSame :: "Variable \<Rightarrow> Variable \<Rightarrow> bool" where
  "IsSame v w \<longleftrightarrow> line (vcoord v) = line (vcoord w) \<and> column (vcoord v) = column (vcoord w)"

definition IsValid :: "Variable \<Rightarrow> bool" where
  "IsValid v \<longleftrightarrow> vindex v \<noteq> 255"

definition CopyForInlining :: "Variable \<Rightarrow> nat \<Rightarrow> Variable" where
  "CopyForInlining v newIndex =
     (if visArgument v \<and> vname v = strBlockSelf then InvalidVariable
      else v\<lparr>vindex := of_nat newIndex, visArgument := False\<rparr>)"

record LexicalScope =
  ls_outer :: "nat option"
  ls_arguments :: "Variable list"
  ls_locals :: "Variable list"

type_synonym scopes = "LexicalScope list"

definition scope_at :: "scopes \<Rightarrow> nat \<Rightarrow> LexicalScope res" where
  "scope_at scs s = (if s < length scs then Inr (scs ! s) else Inl (Undefined ''scope''))"

fun GetArgument :: "scopes \<Rightarrow> nat option \<Rightarrow> nat \<Rightarrow> nat \<Rightarrow> Variable res" where
  "GetArgument scs None index ctx = Inl (Undefined ''outer->GetArgument'')"
| "GetArgument scs (Some s) index 0 =
     res_bind (scope_at scs s) (\<lambda>sc.
       if index < length (ls_arguments sc) then Inr (ls_arguments sc ! index)
       else Inl (ErrorExit ''vector::at''))"
| "GetArgument scs (Some s) index (Suc ctx) =
     res_bind (scope_at scs s) (\<lambda>sc. GetArgument scs (ls_outer sc) index ctx)"

fun GetLocal :: "scopes \<Rightarrow> nat option \<Rightarrow> nat \<Rightarrow> nat \<Rightarrow> Variable res" where
  "GetLocal scs None index ctx = Inl (Undefined ''outer->GetLocal'')"
| "GetLocal scs (Some s) index 0 =
     res_bind (scope_at scs s) (\<lambda>sc.
       if index < length (ls_locals sc) then Inr (ls_locals sc ! index)
       else Inl (ErrorExit ''vector::at''))"
| "GetLocal scs (Some s) index (Suc ctx) =
     res_bind (scope_at scs s) (\<lambda>sc. GetLocal scs (ls_outer sc) index ctx)"

definition AddInlinedLocal :: "scopes \<Rightarrow> nat \<Rightarrow> Variable \<Rightarrow> scopes" where
  "AddInlinedLocal scs s v = scs[s := (scs ! s)\<lparr>ls_locals := ls_locals (scs ! s) @ [v]\<rparr>]"

definition DropInlinedScope :: "scopes \<Rightarrow> nat \<Rightarrow> scopes res" where
  "DropInlinedScope scs s =
     res_bind (scope_at scs s) (\<lambda>sc.
       case ls_outer sc of
         None \<Rightarrow> Inl (AssertFailed ''outer != nullptr'')
       | Some out \<Rightarrow> res_bind (scope_at scs out) (\<lambda>osc.
           case ls_outer osc of
             None \<Rightarrow> Inl (AssertFailed ''outer->outer != nullptr'')
           | Some newOuter \<Rightarrow> Inr (scs[s := sc\<lparr>ls_outer := Some newOuter\<rparr>])))"

subsection \<open>Literals and invokables\<close>

text \<open>Addresses stand for object identity: \<open>LBlock\<close> and \<open>LObj\<close> with different addresses are
  different objects.\<close>

datatype literal =
    LInt int
  | LSym string
  | LNil
  | LTrue
  | LFalse
  | LObj nat
  | LBlock nat invokable
and invokable =
    VMMethod string "byte list" "literal list" nat u64 "nat option" "(nat \<times> nat) list"
  | VMLiteralReturn string "Variable list" literal
  | VMGlobalReturn string "Variable list" string
  | VMGetter string "Variable list" nat
  | VMSetter string "Variable list" nat nat
  | VMPrimitive string bool

subsection \<open>Class generation context\<close>

record ClassGenerationContext =
  cname :: string
  superName :: string
  classSide :: bool
  instanceFields :: "string list"
  instanceMethods :: "invokable list"
  classFields :: "string list"
  classMethods :: "invokable list"

fun IndexOf_from :: "int \<Rightarrow> 'a list \<Rightarrow> 'a \<Rightarrow> int" where
  "IndexOf_from i [] e = -1"
| "IndexOf_from i (x # xs) e = (if x = e then i else IndexOf_from (i + 1) xs e)"

definition IndexOf :: "'a list \<Rightarrow> 'a \<Rightarrow> int" where
  "IndexOf xs e = IndexOf_from 0 xs e"

definition Contains :: "'a list \<Rightarrow> 'a \<Rightarrow> bool" where
  "Contains xs e \<longleftrightarrow> e \<in> set xs"

definition AddClassField :: "string \<Rightarrow> ClassGenerationContext \<Rightarrow> ClassGenerationContext" where
  "AddClassField field c = c\<lparr>classFields := classFields c @ [field]\<rparr>"

definition AddInstanceField :: "string \<Rightarrow> ClassGenerationContext \<Rightarrow> ClassGenerationContext" where
  "AddInstanceField field c = c\<lparr>instanceFields := instanceFields c @ [field]\<rparr>"

fun SetInstanceFieldsOfSuper :: "string list \<Rightarrow> ClassGenerationContext \<Rightarrow> ClassGenerationContext" where
  "SetInstanceFieldsOfSuper [] c = c"
| "SetInstanceFieldsOfSuper (f # fs) c =
     SetInstanceFieldsOfSuper fs (c\<lparr>instanceFields := instanceFields c @ [f]\<rparr>)"

fun SetClassFieldsOfSuper :: "string list \<Rightarrow> ClassGenerationContext \<Rightarrow> ClassGenerationContext" where
  "SetClassFieldsOfSuper [] c = c"
| "SetClassFieldsOfSuper (f # fs) c =
     SetClassFieldsOfSuper fs (c\<lparr>classFields := classFields c @ [f]\<rparr>)"

definition cgenc_HasField :: "string \<Rightarrow> ClassGenerationContext \<Rightarrow> bool" where
  "cgenc_HasField field c =
     (if classSide c then Contains (classFields c) field else Contains (instanceFields c) field)"

definition cgenc_GetFieldIndex :: "string \<Rightarrow> ClassGenerationContext \<Rightarrow> int" where
  "cgenc_GetFieldIndex field c =
     (if classSide c then IndexOf (classFields c) field else IndexOf (instanceFields c) field)"

definition AddInstanceMethod :: "invokable \<Rightarrow> ClassGenerationContext \<Rightarrow> ClassGenerationContext" where
  "AddInstanceMethod m c = c\<lparr>instanceMethods := instanceMethods c @ [m]\<rparr>"

definition AddClassMethod :: "invokable \<Rightarrow> ClassGenerationContext \<Rightarrow> ClassGenerationContext" where
  "AddClassMethod m c = c\<lparr>classMethods := classMethods c @ [m]\<rparr>"

subsection \<open>Lemmas\<close>

lemma IndexOf_from_cases:
  "IndexOf_from i xs e = -1 \<and> e \<notin> set xs \<or>
   (\<exists>k < length xs. IndexOf_from i xs e = i + int k \<and> xs ! k = e \<and> e \<notin> set (take k xs))"
  if "0 \<le> i"
  using that
proof (induction i xs e rule: IndexOf_from.induct)
  case (2 i x xs e)
  show ?case
  proof (cases "x = e")
    case False
    with 2 consider "IndexOf_from (i + 1) xs e = -1" "e \<notin> set xs"
      | k where "k < length xs" "IndexOf_from (i + 1) xs e = i + 1 + int k" "xs ! k = e" "e \<notin> set (take k xs)"
      by auto
    then show ?thesis
    proof cases
      case (2 k)
      then show ?thesis using False by (intro disjI2 exI[of _ "Suc k"]) auto
    qed (use False in auto)
  qed auto
qed simp

lemma IndexOf_found: "0 \<le> IndexOf xs e \<Longrightarrow> nat (IndexOf xs e) < length xs \<and> xs ! nat (IndexOf xs e) = e"
  using IndexOf_from_cases[of 0 xs e] by (auto simp: IndexOf_def)

lemma IndexOf_absent: "IndexOf xs e = -1 \<longleftrightarrow> e \<notin> set xs"
  using IndexOf_from_cases[of 0 xs e] by (auto simp: IndexOf_def)

lemma IndexOf_ge: "-1 \<le> IndexOf xs e" and IndexOf_less: "IndexOf xs e < int (length xs)"
  using IndexOf_from_cases[of 0 xs e] by (auto simp: IndexOf_def)

lemma IndexOf_first: "0 \<le> IndexOf xs e \<Longrightarrow> j < nat (IndexOf xs e) \<Longrightarrow> xs ! j \<noteq> e"
  using IndexOf_from_cases[of 0 xs e] by (auto simp: IndexOf_def in_set_conv_nth)

end
