(* ===== verification/Murmur3.thy ===== *)
theory Murmur3
  imports Prelude
begin

section \<open>Murmur3 hash of bytecodes\<close>

text \<open>
  \<open>src/misc/Murmur3Hash.cpp\<close>, on 32-bit words with wrap-around. The interpreter compares this hash of a
  method's bytecodes with the one a primitive was written for before it replaces the method.
\<close>

unbundle bit_operations_syntax

definition murmur_32_scramble :: "u32 \<Rightarrow> u32" where
  "murmur_32_scramble k =
     (let k1 = k * 0xcc9e2d51;
          k2 = push_bit 15 k1 OR drop_bit 17 k1
      in k2 * 0x1b873593)"

text \<open>\<open>memcpy\<close> of four bytes into a \<open>uint32_t\<close> on a little-endian machine.\<close>

fun le_word :: "byte list \<Rightarrow> u32" where
  "le_word [] = 0"
| "le_word (b # bs) = ucast b OR push_bit 8 (le_word bs)"

fun murmur_blocks :: "byte list \<Rightarrow> u32 \<Rightarrow> u32 \<times> byte list" where
  "murmur_blocks (a # b # c # d # key) h =
     (let h1 = h XOR murmur_32_scramble (le_word [a, b, c, d]);
          h2 = push_bit 13 h1 OR drop_bit 19 h1
      in murmur_blocks key (h2 * 5 + 0xe6546b64))"
| "murmur_blocks key h = (h, key)"

text \<open>The remaining bytes, from the last one down.\<close>

fun murmur_tail :: "byte list \<Rightarrow> u32 \<Rightarrow> u32" where
  "murmur_tail [] k = k"
| "murmur_tail (b # bs) k = murmur_tail bs (push_bit 8 k OR ucast b)"

definition murmur3_32 :: "byte list \<Rightarrow> u32 \<Rightarrow> u32" where
  "murmur3_32 key seed =
     (case murmur_blocks key seed of (h, rest) \<Rightarrow>
        let h1 = h XOR murmur_32_scramble (murmur_tail (rev rest) 0);
            h2 = h1 XOR of_nat (length key);
            h3 = (h2 XOR drop_bit 16 h2) * 0x85ebca6b;
            h4 = (h3 XOR drop_bit 13 h3) * 0xc2b2ae35
        in h4 XOR drop_bit 16 h4)"

lemma murmur_blocks_rest: "length (snd (murmur_blocks key h)) = length key mod 4"
proof (induction key h rule: murmur_blocks.induct)
  case (1 a b c d key h)
  then show ?case by (simp add: Let_def)
qed auto

end
