(* ===== verification/Objects.thy ===== *)
theory Objects
  imports CodeObjects InfInt Murmur3
begin

section \<open>Run-time objects, classes and method lookup\<close>

text \<open>
  The object memory of the virtual machine (\<open>src/vmobjects\<close>). An object pointer is a tagged integer or
  an address; \<open>VMObj\<close> is the common layout of \<open>VMObject\<close>, \<open>VMClass\<close> and \<open>VMBlock\<close>: a class and the fields
  that follow it, which for a class are its superclass, name, instance fields and invokables, and
  for a block its method and its context. Lookup of a method goes through the inline cache that
  every symbol carries (\<open>VMSymbol::GetCachedInvokable\<close>). Following superclass pointers is bounded by
  fuel, which the acyclic hierarchies of the theorems never exhaust.
\<close>

type_synonym addr = nat

datatype oop = SmallInt int | Ptr addr

record vmmethod =
  m_signature :: string
  m_holder :: oop
  m_nargs :: byte
  m_nlocals :: nat
  m_maxstack :: nat
  m_bytecodes :: "byte list"
  m_literals :: "oop list"

datatype vminvokable =
    RMethod vmmethod
  | RLiteralReturn string oop byte oop
  | RGlobalReturn string oop byte oop
  | RGetter string oop byte nat
  | RSetter string oop byte nat nat
  | RPrimitive string oop nat nat  \<comment> \<open>number of operands (0 for a frame primitive) and routine\<close>
  | REvaluation string oop byte

text \<open>Arguments and locals of a frame, and its operand stack with the top first. The frame object has room
  for \<open>f_capacity\<close> stack elements.\<close>

record vmframe =
  f_previous :: "addr option"
  f_context :: "addr option"
  f_method :: addr
  f_args :: "oop list"
  f_locals :: "oop list"
  f_stack :: "oop list"
  f_capacity :: nat
  f_bytecodeIndex :: nat

datatype hobj =
    VMObj addr "oop list"
  | VMArr "oop list"
  | VMSym string
  | VMStr string
  | VMInt int
  | VMDbl u64
  | VMBig InfInt
  | VMInvok vminvokable
  | VMFrm vmframe

text \<open>The three cached pairs of a symbol and the next position to fill.\<close>

record symcache =
  cachedClass :: "addr option list"
  cachedInvokable :: "addr option list"
  nextCachePos :: nat

definition empty_symcache :: symcache where
  "empty_symcache = \<lparr>cachedClass = [None, None, None], cachedInvokable = [None, None, None], nextCachePos = 0\<rparr>"

record vmstate =
  heap :: "addr \<Rightarrow> hobj option"
  hp :: addr
  symcaches :: "string \<Rightarrow> symcache"
  globals :: "string \<Rightarrow> oop option"
  cur_frame :: addr
  pc :: nat

text \<open>The well-known objects and classes. The integer box is the one object that stands for every tagged
  integer where the code needs an object (\<open>AS_OBJ\<close>).\<close>

definition nilObject :: oop where "nilObject = Ptr 0"
definition trueObject :: oop where "trueObject = Ptr 1"
definition falseObject :: oop where "falseObject = Ptr 2"
definition integerBox :: addr where "integerBox = 3"
definition integerClass :: addr where "integerClass = 10"
definition doubleClass :: addr where "doubleClass = 11"
definition arrayClass :: addr where "arrayClass = 12"
definition symbolClass :: addr where "symbolClass = 13"
definition stringClass :: addr where "stringClass = 14"
definition methodClass :: addr where "methodClass = 15"
definition primitiveClass :: addr where "primitiveClass = 16"
definition blockClass :: "byte \<Rightarrow> addr" where "blockClass n = 20 + unat n"

definition heap_at :: "vmstate \<Rightarrow> addr \<Rightarrow> hobj res" where
  "heap_at s a = (case heap s a of Some ob \<Rightarrow> Inr ob | None \<Rightarrow> Inl (Undefined ''dangling pointer''))"

definition set_heap :: "addr \<Rightarrow> hobj \<Rightarrow> vmstate \<Rightarrow> vmstate" where
  "set_heap a ob s = s\<lparr>heap := (heap s)(a \<mapsto> ob)\<rparr>"

definition allocate :: "hobj \<Rightarrow> vmstate \<Rightarrow> addr \<times> vmstate" where
  "allocate ob s = (hp s, s\<lparr>heap := (heap s)(hp s \<mapsto> ob), hp := hp s + 1\<rparr>)"

definition IS_TAGGED :: "oop \<Rightarrow> bool" where
  "IS_TAGGED v = (case v of SmallInt _ \<Rightarrow> True | Ptr _ \<Rightarrow> False)"

definition AS_OBJ :: "oop \<Rightarrow> addr" where
  "AS_OBJ v = (case v of SmallInt _ \<Rightarrow> integerBox | Ptr a \<Rightarrow> a)"

definition VMTAGGEDINTEGER_MAX :: int where "VMTAGGEDINTEGER_MAX = 2 ^ 62 - 1"
definition VMTAGGEDINTEGER_MIN :: int where "VMTAGGEDINTEGER_MIN = - (2 ^ 62)"

text \<open>\<open>NEW_INT\<close> tags what fits 63 bits and allocates a big integer for the rest.\<close>

definition NEW_INT :: "int \<Rightarrow> vmstate \<Rightarrow> (oop \<times> vmstate) res" where
  "NEW_INT x s =
     (if VMTAGGEDINTEGER_MIN \<le> x \<and> x \<le> VMTAGGEDINTEGER_MAX then Inr (SmallInt x, s)
      else res_bind (InfInt_of_int64 x) (\<lambda>big. case allocate (VMBig big) s of (a, s1) \<Rightarrow> Inr (Ptr a, s1)))"

fun CLASS_OF :: "vmstate \<Rightarrow> oop \<Rightarrow> addr res" where
  "CLASS_OF s (SmallInt _) = Inr integerClass"
| "CLASS_OF s (Ptr a) =
     res_bind (heap_at s a) (\<lambda>ob.
       case ob of
         VMObj c _ \<Rightarrow> Inr c
       | VMArr _ \<Rightarrow> Inr arrayClass
       | VMSym _ \<Rightarrow> Inr symbolClass
       | VMStr _ \<Rightarrow> Inr stringClass
       | VMDbl _ \<Rightarrow> Inr doubleClass
       | VMInt _ \<Rightarrow> Inr integerClass
       | VMBig _ \<Rightarrow> Inr integerClass
       | VMInvok (RPrimitive _ _ _ _) \<Rightarrow> Inr primitiveClass
       | VMInvok (REvaluation _ _ _) \<Rightarrow> Inr primitiveClass
       | VMInvok _ \<Rightarrow> Inr methodClass
       | VMFrm _ \<Rightarrow> Inl (Undefined ''a frame has no class''))"

subsection \<open>Fields\<close>

definition GetField :: "vmstate \<Rightarrow> addr \<Rightarrow> nat \<Rightarrow> oop res" where
  "GetField s a index =
     res_bind (heap_at s a) (\<lambda>ob.
       case ob of
         VMObj c fs \<Rightarrow>
           if index < length fs then Inr (fs ! index) else Inl (Undefined ''FIELDS[index]'')
       | _ \<Rightarrow> Inl (Undefined ''not a VMObject''))"

definition SetField :: "addr \<Rightarrow> nat \<Rightarrow> oop \<Rightarrow> vmstate \<Rightarrow> vmstate res" where
  "SetField a index v s =
     res_bind (heap_at s a) (\<lambda>ob.
       case ob of
         VMObj c fs \<Rightarrow>
           if index < length fs then Inr (set_heap a (VMObj c (fs[index := v])) s)
           else Inl (Undefined ''FIELDS[index]'')
       | _ \<Rightarrow> Inl (Undefined ''not a VMObject''))"

subsection \<open>Invokables\<close>

fun inv_signature :: "vminvokable \<Rightarrow> string" where
  "inv_signature (RMethod m) = m_signature m"
| "inv_signature (RLiteralReturn sig _ _ _) = sig"
| "inv_signature (RGlobalReturn sig _ _ _) = sig"
| "inv_signature (RGetter sig _ _ _) = sig"
| "inv_signature (RSetter sig _ _ _ _) = sig"
| "inv_signature (RPrimitive sig _ _ _) = sig"
| "inv_signature (REvaluation sig _ _) = sig"

fun inv_nargs :: "vminvokable \<Rightarrow> byte" where
  "inv_nargs (RMethod m) = m_nargs m"
| "inv_nargs (RLiteralReturn sig _ _ _) = GetNumberOfArguments sig"
| "inv_nargs (RGlobalReturn sig _ _ _) = GetNumberOfArguments sig"
| "inv_nargs (RGetter sig _ _ _) = GetNumberOfArguments sig"
| "inv_nargs (RSetter sig _ _ _ _) = GetNumberOfArguments sig"
| "inv_nargs (RPrimitive sig _ _ _) = GetNumberOfArguments sig"
| "inv_nargs (REvaluation _ _ n) = n"

fun inv_holder :: "vminvokable \<Rightarrow> oop" where
  "inv_holder (RMethod m) = m_holder m"
| "inv_holder (RLiteralReturn _ h _ _) = h"
| "inv_holder (RGlobalReturn _ h _ _) = h"
| "inv_holder (RGetter _ h _ _) = h"
| "inv_holder (RSetter _ h _ _ _) = h"
| "inv_holder (RPrimitive _ h _ _) = h"
| "inv_holder (REvaluation _ h _) = h"

definition invokable_at :: "vmstate \<Rightarrow> oop \<Rightarrow> vminvokable res" where
  "invokable_at s v =
     (case v of
        SmallInt _ \<Rightarrow> Inl (Undefined ''not an invokable'')
      | Ptr a \<Rightarrow> res_bind (heap_at s a) (\<lambda>ob.
          case ob of VMInvok i \<Rightarrow> Inr i | _ \<Rightarrow> Inl (Undefined ''not an invokable'')))"

subsection \<open>Classes\<close>

abbreviation SUPERCLASS :: nat where "SUPERCLASS \<equiv> 0"
abbreviation CLASSNAME :: nat where "CLASSNAME \<equiv> 1"
abbreviation INSTANCEFIELDS :: nat where "INSTANCEFIELDS \<equiv> 2"
abbreviation INSTANCEINVOKABLES :: nat where "INSTANCEINVOKABLES \<equiv> 3"

definition array_at :: "vmstate \<Rightarrow> oop \<Rightarrow> oop list res" where
  "array_at s v =
     (case v of
        SmallInt _ \<Rightarrow> Inl (Undefined ''not an array'')
      | Ptr a \<Rightarrow> res_bind (heap_at s a) (\<lambda>ob.
          case ob of VMArr xs \<Rightarrow> Inr xs | _ \<Rightarrow> Inl (Undefined ''not an array'')))"

text \<open>The bounds check of an array lets the index one past its end through; the access there is not checked.\<close>

definition GetIndexableField :: "vmstate \<Rightarrow> oop \<Rightarrow> nat \<Rightarrow> oop res" where
  "GetIndexableField s v idx =
     res_bind (array_at s v) (\<lambda>xs.
       if idx > length xs then Inl (ErrorExit ''Array index out of bounds'')
       else if idx < length xs then Inr (xs ! idx) else Inl (Undefined ''FIELDS[idx]''))"

definition SetIndexableField :: "oop \<Rightarrow> nat \<Rightarrow> oop \<Rightarrow> vmstate \<Rightarrow> vmstate res" where
  "SetIndexableField v idx value s =
     res_bind (array_at s v) (\<lambda>xs.
       if idx > length xs then Inl (ErrorExit ''Array index out of bounds'')
       else case v of
         Ptr a \<Rightarrow> if idx < length xs then Inr (set_heap a (VMArr (xs[idx := value])) s) else Inl (Undefined ''FIELDS[idx]'')
       | SmallInt _ \<Rightarrow> Inl (Undefined ''not an array''))"

definition GetInstanceInvokables :: "vmstate \<Rightarrow> addr \<Rightarrow> oop list res" where
  "GetInstanceInvokables s cls = res_bind (GetField s cls INSTANCEINVOKABLES) (array_at s)"

definition GetSuperClass :: "vmstate \<Rightarrow> addr \<Rightarrow> oop res" where
  "GetSuperClass s cls = GetField s cls SUPERCLASS"

definition HasSuperClass :: "vmstate \<Rightarrow> addr \<Rightarrow> bool res" where
  "HasSuperClass s cls = res_bind (GetSuperClass s cls) (\<lambda>sup. Inr (sup \<noteq> nilObject))"

subsection \<open>The lookup cache\<close>

definition GetCachedInvokable :: "symcache \<Rightarrow> addr \<Rightarrow> addr option" where
  "GetCachedInvokable c cls =
     (if cachedClass c ! 0 = Some cls then cachedInvokable c ! 0
      else if cachedClass c ! 1 = Some cls then cachedInvokable c ! 1
      else if cachedClass c ! 2 = Some cls then cachedInvokable c ! 2
      else None)"

definition UpdateCachedInvokable :: "addr \<Rightarrow> addr \<Rightarrow> symcache \<Rightarrow> symcache" where
  "UpdateCachedInvokable cls invo c =
     c\<lparr>cachedInvokable := (cachedInvokable c)[nextCachePos c := Some invo],
       cachedClass := (cachedClass c)[nextCachePos c := Some cls],
       nextCachePos := (nextCachePos c + 1) mod 3\<rparr>"

fun find_invokable :: "vmstate \<Rightarrow> string \<Rightarrow> oop list \<Rightarrow> addr option res" where
  "find_invokable s name [] = Inr None"
| "find_invokable s name (v # vs) =
     res_bind (invokable_at s v) (\<lambda>i.
       if inv_signature i = name then (case v of Ptr a \<Rightarrow> Inr (Some a) | SmallInt _ \<Rightarrow> Inl (Undefined ''not an invokable''))
       else find_invokable s name vs)"

fun LookupInvokable :: "nat \<Rightarrow> string \<Rightarrow> addr \<Rightarrow> vmstate \<Rightarrow> (addr option \<times> vmstate) res" where
  "LookupInvokable 0 name cls s = Inl (Undefined ''cyclic class hierarchy'')"
| "LookupInvokable (Suc fuel) name cls s =
     (case GetCachedInvokable (symcaches s name) cls of
        Some invo \<Rightarrow> Inr (Some invo, s)
      | None \<Rightarrow>
          res_bind (GetInstanceInvokables s cls) (\<lambda>invs.
          res_bind (find_invokable s name invs) (\<lambda>found.
            case found of
              Some invo \<Rightarrow>
                Inr (Some invo, s\<lparr>symcaches := (symcaches s)
                       (name := UpdateCachedInvokable cls invo (symcaches s name))\<rparr>)
            | None \<Rightarrow>
                res_bind (GetSuperClass s cls) (\<lambda>sup.
                  if sup \<noteq> nilObject then
                    (case sup of
                       Ptr supcls \<Rightarrow> LookupInvokable fuel name supcls s
                     | SmallInt _ \<Rightarrow> Inl (Undefined ''superclass''))
                  else Inr (None, s)))))"

subsection \<open>Installing primitives\<close>

datatype PrimInstallResult = NULL_ARG | NULL_IN_INVOKABLES | INSTALLED_REPLACED | HASH_MISMATCH | INSTALLED_ADDED

fun set_inv_holder :: "oop \<Rightarrow> vminvokable \<Rightarrow> vminvokable" where
  "set_inv_holder h (RMethod m) = RMethod (m\<lparr>m_holder := h\<rparr>)"
| "set_inv_holder h (RLiteralReturn sig _ n v) = RLiteralReturn sig h n v"
| "set_inv_holder h (RGlobalReturn sig _ n g) = RGlobalReturn sig h n g"
| "set_inv_holder h (RGetter sig _ n i) = RGetter sig h n i"
| "set_inv_holder h (RSetter sig _ n i j) = RSetter sig h n i j"
| "set_inv_holder h (RPrimitive sig _ i n) = RPrimitive sig h i n"
| "set_inv_holder h (REvaluation sig _ n) = REvaluation sig h n"

text \<open>\<open>SetHolder\<close>; that of a method goes on to the invokables among its literals (\<open>SetHolderAll\<close>), whose nesting is
  bounded by the number of objects.\<close>

fun set_holder :: "nat \<Rightarrow> addr \<Rightarrow> addr \<Rightarrow> vmstate \<Rightarrow> vmstate res"
  and SetHolderAll :: "nat \<Rightarrow> oop list \<Rightarrow> addr \<Rightarrow> vmstate \<Rightarrow> vmstate res" where
  "set_holder 0 invo cls s = Inl (Undefined ''cyclic methods'')"
| "set_holder (Suc n) invo cls s =
     res_bind (invokable_at s (Ptr invo)) (\<lambda>i.
       let s1 = set_heap invo (VMInvok (set_inv_holder (Ptr cls) i)) s in
       case i of RMethod m \<Rightarrow> SetHolderAll n (m_literals m) cls s1 | _ \<Rightarrow> Inr s1)"
| "SetHolderAll n [] cls s = Inr s"
| "SetHolderAll n (v # vs) cls s =
     (case v of
        SmallInt _ \<Rightarrow> SetHolderAll n vs cls s
      | Ptr a \<Rightarrow> (case heap s a of
          Some (VMInvok _) \<Rightarrow> res_bind (set_holder n a cls s) (SetHolderAll n vs cls)
        | _ \<Rightarrow> SetHolderAll n vs cls s))"

definition SetHolder :: "addr \<Rightarrow> addr \<Rightarrow> vmstate \<Rightarrow> vmstate res" where
  "SetHolder invo cls s = set_holder (Suc (hp s)) invo cls s"

definition SetInstanceInvokable :: "addr \<Rightarrow> nat \<Rightarrow> addr \<Rightarrow> vmstate \<Rightarrow> vmstate res" where
  "SetInstanceInvokable cls index invo s =
     res_bind (GetField s cls INSTANCEINVOKABLES) (\<lambda>arr.
     res_bind (SetIndexableField arr index (Ptr invo) s) (\<lambda>s1.
       if Ptr invo \<noteq> nilObject then SetHolder invo cls s1 else Inr s1))"

definition GetBytecodeHash :: "vmmethod \<Rightarrow> u32" where
  "GetBytecodeHash m = murmur3_32 (m_bytecodes m) 0"

text \<open>The search for an invokable with the same signature: its index and the invokable.\<close>

fun find_same_signature :: "vmstate \<Rightarrow> string \<Rightarrow> nat \<Rightarrow> oop list \<Rightarrow> (nat \<times> vminvokable) option res" where
  "find_same_signature s sig i [] = Inr None"
| "find_same_signature s sig i (v # vs) =
     res_bind (invokable_at s v) (\<lambda>inv.
       if inv_signature inv = sig then Inr (Some (i, inv)) else find_same_signature s sig (i + 1) vs)"

definition InstallPrimitive ::
    "addr \<Rightarrow> addr \<Rightarrow> u64 \<Rightarrow> vmstate \<Rightarrow> (PrimInstallResult \<times> vmstate) res" where
  "InstallPrimitive cls invo bytecodeHash s =
     res_bind (invokable_at s (Ptr invo)) (\<lambda>prim.
     res_bind (GetInstanceInvokables s cls) (\<lambda>invs.
     res_bind (find_same_signature s (inv_signature prim) 0 invs) (\<lambda>found.
       case found of
         Some (i, old) \<Rightarrow>
           (let result =
              (if bytecodeHash \<noteq> 0 then
                 (case old of
                    RMethod m \<Rightarrow> if ucast (GetBytecodeHash m) = bytecodeHash then INSTALLED_REPLACED else HASH_MISMATCH
                  | _ \<Rightarrow> HASH_MISMATCH)
               else INSTALLED_REPLACED)
            in if result = HASH_MISMATCH then Inr (result, s)
               else res_bind (SetInstanceInvokable cls i invo s) (\<lambda>s1. Inr (result, s1)))
       | None \<Rightarrow>
           (case allocate (VMArr (invs @ [Ptr invo])) s of (a, s1) \<Rightarrow>
              res_bind (SetField cls INSTANCEINVOKABLES (Ptr a) s1) (\<lambda>s2.
              res_bind (if Ptr invo \<noteq> nilObject then SetHolder invo cls s2 else Inr s2) (\<lambda>s3.
                Inr (INSTALLED_ADDED, s3)))))))"

subsection \<open>Field names\<close>

fun GetNumberOfInstanceFields :: "nat \<Rightarrow> vmstate \<Rightarrow> addr \<Rightarrow> nat res" where
  "GetNumberOfInstanceFields 0 s cls = Inl (Undefined ''cyclic class hierarchy'')"
| "GetNumberOfInstanceFields (Suc fuel) s cls =
     res_bind (res_bind (GetField s cls INSTANCEFIELDS) (array_at s)) (\<lambda>own.
     res_bind (GetSuperClass s cls) (\<lambda>sup.
       if sup \<noteq> nilObject then
         (case sup of
            Ptr supcls \<Rightarrow> res_bind (GetNumberOfInstanceFields fuel s supcls) (\<lambda>n. Inr (length own + n))
          | SmallInt _ \<Rightarrow> Inl (Undefined ''superclass''))
       else Inr (length own)))"

fun GetInstanceFieldName :: "nat \<Rightarrow> vmstate \<Rightarrow> addr \<Rightarrow> nat \<Rightarrow> oop res" where
  "GetInstanceFieldName 0 s cls index = Inl (Undefined ''cyclic class hierarchy'')"
| "GetInstanceFieldName (Suc fuel) s cls index =
     res_bind (GetSuperClass s cls) (\<lambda>sup.
     res_bind (if sup \<noteq> nilObject then
                 (case sup of Ptr supcls \<Rightarrow> GetNumberOfInstanceFields fuel s supcls
                            | SmallInt _ \<Rightarrow> Inl (Undefined ''superclass''))
               else Inr 0) (\<lambda>numSuper.
       if index \<ge> numSuper then
         res_bind (GetField s cls INSTANCEFIELDS) (\<lambda>own. GetIndexableField s own (index - numSuper))
       else (case sup of Ptr supcls \<Rightarrow> GetInstanceFieldName fuel s supcls index
                       | SmallInt _ \<Rightarrow> Inl (Undefined ''superclass''))))"

text \<open>The loop of \<open>LookupFieldIndex\<close> runs to the number of fields inclusively.\<close>

fun LookupFieldIndex_loop :: "nat \<Rightarrow> vmstate \<Rightarrow> addr \<Rightarrow> oop \<Rightarrow> nat \<Rightarrow> nat \<Rightarrow> int res" where
  "LookupFieldIndex_loop fuel s cls name i 0 = Inr (-1)"
| "LookupFieldIndex_loop fuel s cls name i (Suc n) =
     res_bind (GetInstanceFieldName fuel s cls i) (\<lambda>fname.
       if name = fname then Inr (int i) else LookupFieldIndex_loop fuel s cls name (i + 1) n)"

definition LookupFieldIndex :: "nat \<Rightarrow> vmstate \<Rightarrow> addr \<Rightarrow> oop \<Rightarrow> int res" where
  "LookupFieldIndex fuel s cls name =
     res_bind (GetNumberOfInstanceFields fuel s cls) (\<lambda>n. LookupFieldIndex_loop fuel s cls name 0 (n + 1))"

subsection \<open>Lemmas\<close>

named_theorems frame_simps \<open>frames and the heap\<close>

lemma set_heap_sel [frame_simps, simp]:
  "cur_frame (set_heap a ob s) = cur_frame s" "pc (set_heap a ob s) = pc s" "hp (set_heap a ob s) = hp s"
  "symcaches (set_heap a ob s) = symcaches s" "globals (set_heap a ob s) = globals s"
  "heap (set_heap a ob s) b = (if b = a then Some ob else heap s b)"
  by (simp_all add: set_heap_def)

lemma set_heap_twice [frame_simps, simp]: "set_heap a x (set_heap a y s) = set_heap a x s"
  by (simp add: set_heap_def)

lemma set_heap_commute: "a \<noteq> b \<Longrightarrow> set_heap a x (set_heap b y s) = set_heap b y (set_heap a x s)"
  by (simp add: set_heap_def fun_upd_twist)

lemma set_heap_pc [frame_simps, simp]: "set_heap a x (s\<lparr>pc := p\<rparr>) = (set_heap a x s)\<lparr>pc := p\<rparr>"
  by (simp add: set_heap_def)

lemma set_heap_same: "heap s a = Some ob \<Longrightarrow> set_heap a ob s = s"
  by (simp add: set_heap_def fun_upd_idem)

end
