(* ===== verification/Frames.thy ===== *)
theory Frames
  imports Objects
begin

section \<open>Activation frames\<close>

text \<open>
  \<open>src/vmobjects/VMFrame.{h,cpp}\<close> and \<open>Universe::NewFrame\<close>: the operand stack, arguments, locals and contexts of a
  frame on the heap. Reads and writes outside the stack, the locals or the arguments of a frame
  are \<open>Undefined\<close>; a push needs a free slot. The slots above the top of the stack are not
  represented: nothing reads them before a push has written them. Following contexts is bounded
  by the number of allocated objects; \<open>GetOuterContext_ok\<close> shows that this is enough when every context is
  older than its frame.
\<close>

definition frame_at :: "vmstate \<Rightarrow> addr \<Rightarrow> vmframe res" where
  "frame_at s a =
     (case heap s a of Some (VMFrm f) \<Rightarrow> Inr f | _ \<Rightarrow> Inl (Undefined ''not a frame''))"

definition upd_frame :: "addr \<Rightarrow> (vmframe \<Rightarrow> vmframe res) \<Rightarrow> vmstate \<Rightarrow> vmstate res" where
  "upd_frame a g s =
     res_bind (frame_at s a) (\<lambda>f. res_bind (g f) (\<lambda>f'. Inr (set_heap a (VMFrm f') s)))"

subsection \<open>The operand stack\<close>

definition frame_push :: "oop \<Rightarrow> vmframe \<Rightarrow> vmframe res" where
  "frame_push v f =
     (if length (f_stack f) < f_capacity f then Inr (f\<lparr>f_stack := v # f_stack f\<rparr>)
      else Inl (Undefined ''push beyond the frame''))"

definition Push :: "addr \<Rightarrow> oop \<Rightarrow> vmstate \<Rightarrow> vmstate res" where
  "Push a v = upd_frame a (frame_push v)"

definition PopVoid :: "addr \<Rightarrow> vmstate \<Rightarrow> vmstate res" where
  "PopVoid a =
     upd_frame a (\<lambda>f. case f_stack f of
        [] \<Rightarrow> Inl (Undefined ''pop of an empty stack'')
      | _ # st \<Rightarrow> Inr (f\<lparr>f_stack := st\<rparr>))"

definition GetStackElement :: "vmstate \<Rightarrow> addr \<Rightarrow> nat \<Rightarrow> oop res" where
  "GetStackElement s a index =
     res_bind (frame_at s a) (\<lambda>f.
       if index < length (f_stack f) then Inr (f_stack f ! index)
       else Inl (Undefined ''stack element''))"

definition Top :: "vmstate \<Rightarrow> addr \<Rightarrow> oop res" where
  "Top s a = GetStackElement s a 0"

definition Top2 :: "vmstate \<Rightarrow> addr \<Rightarrow> oop res" where
  "Top2 s a = GetStackElement s a 1"

definition Pop :: "addr \<Rightarrow> vmstate \<Rightarrow> (oop \<times> vmstate) res" where
  "Pop a s = res_bind (Top s a) (\<lambda>v. res_bind (PopVoid a s) (\<lambda>s1. Inr (v, s1)))"

fun PopN :: "nat \<Rightarrow> addr \<Rightarrow> vmstate \<Rightarrow> (oop list \<times> vmstate) res" where
  "PopN 0 a s = Inr ([], s)"
| "PopN (Suc n) a s =
     res_bind (Pop a s) (\<lambda>(v, s1). res_bind (PopN n a s1) (\<lambda>(vs, s2). Inr (v # vs, s2)))"

definition SetTop :: "addr \<Rightarrow> oop \<Rightarrow> vmstate \<Rightarrow> vmstate res" where
  "SetTop a v =
     upd_frame a (\<lambda>f. case f_stack f of
        [] \<Rightarrow> Inl (Undefined ''top of an empty stack'')
      | _ # st \<Rightarrow> Inr (f\<lparr>f_stack := v # st\<rparr>))"

definition RemainingStackSize :: "vmframe \<Rightarrow> nat" where
  "RemainingStackSize f = f_capacity f - length (f_stack f)"

subsection \<open>Contexts\<close>

fun GetContextLevel :: "vmstate \<Rightarrow> addr \<Rightarrow> nat \<Rightarrow> addr res" where
  "GetContextLevel s a 0 = Inr a"
| "GetContextLevel s a (Suc lvl) =
     res_bind (frame_at s a) (\<lambda>f. case f_context f of
        Some c \<Rightarrow> GetContextLevel s c lvl
      | None \<Rightarrow> Inl (Undefined ''no context''))"

fun outer_context :: "nat \<Rightarrow> vmstate \<Rightarrow> addr \<Rightarrow> addr res" where
  "outer_context 0 s a = Inl (Undefined ''cyclic contexts'')"
| "outer_context (Suc fuel) s a =
     res_bind (frame_at s a) (\<lambda>f. case f_context f of
        Some c \<Rightarrow> outer_context fuel s c
      | None \<Rightarrow> Inr a)"

definition GetOuterContext :: "vmstate \<Rightarrow> addr \<Rightarrow> addr res" where
  "GetOuterContext s a = outer_context (Suc (hp s)) s a"

subsection \<open>Locals and arguments\<close>

definition nth_slot :: "string \<Rightarrow> oop list \<Rightarrow> nat \<Rightarrow> oop res" where
  "nth_slot what xs i = (if i < length xs then Inr (xs ! i) else Inl (Undefined what))"

definition GetLocal_frame :: "vmstate \<Rightarrow> addr \<Rightarrow> byte \<Rightarrow> byte \<Rightarrow> oop res" where
  "GetLocal_frame s a index contextLevel =
     res_bind (GetContextLevel s a (unat contextLevel)) (\<lambda>c.
     res_bind (frame_at s c) (\<lambda>f. nth_slot ''local'' (f_locals f) (unat index)))"

definition SetLocal_frame :: "addr \<Rightarrow> byte \<Rightarrow> byte \<Rightarrow> oop \<Rightarrow> vmstate \<Rightarrow> vmstate res" where
  "SetLocal_frame a index contextLevel v s =
     res_bind (GetContextLevel s a (unat contextLevel)) (\<lambda>c.
       upd_frame c (\<lambda>f.
         if unat index < length (f_locals f) then Inr (f\<lparr>f_locals := (f_locals f)[unat index := v]\<rparr>)
         else Inl (Undefined ''local'')) s)"

definition GetArgument_frame :: "vmstate \<Rightarrow> addr \<Rightarrow> byte \<Rightarrow> byte \<Rightarrow> oop res" where
  "GetArgument_frame s a index contextLevel =
     res_bind (GetContextLevel s a (unat contextLevel)) (\<lambda>c.
     res_bind (frame_at s c) (\<lambda>f. nth_slot ''argument'' (f_args f) (unat index)))"

definition SetArgument_frame :: "addr \<Rightarrow> byte \<Rightarrow> byte \<Rightarrow> oop \<Rightarrow> vmstate \<Rightarrow> vmstate res" where
  "SetArgument_frame a index contextLevel v s =
     res_bind (GetContextLevel s a (unat contextLevel)) (\<lambda>c.
       upd_frame c (\<lambda>f.
         if unat index < length (f_args f) then Inr (f\<lparr>f_args := (f_args f)[unat index := v]\<rparr>)
         else Inl (Undefined ''argument'')) s)"

definition SetContext :: "addr \<Rightarrow> addr option \<Rightarrow> vmstate \<Rightarrow> vmstate res" where
  "SetContext a c = upd_frame a (\<lambda>f. Inr (f\<lparr>f_context := c\<rparr>))"

definition ClearPreviousFrame :: "addr \<Rightarrow> vmstate \<Rightarrow> vmstate res" where
  "ClearPreviousFrame a = upd_frame a (\<lambda>f. Inr (f\<lparr>f_previous := None\<rparr>))"

definition SetBytecodeIndex :: "addr \<Rightarrow> nat \<Rightarrow> vmstate \<Rightarrow> vmstate res" where
  "SetBytecodeIndex a i = upd_frame a (\<lambda>f. Inr (f\<lparr>f_bytecodeIndex := i\<rparr>))"

subsection \<open>New frames\<close>

definition method_at :: "vmstate \<Rightarrow> addr \<Rightarrow> vmmethod res" where
  "method_at s a =
     (case heap s a of Some (VMInvok (RMethod m)) \<Rightarrow> Inr m | _ \<Rightarrow> Inl (Undefined ''not a method''))"

text \<open>The arguments of a new frame are left uninitialised, the locals are nil.\<close>

definition NewFrame :: "addr option \<Rightarrow> addr \<Rightarrow> vmstate \<Rightarrow> (addr \<times> vmstate) res" where
  "NewFrame previousFrame method s =
     res_bind (method_at s method) (\<lambda>m.
       Inr (allocate (VMFrm \<lparr>f_previous = previousFrame, f_context = None, f_method = method,
              f_args = replicate (unat (m_nargs m)) nilObject,
              f_locals = replicate (m_nlocals m) nilObject, f_stack = [],
              f_capacity = m_maxstack m, f_bytecodeIndex = 0\<rparr>) s))"

definition CopyArgumentsFrom :: "addr \<Rightarrow> addr \<Rightarrow> vmstate \<Rightarrow> vmstate res" where
  "CopyArgumentsFrom a from s =
     res_bind (frame_at s a) (\<lambda>f.
     res_bind (method_at s (f_method f)) (\<lambda>m.
     res_bind (frame_at s from) (\<lambda>g.
       let num_args = unat (m_nargs m) in
       if num_args \<le> length (f_stack g) then
         Inr (set_heap a (VMFrm (f\<lparr>f_args := map (\<lambda>i. f_stack g ! (num_args - 1 - i)) [0..<num_args]\<rparr>)) s)
       else Inl (Undefined ''stack element''))))"

text \<open>The copy for an unplanned send. Its room is computed from the method, not from the frame it copies;
  copying more slots than the new frame has writes beyond it.\<close>

definition EmergencyFrameFrom :: "addr \<Rightarrow> nat \<Rightarrow> vmstate \<Rightarrow> (addr \<times> vmstate) res" where
  "EmergencyFrameFrom from extraLength s =
     res_bind (frame_at s from) (\<lambda>f.
     res_bind (method_at s (f_method f)) (\<lambda>m.
       if f_capacity f \<le> m_maxstack m + extraLength then
         Inr (allocate (VMFrm (f\<lparr>f_capacity := m_maxstack m + extraLength\<rparr>)) s)
       else Inl (Undefined ''copy beyond the emergency frame'')))"

subsection \<open>Outer contexts\<close>

text \<open>Every context is a frame that is older than the frame it is the context of.\<close>

definition contexts_ok :: "vmstate \<Rightarrow> bool" where
  "contexts_ok s \<longleftrightarrow> (\<forall>a f c. frame_at s a = Inr f \<and> f_context f = Some c \<longrightarrow> c < a \<and> (\<exists>g. frame_at s c = Inr g))"

lemma outer_context_ok:
  assumes "contexts_ok s"
  shows "frame_at s a = Inr f \<Longrightarrow> a < n \<Longrightarrow> \<exists>b g. outer_context n s a = Inr b \<and> frame_at s b = Inr g \<and> f_context g = None"
proof (induction n arbitrary: a f)
  case (Suc n)
  show ?case
  proof (cases "f_context f")
    case None
    then show ?thesis using Suc.prems(1) by simp
  next
    case (Some c)
    then have "c < a" "\<exists>g. frame_at s c = Inr g" using assms Suc.prems(1) unfolding contexts_ok_def by blast+
    then show ?thesis using Suc.IH[of c] Suc.prems Some by auto
  qed
qed simp

lemma GetOuterContext_ok:
  assumes "contexts_ok s" "frame_at s a = Inr f" "a < hp s"
  shows "\<exists>b g. GetOuterContext s a = Inr b \<and> frame_at s b = Inr g \<and> f_context g = None"
  unfolding GetOuterContext_def using outer_context_ok[OF assms(1,2), of "Suc (hp s)"] assms(3) by simp

end
