(* ===== verification/Interp.thy ===== *)
theory Interp
  imports Frames Bytecodes
begin

section \<open>The bytecode interpreter\<close>

text \<open>
  \<open>src/interpreter/Interpreter.cpp\<close> and the \<open>Invoke\<close> operations of the invokables
  (\<open>VMMethod\<close>, \<open>VMTrivialMethod\<close>, \<open>VMSafePrimitive\<close>, \<open>VMPrimitive\<close>, \<open>VMEvaluationPrimitive\<close>). One \<open>do\<close> function per bytecode,
  as in the code; \<open>exec\<close> runs one decoded instruction and \<open>step\<close> fetches, decodes and runs the next one. The
  C++ routines of the primitives, the floating-point operations and the depth of the native
  stack, which bounds the recursion \<open>Invoke\<close>--\<open>SendUnknownGlobal\<close>--\<open>Send\<close>--\<open>Invoke\<close>, are the parameters of \<open>vmenv\<close>.
  Garbage collection has no effect on the modelled state.
\<close>

record vmenv =
  unary_prim :: "nat \<Rightarrow> oop \<Rightarrow> vmstate \<Rightarrow> (oop \<times> vmstate) res"
  binary_prim :: "nat \<Rightarrow> oop \<Rightarrow> oop \<Rightarrow> vmstate \<Rightarrow> (oop \<times> vmstate) res"
  ternary_prim :: "nat \<Rightarrow> oop \<Rightarrow> oop \<Rightarrow> oop \<Rightarrow> vmstate \<Rightarrow> (oop \<times> vmstate) res"
  frame_prim :: "nat \<Rightarrow> vmstate \<Rightarrow> vmstate res"
  dbl_add :: "u64 \<Rightarrow> u64 \<Rightarrow> u64"
  dbl_sub :: "u64 \<Rightarrow> u64 \<Rightarrow> u64"
  dbl_gt :: "u64 \<Rightarrow> u64 \<Rightarrow> bool"
  native_depth :: nat

definition double_one :: u64 where "double_one = 0x3FF0000000000000"

subsection \<open>Frames of the interpreter\<close>

definition SetFrame :: "addr \<Rightarrow> vmstate \<Rightarrow> vmstate res" where
  "SetFrame frm s =
     res_bind (SetBytecodeIndex (cur_frame s) (pc s) s) (\<lambda>s1.
     res_bind (frame_at s1 frm) (\<lambda>f.
       Inr (s1\<lparr>cur_frame := frm, pc := f_bytecodeIndex f\<rparr>)))"

definition PushNewFrame :: "addr \<Rightarrow> vmstate \<Rightarrow> (addr \<times> vmstate) res" where
  "PushNewFrame method s =
     res_bind (NewFrame (Some (cur_frame s)) method s) (\<lambda>(frm, s1).
     res_bind (SetFrame frm s1) (\<lambda>s2. Inr (frm, s2)))"

definition GetSelf :: "vmstate \<Rightarrow> oop res" where
  "GetSelf s = res_bind (GetOuterContext s (cur_frame s)) (\<lambda>c. GetArgument_frame s c 0 0)"

definition popFrame :: "vmstate \<Rightarrow> (addr \<times> vmstate) res" where
  "popFrame s =
     (let result = cur_frame s in
      res_bind (frame_at s result) (\<lambda>f.
        case f_previous f of
          None \<Rightarrow> Inl (Undefined ''no previous frame'')
        | Some previous \<Rightarrow>
            res_bind (SetFrame previous s) (\<lambda>s1.
            res_bind (ClearPreviousFrame result s1) (\<lambda>s2. Inr (result, s2)))))"

definition popFrameAndPushResult :: "oop \<Rightarrow> vmstate \<Rightarrow> vmstate res" where
  "popFrameAndPushResult result s =
     res_bind (popFrame s) (\<lambda>(prevFrame, s1).
     res_bind (frame_at s1 prevFrame) (\<lambda>f.
     res_bind (method_at s1 (f_method f)) (\<lambda>m.
     res_bind (PopN (unat (m_nargs m)) (cur_frame s1) s1) (\<lambda>(_, s2).
       Push (cur_frame s2) result s2))))"

text \<open>Make room for an unplanned send of \<open>needed\<close> operands.\<close>

definition ensure_stack :: "nat \<Rightarrow> vmstate \<Rightarrow> vmstate res" where
  "ensure_stack needed s =
     res_bind (frame_at s (cur_frame s)) (\<lambda>f.
       if RemainingStackSize f < needed then
         res_bind (SetBytecodeIndex (cur_frame s) (pc s) s) (\<lambda>s1.
         res_bind (EmergencyFrameFrom (cur_frame s1) (needed - RemainingStackSize f) s1) (\<lambda>(frm, s2).
           SetFrame frm s2))
       else Inr s)"

subsection \<open>Sends\<close>

definition symbol_at :: "vmstate \<Rightarrow> oop \<Rightarrow> string res" where
  "symbol_at s v =
     (case v of
        Ptr a \<Rightarrow> (case heap s a of Some (VMSym str) \<Rightarrow> Inr str | _ \<Rightarrow> Inl (Undefined ''not a symbol''))
      | SmallInt _ \<Rightarrow> Inl (Undefined ''not a symbol''))"

definition LookupInvokable_all :: "string \<Rightarrow> addr \<Rightarrow> vmstate \<Rightarrow> (addr option \<times> vmstate) res" where
  "LookupInvokable_all name cls s = LookupInvokable (Suc (hp s)) name cls s"

fun push_all :: "oop list \<Rightarrow> vmstate \<Rightarrow> vmstate res" where
  "push_all [] s = Inr s"
| "push_all (v # vs) s = res_bind (Push (cur_frame s) v s) (push_all vs)"

text \<open>\<open>AbstractVMObject::Send\<close>, with the invocation as an argument.\<close>

definition Send_with ::
    "(addr \<Rightarrow> vmstate \<Rightarrow> (addr option \<times> vmstate) res) \<Rightarrow> addr \<Rightarrow> string \<Rightarrow> oop list \<Rightarrow> vmstate \<Rightarrow> vmstate res" where
  "Send_with invoke this selector arguments s =
     res_bind (push_all (Ptr this # arguments) s) (\<lambda>s1.
     res_bind (CLASS_OF s1 (Ptr this)) (\<lambda>cl.
     res_bind (LookupInvokable_all selector cl s1) (\<lambda>(found, s2).
       case found of
         None \<Rightarrow> Inl (Undefined ''Send of an unknown selector'')
       | Some invo \<Rightarrow> res_bind (invoke invo s2) (\<lambda>(_, s3). Inr s3))))"

definition SendUnknownGlobal_with ::
    "(addr \<Rightarrow> vmstate \<Rightarrow> (addr option \<times> vmstate) res) \<Rightarrow> oop \<Rightarrow> vmstate \<Rightarrow> vmstate res" where
  "SendUnknownGlobal_with invoke globalName s =
     res_bind (GetSelf s) (\<lambda>self.
     res_bind (ensure_stack 2 s) (\<lambda>s1.
       Send_with invoke (AS_OBJ self) ''unknownGlobal:'' [globalName] s1))"

definition push_global_with ::
    "(addr \<Rightarrow> vmstate \<Rightarrow> (addr option \<times> vmstate) res) \<Rightarrow> oop \<Rightarrow> vmstate \<Rightarrow> vmstate res" where
  "push_global_with invoke globalName s =
     res_bind (symbol_at s globalName) (\<lambda>name.
       case globals s name of
         Some v \<Rightarrow> Push (cur_frame s) v s
       | None \<Rightarrow> SendUnknownGlobal_with invoke globalName s)"

subsection \<open>Invocation\<close>

definition method_Invoke :: "addr \<Rightarrow> vmstate \<Rightarrow> (addr option \<times> vmstate) res" where
  "method_Invoke method s =
     (let frame = cur_frame s in
      res_bind (SetBytecodeIndex frame (pc s) s) (\<lambda>s1.
      res_bind (PushNewFrame method s1) (\<lambda>(frm, s2).
      res_bind (CopyArgumentsFrom frm frame s2) (\<lambda>s3. Inr (Some frm, s3)))))"

definition method_Invoke1 :: "addr \<Rightarrow> vmstate \<Rightarrow> (addr option \<times> vmstate) res" where
  "method_Invoke1 method s =
     (let frame = cur_frame s in
      res_bind (SetBytecodeIndex frame (pc s) s) (\<lambda>s1.
      res_bind (PushNewFrame method s1) (\<lambda>(frm, s2).
      res_bind (Top s2 frame) (\<lambda>v.
      res_bind (SetArgument_frame frm 0 0 v s2) (\<lambda>s3. Inr (Some frm, s3))))))"

definition field_of_self :: "vmstate \<Rightarrow> oop \<Rightarrow> nat \<Rightarrow> oop res" where
  "field_of_self s self fieldIndex =
     (case self of
        SmallInt _ \<Rightarrow> Inl (ErrorExit ''Integers do not have fields!'')
      | Ptr a \<Rightarrow> GetField s a fieldIndex)"

definition set_field_of_self :: "string \<Rightarrow> oop \<Rightarrow> nat \<Rightarrow> oop \<Rightarrow> vmstate \<Rightarrow> vmstate res" where
  "set_field_of_self message self fieldIndex v s =
     (case self of
        SmallInt _ \<Rightarrow> Inl (ErrorExit message)
      | Ptr a \<Rightarrow> SetField a fieldIndex v s)"

text \<open>The last value popped is the receiver.\<close>

definition getter_Invoke :: "nat \<Rightarrow> nat \<Rightarrow> vmstate \<Rightarrow> vmstate res" where
  "getter_Invoke numberOfArguments fieldIndex s =
     res_bind (PopN numberOfArguments (cur_frame s) s) (\<lambda>(vs, s1).
       if vs = [] then Inl (Undefined ''self is null'')
       else res_bind (field_of_self s1 (last vs) fieldIndex) (\<lambda>result. Push (cur_frame s1) result s1))"

text \<open>The arguments are popped from the last one down; the receiver stays on the stack as the result.\<close>

definition setter_Invoke :: "nat \<Rightarrow> nat \<Rightarrow> nat \<Rightarrow> vmstate \<Rightarrow> vmstate res" where
  "setter_Invoke numberOfArguments fieldIndex argIndex s =
     res_bind (PopN (numberOfArguments - 1) (cur_frame s) s) (\<lambda>(vs, s1).
     res_bind (Top s1 (cur_frame s1)) (\<lambda>self.
       if IS_TAGGED self \<or> (0 < argIndex \<and> argIndex < numberOfArguments) then
         set_field_of_self ''Integers do not have fields!'' self fieldIndex
           (vs ! (numberOfArguments - 1 - argIndex)) s1
       else Inl (Undefined ''value is null'')))"

definition block_parts :: "vmstate \<Rightarrow> oop \<Rightarrow> (addr \<times> addr) res" where
  "block_parts s block =
     (case block of
        SmallInt _ \<Rightarrow> Inl (Undefined ''not a block'')
      | Ptr a \<Rightarrow>
          res_bind (GetField s a 0) (\<lambda>method.
          res_bind (GetField s a 1) (\<lambda>context.
            case (method, context) of
              (Ptr m, Ptr c) \<Rightarrow> Inr (m, c)
            | _ \<Rightarrow> Inl (Undefined ''not a block''))))"

text \<open>Evaluate a block: invoke its method and give the new frame, if there is one, the context of the block.\<close>

definition evaluate_with ::
    "(addr \<Rightarrow> vmstate \<Rightarrow> (addr option \<times> vmstate) res) \<Rightarrow> nat \<Rightarrow> vmstate \<Rightarrow> vmstate res" where
  "evaluate_with invoke numberOfArguments s =
     res_bind (GetStackElement s (cur_frame s) (numberOfArguments - 1)) (\<lambda>block.
     res_bind (block_parts s block) (\<lambda>(method, context).
     res_bind (invoke method s) (\<lambda>(newFrame, s1).
       case newFrame of
         None \<Rightarrow> Inr s1
       | Some frm \<Rightarrow> SetContext frm (Some context) s1)))"

definition primitive_Invoke :: "vmenv \<Rightarrow> nat \<Rightarrow> nat \<Rightarrow> vmstate \<Rightarrow> vmstate res" where
  "primitive_Invoke env operands routine s =
     (let frame = cur_frame s in
      if operands = 1 then
        res_bind (Pop frame s) (\<lambda>(self, s1).
        res_bind (unary_prim env routine self s1) (\<lambda>(v, s2). Push frame v s2))
      else if operands = 2 then
        res_bind (Pop frame s) (\<lambda>(right, s1).
        res_bind (Pop frame s1) (\<lambda>(left, s2).
        res_bind (binary_prim env routine left right s2) (\<lambda>(v, s3). Push frame v s3)))
      else if operands = 3 then
        res_bind (Pop frame s) (\<lambda>(arg2, s1).
        res_bind (Pop frame s1) (\<lambda>(arg1, s2).
        res_bind (Pop frame s2) (\<lambda>(self, s3).
        res_bind (ternary_prim env routine self arg1 arg2 s3) (\<lambda>(v, s4). Push frame v s4))))
      else frame_prim env routine s)"

definition no_frame :: "vmstate res \<Rightarrow> (addr option \<times> vmstate) res" where
  "no_frame r = res_bind r (\<lambda>s. Inr (None, s))"

fun Invoke :: "nat \<Rightarrow> vmenv \<Rightarrow> addr \<Rightarrow> vmstate \<Rightarrow> (addr option \<times> vmstate) res" where
  "Invoke 0 env invo s = Inl (Undefined ''native stack overflow'')"
| "Invoke (Suc depth) env invo s =
     res_bind (invokable_at s (Ptr invo)) (\<lambda>i.
       case i of
         RMethod _ \<Rightarrow> method_Invoke invo s
       | RLiteralReturn _ _ n literal \<Rightarrow> no_frame (
           res_bind (PopN (unat n) (cur_frame s) s) (\<lambda>(_, s1). Push (cur_frame s1) literal s1))
       | RGlobalReturn _ _ n globalName \<Rightarrow> no_frame (
           res_bind (PopN (unat n) (cur_frame s) s) (\<lambda>(_, s1). push_global_with (Invoke depth env) globalName s1))
       | RGetter _ _ n fieldIndex \<Rightarrow> no_frame (getter_Invoke (unat n) fieldIndex s)
       | RSetter _ _ n fieldIndex argIndex \<Rightarrow> no_frame (setter_Invoke (unat n) fieldIndex argIndex s)
       | RPrimitive _ _ operands routine \<Rightarrow> no_frame (primitive_Invoke env operands routine s)
       | REvaluation _ _ n \<Rightarrow> no_frame (evaluate_with (Invoke depth env) (unat n) s))"

fun Invoke1 :: "nat \<Rightarrow> vmenv \<Rightarrow> addr \<Rightarrow> vmstate \<Rightarrow> (addr option \<times> vmstate) res" where
  "Invoke1 0 env invo s = Inl (Undefined ''native stack overflow'')"
| "Invoke1 (Suc depth) env invo s =
     res_bind (invokable_at s (Ptr invo)) (\<lambda>i.
       case i of
         RMethod _ \<Rightarrow> method_Invoke1 invo s
       | RLiteralReturn _ _ n literal \<Rightarrow> no_frame (
           res_bind (Pop (cur_frame s) s) (\<lambda>(_, s1). Push (cur_frame s1) literal s1))
       | RGlobalReturn _ _ n globalName \<Rightarrow> no_frame (
           res_bind (Pop (cur_frame s) s) (\<lambda>(_, s1). push_global_with (Invoke depth env) globalName s1))
       | RGetter _ _ n fieldIndex \<Rightarrow> no_frame (getter_Invoke 1 fieldIndex s)
       | RSetter _ _ n fieldIndex argIndex \<Rightarrow> Inl (ErrorExit ''VMSetter::Invoke1 should not be reachable'')
       | RPrimitive _ _ operands routine \<Rightarrow> no_frame (
           if operands = 2 \<or> operands = 3 then Inl (ErrorExit ''Unary invoke on binary primitive'')
           else primitive_Invoke env operands routine s)
       | REvaluation _ _ n \<Rightarrow> no_frame (evaluate_with (Invoke1 depth env) 1 s))"

definition Send :: "vmenv \<Rightarrow> addr \<Rightarrow> string \<Rightarrow> oop list \<Rightarrow> vmstate \<Rightarrow> vmstate res" where
  "Send env = Send_with (Invoke (native_depth env) env)"

definition triggerDoesNotUnderstand :: "vmenv \<Rightarrow> oop \<Rightarrow> vmstate \<Rightarrow> vmstate res" where
  "triggerDoesNotUnderstand env signature s =
     res_bind (symbol_at s signature) (\<lambda>name.
     let numberOfArgs = unat (GetNumberOfArguments name) in
     res_bind (GetStackElement s (cur_frame s) (numberOfArgs - 1)) (\<lambda>receiver.
     res_bind (PopN (numberOfArgs - 1) (cur_frame s) s) (\<lambda>(vs, s1).
     case allocate (VMArr (rev vs)) s1 of (arr, s2) \<Rightarrow>
     res_bind (Pop (cur_frame s2) s2) (\<lambda>(_, s3).
     res_bind (ensure_stack 3 s3) (\<lambda>s4.
       Send env (AS_OBJ receiver) ''doesNotUnderstand:arguments:'' [signature, Ptr arr] s4)))))"

definition send :: "vmenv \<Rightarrow> oop \<Rightarrow> addr \<Rightarrow> vmstate \<Rightarrow> vmstate res" where
  "send env signature receiverClass s =
     res_bind (symbol_at s signature) (\<lambda>name.
     res_bind (LookupInvokable_all name receiverClass s) (\<lambda>(found, s1).
       case found of
         Some invo \<Rightarrow> res_bind (Invoke (native_depth env) env invo s1) (\<lambda>(_, s2). Inr s2)
       | None \<Rightarrow> triggerDoesNotUnderstand env signature s1))"

subsection \<open>Bytecodes that push and pop\<close>

definition doDup :: "vmstate \<Rightarrow> vmstate res" where
  "doDup s = res_bind (GetStackElement s (cur_frame s) 0) (\<lambda>elem. Push (cur_frame s) elem s)"

definition doDupSecond :: "vmstate \<Rightarrow> vmstate res" where
  "doDupSecond s = res_bind (GetStackElement s (cur_frame s) 1) (\<lambda>elem. Push (cur_frame s) elem s)"

definition doPushLocal :: "byte \<Rightarrow> byte \<Rightarrow> vmstate \<Rightarrow> vmstate res" where
  "doPushLocal bc1 bc2 s =
     res_bind (GetLocal_frame s (cur_frame s) bc1 bc2) (\<lambda>v. Push (cur_frame s) v s)"

definition doPushArgument :: "byte \<Rightarrow> byte \<Rightarrow> vmstate \<Rightarrow> vmstate res" where
  "doPushArgument argIndex contextLevel s =
     res_bind (GetArgument_frame s (cur_frame s) argIndex contextLevel) (\<lambda>v. Push (cur_frame s) v s)"

definition doPushFieldWithIndex :: "byte \<Rightarrow> vmstate \<Rightarrow> vmstate res" where
  "doPushFieldWithIndex fieldIndex s =
     res_bind (GetSelf s) (\<lambda>self.
     res_bind (field_of_self s self (unat fieldIndex)) (\<lambda>v. Push (cur_frame s) v s))"

definition doReturnFieldWithIndex :: "byte \<Rightarrow> vmstate \<Rightarrow> vmstate res" where
  "doReturnFieldWithIndex fieldIndex s =
     res_bind (GetSelf s) (\<lambda>self.
     res_bind (field_of_self s self (unat fieldIndex)) (\<lambda>v. popFrameAndPushResult v s))"

definition current_method :: "vmstate \<Rightarrow> vmmethod res" where
  "current_method s = res_bind (frame_at s (cur_frame s)) (\<lambda>f. method_at s (f_method f))"

definition GetConstant :: "vmstate \<Rightarrow> byte \<Rightarrow> oop res" where
  "GetConstant s bc =
     res_bind (current_method s) (\<lambda>m. nth_slot ''constant'' (m_literals m) (unat bc))"

definition doPushConstant :: "byte \<Rightarrow> vmstate \<Rightarrow> vmstate res" where
  "doPushConstant bc s = res_bind (GetConstant s bc) (\<lambda>v. Push (cur_frame s) v s)"

definition NewBlock :: "addr \<Rightarrow> addr \<Rightarrow> byte \<Rightarrow> vmstate \<Rightarrow> addr \<times> vmstate" where
  "NewBlock method context arguments s =
     allocate (VMObj (blockClass arguments) [Ptr method, Ptr context]) s"

definition doPushBlock :: "byte \<Rightarrow> vmstate \<Rightarrow> vmstate res" where
  "doPushBlock bc s =
     res_bind (GetConstant s bc) (\<lambda>block.
     res_bind (invokable_at s block) (\<lambda>blockMethod.
       case NewBlock (AS_OBJ block) (cur_frame s) (inv_nargs blockMethod) s of (b, s1) \<Rightarrow>
         Push (cur_frame s1) (Ptr b) s1))"

definition doPushGlobal :: "vmenv \<Rightarrow> byte \<Rightarrow> vmstate \<Rightarrow> vmstate res" where
  "doPushGlobal env bc s =
     res_bind (GetConstant s bc) (\<lambda>globalName.
       push_global_with (Invoke (native_depth env) env) globalName s)"

definition push_int :: "int \<Rightarrow> vmstate \<Rightarrow> vmstate res" where
  "push_int x s = res_bind (NEW_INT x s) (\<lambda>(v, s1). Push (cur_frame s1) v s1)"

definition doPop :: "vmstate \<Rightarrow> vmstate res" where
  "doPop s = res_bind (Pop (cur_frame s) s) (\<lambda>(_, s1). Inr s1)"

definition doPopLocal :: "byte \<Rightarrow> byte \<Rightarrow> vmstate \<Rightarrow> vmstate res" where
  "doPopLocal bc1 bc2 s =
     res_bind (Pop (cur_frame s) s) (\<lambda>(v, s1). SetLocal_frame (cur_frame s1) bc1 bc2 v s1)"

definition doPopArgument :: "byte \<Rightarrow> byte \<Rightarrow> vmstate \<Rightarrow> vmstate res" where
  "doPopArgument bc1 bc2 s =
     res_bind (Pop (cur_frame s) s) (\<lambda>(v, s1). SetArgument_frame (cur_frame s1) bc1 bc2 v s1)"

definition doPopFieldWithIndex :: "byte \<Rightarrow> vmstate \<Rightarrow> vmstate res" where
  "doPopFieldWithIndex fieldIndex s =
     res_bind (GetSelf s) (\<lambda>self.
     res_bind (Pop (cur_frame s) s) (\<lambda>(v, s1).
       set_field_of_self ''Integers do not have fields that can be set'' self (unat fieldIndex) v s1))"

subsection \<open>Sends and returns\<close>

definition doSend :: "vmenv \<Rightarrow> byte \<Rightarrow> vmstate \<Rightarrow> vmstate res" where
  "doSend env bc s =
     res_bind (GetConstant s bc) (\<lambda>signature.
     res_bind (symbol_at s signature) (\<lambda>name.
     res_bind (GetStackElement s (cur_frame s) (unat (GetNumberOfArguments name) - 1)) (\<lambda>receiver.
     res_bind (CLASS_OF s receiver) (\<lambda>receiverClass.
       send env signature receiverClass s))))"

definition doUnarySend :: "vmenv \<Rightarrow> byte \<Rightarrow> vmstate \<Rightarrow> vmstate res" where
  "doUnarySend env bc s =
     res_bind (GetConstant s bc) (\<lambda>signature.
     res_bind (symbol_at s signature) (\<lambda>name.
     res_bind (GetStackElement s (cur_frame s) 0) (\<lambda>receiver.
     res_bind (CLASS_OF s receiver) (\<lambda>receiverClass.
     res_bind (LookupInvokable_all name receiverClass s) (\<lambda>(found, s1).
       case found of
         Some invo \<Rightarrow> res_bind (Invoke1 (native_depth env) env invo s1) (\<lambda>(_, s2). Inr s2)
       | None \<Rightarrow> triggerDoesNotUnderstand env signature s1)))))"

text \<open>The loop that collects the arguments when no method is found. Its counter is an unsigned byte, for which the
  loop condition \<open>i >= 0\<close> always holds: only an error ends the loop. The fuel covers all values of the counter.\<close>

fun super_send_arguments :: "nat \<Rightarrow> addr \<Rightarrow> byte \<Rightarrow> vmstate \<Rightarrow> vmstate res" where
  "super_send_arguments 0 arr i s = Inl (Undefined ''endless loop'')"
| "super_send_arguments (Suc fuel) arr i s =
     res_bind (Pop (cur_frame s) s) (\<lambda>(elem, s1).
     res_bind (SetIndexableField (Ptr arr) (unat i) elem s1) (\<lambda>s2.
       super_send_arguments fuel arr (i - 1) s2))"

definition doSuperSend :: "vmenv \<Rightarrow> byte \<Rightarrow> vmstate \<Rightarrow> vmstate res" where
  "doSuperSend env bc s =
     res_bind (GetConstant s bc) (\<lambda>signature.
     res_bind (symbol_at s signature) (\<lambda>name.
     res_bind (GetOuterContext s (cur_frame s)) (\<lambda>ctxt.
     res_bind (frame_at s ctxt) (\<lambda>f.
     res_bind (method_at s (f_method f)) (\<lambda>realMethod.
     res_bind (case m_holder realMethod of
                 Ptr holder \<Rightarrow> GetSuperClass s holder
               | SmallInt _ \<Rightarrow> Inl (Undefined ''holder'')) (\<lambda>super.
     res_bind (case super of
                 Ptr cls \<Rightarrow> LookupInvokable_all name cls s
               | SmallInt _ \<Rightarrow> Inl (Undefined ''superclass'')) (\<lambda>(found, s1).
       case found of
         Some invo \<Rightarrow> res_bind (Invoke (native_depth env) env invo s1) (\<lambda>(_, s2). Inr s2)
       | None \<Rightarrow>
           (let numOfArgs = GetNumberOfArguments name in
            res_bind (GetStackElement s1 (cur_frame s1) (unat numOfArgs - 1)) (\<lambda>receiver.
            case allocate (VMArr (replicate (unat numOfArgs) nilObject)) s1 of (arr, s2) \<Rightarrow>
            res_bind (super_send_arguments 257 arr (numOfArgs - 1) s2) (\<lambda>s3.
              Send env (AS_OBJ receiver) ''doesNotUnderstand:arguments:'' [signature, Ptr arr] s3))))))))))"

definition doReturnLocal :: "vmstate \<Rightarrow> vmstate res" where
  "doReturnLocal s = res_bind (Pop (cur_frame s) s) (\<lambda>(result, s1). popFrameAndPushResult result s1)"

definition doReturnSelf :: "vmstate \<Rightarrow> vmstate res" where
  "doReturnSelf s =
     res_bind (GetArgument_frame s (cur_frame s) 0 0) (\<lambda>self. popFrameAndPushResult self s)"

fun pop_frames_until :: "nat \<Rightarrow> addr \<Rightarrow> vmstate \<Rightarrow> vmstate res" where
  "pop_frames_until 0 context s = Inl (Undefined ''cyclic frames'')"
| "pop_frames_until (Suc fuel) context s =
     (if cur_frame s = context then Inr s
      else res_bind (popFrame s) (\<lambda>(_, s1). pop_frames_until fuel context s1))"

text \<open>Pop the block's frame and send \<open>escapedBlock:\<close>; the arguments taken off the stack are counted with the method
  of the frame that remains.\<close>

definition escaped_block :: "vmenv \<Rightarrow> vmstate \<Rightarrow> vmstate res" where
  "escaped_block env s =
     res_bind (GetArgument_frame s (cur_frame s) 0 0) (\<lambda>block.
     res_bind (frame_at s (cur_frame s)) (\<lambda>f.
       case f_previous f of
         None \<Rightarrow> Inl (Undefined ''no previous frame'')
       | Some prevFrame \<Rightarrow>
           res_bind (GetOuterContext s prevFrame) (\<lambda>outerContext.
           res_bind (GetArgument_frame s outerContext 0 0) (\<lambda>sender.
           res_bind (popFrame s) (\<lambda>(_, s1).
           res_bind (current_method s1) (\<lambda>m.
           res_bind (PopN (unat (m_nargs m)) (cur_frame s1) s1) (\<lambda>(_, s2).
           res_bind (ensure_stack 2 s2) (\<lambda>s3.
             Send env (AS_OBJ sender) ''escapedBlock:'' [block] s3))))))))"

definition doReturnNonLocal :: "vmenv \<Rightarrow> vmstate \<Rightarrow> vmstate res" where
  "doReturnNonLocal env s =
     res_bind (Pop (cur_frame s) s) (\<lambda>(result, s1).
     res_bind (GetOuterContext s1 (cur_frame s1)) (\<lambda>context.
     res_bind (frame_at s1 context) (\<lambda>c.
       if f_previous c = None then escaped_block env s1
       else res_bind (pop_frames_until (Suc (hp s1)) context s1) (\<lambda>s2. popFrameAndPushResult result s2))))"

subsection \<open>Counting and comparing\<close>

definition double_at :: "vmstate \<Rightarrow> oop \<Rightarrow> u64 option" where
  "double_at s v =
     (case v of
        Ptr a \<Rightarrow> (case heap s a of Some (VMDbl d) \<Rightarrow> Some d | _ \<Rightarrow> None)
      | SmallInt _ \<Rightarrow> None)"

text \<open>One more or one less, for tagged integers and doubles; anything else, also a big integer, is refused.\<close>

definition count_value ::
    "(u64 \<Rightarrow> u64 \<Rightarrow> u64) \<Rightarrow> int \<Rightarrow> oop \<Rightarrow> vmstate \<Rightarrow> (oop \<times> vmstate) res" where
  "count_value dbl_op delta v s =
     (case v of
        SmallInt x \<Rightarrow> NEW_INT (x + delta) s
      | Ptr _ \<Rightarrow>
          res_bind (CLASS_OF s v) (\<lambda>cls.
            if cls = doubleClass then
              (case double_at s v of
                 Some d \<Rightarrow> (case allocate (VMDbl (dbl_op d double_one)) s of (a, s1) \<Rightarrow> Inr (Ptr a, s1))
               | None \<Rightarrow> Inl (Undefined ''not a double''))
            else Inl (ErrorExit ''unsupported'')))"

definition doInc :: "vmenv \<Rightarrow> vmstate \<Rightarrow> vmstate res" where
  "doInc env s =
     res_bind (Top s (cur_frame s)) (\<lambda>val.
     res_bind (count_value (dbl_add env) 1 val s) (\<lambda>(v, s1). SetTop (cur_frame s1) v s1))"

definition doDec :: "vmenv \<Rightarrow> vmstate \<Rightarrow> vmstate res" where
  "doDec env s =
     res_bind (Top s (cur_frame s)) (\<lambda>val.
     res_bind (count_value (dbl_sub env) (-1) val s) (\<lambda>(v, s1). SetTop (cur_frame s1) v s1))"

definition doIncField :: "vmenv \<Rightarrow> byte \<Rightarrow> vmstate \<Rightarrow> vmstate res" where
  "doIncField env fieldIndex s =
     res_bind (GetSelf s) (\<lambda>self.
     res_bind (field_of_self s self (unat fieldIndex)) (\<lambda>val.
     res_bind (count_value (dbl_add env) 1 val s) (\<lambda>(v, s1).
       SetField (AS_OBJ self) (unat fieldIndex) v s1)))"

definition doIncFieldPush :: "vmenv \<Rightarrow> byte \<Rightarrow> vmstate \<Rightarrow> vmstate res" where
  "doIncFieldPush env fieldIndex s =
     res_bind (GetSelf s) (\<lambda>self.
     res_bind (field_of_self s self (unat fieldIndex)) (\<lambda>val.
     res_bind (count_value (dbl_add env) 1 val s) (\<lambda>(v, s1).
     res_bind (SetField (AS_OBJ self) (unat fieldIndex) v s1) (\<lambda>s2.
       Push (cur_frame s2) v s2))))"

definition checkIsGreater :: "vmenv \<Rightarrow> vmstate \<Rightarrow> bool res" where
  "checkIsGreater env s =
     res_bind (Top s (cur_frame s)) (\<lambda>top.
     res_bind (Top2 s (cur_frame s)) (\<lambda>top2.
       case (top, top2) of
         (SmallInt x, SmallInt y) \<Rightarrow> Inr (x > y)
       | _ \<Rightarrow> (case (double_at s top, double_at s top2) of
                (Some d, Some e) \<Rightarrow> Inr (dbl_gt env d e)
              | _ \<Rightarrow> Inr False)))"

subsection \<open>Jumps\<close>

definition skip_jump :: "vmstate \<Rightarrow> vmstate" where
  "skip_jump s = s\<lparr>pc := pc s + 3\<rparr>"

definition take_jump :: "nat \<Rightarrow> vmstate \<Rightarrow> vmstate" where
  "take_jump offset s = s\<lparr>pc := pc s + offset\<rparr>"

text \<open>Jump on a condition and pop the tested value.\<close>

definition jump_pop :: "(oop \<Rightarrow> bool) \<Rightarrow> nat \<Rightarrow> vmstate \<Rightarrow> vmstate res" where
  "jump_pop cond offset s =
     res_bind (Top s (cur_frame s)) (\<lambda>val.
       PopVoid (cur_frame s) (if cond val then take_jump offset s else skip_jump s))"

text \<open>Jump on a condition and leave nil, or pop the tested value.\<close>

definition jump_top_nil :: "(oop \<Rightarrow> bool) \<Rightarrow> nat \<Rightarrow> vmstate \<Rightarrow> vmstate res" where
  "jump_top_nil cond offset s =
     res_bind (Top s (cur_frame s)) (\<lambda>val.
       if cond val then SetTop (cur_frame s) nilObject (take_jump offset s)
       else res_bind (PopVoid (cur_frame s) s) (\<lambda>s1. Inr (skip_jump s1)))"

text \<open>Jump on a condition and leave the tested value, or pop it.\<close>

definition jump_top_top :: "(oop \<Rightarrow> bool) \<Rightarrow> nat \<Rightarrow> vmstate \<Rightarrow> vmstate res" where
  "jump_top_top cond offset s =
     res_bind (Top s (cur_frame s)) (\<lambda>val.
       if cond val then Inr (take_jump offset s)
       else res_bind (PopVoid (cur_frame s) s) (\<lambda>s1. Inr (skip_jump s1)))"

definition jump_if_greater :: "vmenv \<Rightarrow> nat \<Rightarrow> vmstate \<Rightarrow> vmstate res" where
  "jump_if_greater env offset s =
     res_bind (checkIsGreater env s) (\<lambda>greater.
       if greater then res_bind (PopN 2 (cur_frame s) (take_jump offset s)) (\<lambda>(_, s1). Inr s1)
       else Inr (skip_jump s))"

definition jump_backward :: "nat \<Rightarrow> vmstate \<Rightarrow> vmstate res" where
  "jump_backward offset s =
     (if offset \<le> pc s then Inr (s\<lparr>pc := pc s - offset\<rparr>) else Inl (Undefined ''jump before the method''))"

definition exec_jump_by :: "vmenv \<Rightarrow> byte \<Rightarrow> nat \<Rightarrow> vmstate \<Rightarrow> vmstate res" where
  "exec_jump_by env bc offset s =
     (if bc = BC_JUMP then Inr (take_jump offset s)
      else if bc = BC_JUMP_ON_FALSE_POP then jump_pop (\<lambda>v. v = falseObject) offset s
      else if bc = BC_JUMP_ON_TRUE_POP then jump_pop (\<lambda>v. v = trueObject) offset s
      else if bc = BC_JUMP_ON_FALSE_TOP_NIL then jump_top_nil (\<lambda>v. v = falseObject) offset s
      else if bc = BC_JUMP_ON_TRUE_TOP_NIL then jump_top_nil (\<lambda>v. v = trueObject) offset s
      else if bc = BC_JUMP_ON_NOT_NIL_POP then jump_pop (\<lambda>v. v \<noteq> nilObject) offset s
      else if bc = BC_JUMP_ON_NIL_POP then jump_pop (\<lambda>v. v = nilObject) offset s
      else if bc = BC_JUMP_ON_NOT_NIL_TOP_TOP then jump_top_top (\<lambda>v. v \<noteq> nilObject) offset s
      else if bc = BC_JUMP_ON_NIL_TOP_TOP then jump_top_top (\<lambda>v. v = nilObject) offset s
      else if bc = BC_JUMP_IF_GREATER then jump_if_greater env offset s
      else jump_backward offset s)"

definition exec_jump :: "vmenv \<Rightarrow> byte \<Rightarrow> byte \<Rightarrow> vmstate \<Rightarrow> vmstate res" where
  "exec_jump env bc b1 s = exec_jump_by env bc (unat b1) s"

definition exec_jump2 :: "vmenv \<Rightarrow> byte \<Rightarrow> byte \<Rightarrow> byte \<Rightarrow> vmstate \<Rightarrow> vmstate res" where
  "exec_jump2 env bc b1 b2 s =
     (let offset = unat (ComputeOffset b1 b2) in
      if bc = BC_JUMP2 then Inr (take_jump offset s)
      else if bc = BC_JUMP2_ON_FALSE_POP then jump_pop (\<lambda>v. v = falseObject) offset s
      else if bc = BC_JUMP2_ON_TRUE_POP then jump_pop (\<lambda>v. v = trueObject) offset s
      else if bc = BC_JUMP2_ON_FALSE_TOP_NIL then jump_top_nil (\<lambda>v. v = falseObject) offset s
      else if bc = BC_JUMP2_ON_TRUE_TOP_NIL then jump_top_nil (\<lambda>v. v = trueObject) offset s
      else if bc = BC_JUMP2_ON_NOT_NIL_POP then jump_pop (\<lambda>v. v \<noteq> nilObject) offset s
      else if bc = BC_JUMP2_ON_NIL_POP then jump_pop (\<lambda>v. v = nilObject) offset s
      else if bc = BC_JUMP2_ON_NOT_NIL_TOP_TOP then jump_top_top (\<lambda>v. v \<noteq> nilObject) offset s
      else if bc = BC_JUMP2_ON_NIL_TOP_TOP then jump_top_top (\<lambda>v. v = nilObject) offset s
      else if bc = BC_JUMP2_IF_GREATER then jump_if_greater env offset s
      else jump_backward offset s)"

subsection \<open>The interpreter loop\<close>

text \<open>The pushes, pops and stores: what a bytecode other than a jump, send, return or halt does once the bytecode
  index is past it.\<close>

definition exec_simple :: "vmenv \<Rightarrow> byte \<Rightarrow> byte \<Rightarrow> byte \<Rightarrow> vmstate \<Rightarrow> vmstate res" where
  "exec_simple env bc b1 b2 s =
     (if bc = BC_DUP then doDup s
      else if bc = BC_DUP_SECOND then doDupSecond s
      else if bc = BC_PUSH_LOCAL then doPushLocal b1 b2 s
      else if bc = BC_PUSH_LOCAL_0 then doPushLocal 0 0 s
      else if bc = BC_PUSH_LOCAL_1 then doPushLocal 1 0 s
      else if bc = BC_PUSH_LOCAL_2 then doPushLocal 2 0 s
      else if bc = BC_PUSH_ARGUMENT then doPushArgument b1 b2 s
      else if bc = BC_PUSH_SELF then doPushArgument 0 0 s
      else if bc = BC_PUSH_ARG_1 then doPushArgument 1 0 s
      else if bc = BC_PUSH_ARG_2 then doPushArgument 2 0 s
      else if bc = BC_PUSH_FIELD then doPushFieldWithIndex b1 s
      else if bc = BC_PUSH_FIELD_0 then doPushFieldWithIndex 0 s
      else if bc = BC_PUSH_FIELD_1 then doPushFieldWithIndex 1 s
      else if bc = BC_PUSH_BLOCK then doPushBlock b1 s
      else if bc = BC_PUSH_CONSTANT then doPushConstant b1 s
      else if bc = BC_PUSH_CONSTANT_0 then doPushConstant 0 s
      else if bc = BC_PUSH_CONSTANT_1 then doPushConstant 1 s
      else if bc = BC_PUSH_CONSTANT_2 then doPushConstant 2 s
      else if bc = BC_PUSH_0 then push_int 0 s
      else if bc = BC_PUSH_1 then push_int 1 s
      else if bc = BC_PUSH_NIL then Push (cur_frame s) nilObject s
      else if bc = BC_PUSH_GLOBAL then doPushGlobal env b1 s
      else if bc = BC_POP then doPop s
      else if bc = BC_POP_LOCAL then doPopLocal b1 b2 s
      else if bc = BC_POP_LOCAL_0 then doPopLocal 0 0 s
      else if bc = BC_POP_LOCAL_1 then doPopLocal 1 0 s
      else if bc = BC_POP_LOCAL_2 then doPopLocal 2 0 s
      else if bc = BC_POP_ARGUMENT then doPopArgument b1 b2 s
      else if bc = BC_POP_FIELD then doPopFieldWithIndex b1 s
      else if bc = BC_POP_FIELD_0 then doPopFieldWithIndex 0 s
      else if bc = BC_POP_FIELD_1 then doPopFieldWithIndex 1 s
      else if bc = BC_INC then doInc env s
      else if bc = BC_DEC then doDec env s
      else if bc = BC_INC_FIELD then doIncField env b1 s
      else if bc = BC_INC_FIELD_PUSH then doIncFieldPush env b1 s
      else Inl (Undefined ''not a bytecode''))"

definition exec_call :: "vmenv \<Rightarrow> byte \<Rightarrow> byte \<Rightarrow> vmstate \<Rightarrow> vmstate res" where
  "exec_call env bc b1 s =
     (if bc = BC_SEND then doSend env b1 s
      else if bc = BC_SEND_1 then doUnarySend env b1 s
      else if bc = BC_SUPER_SEND then doSuperSend env b1 s
      else if bc = BC_RETURN_LOCAL then doReturnLocal s
      else if bc = BC_RETURN_NON_LOCAL then doReturnNonLocal env s
      else if bc = BC_RETURN_SELF then doReturnSelf s
      else if bc = BC_RETURN_FIELD_0 then doReturnFieldWithIndex 0 s
      else if bc = BC_RETURN_FIELD_1 then doReturnFieldWithIndex 1 s
      else doReturnFieldWithIndex 2 s)"

definition is_call :: "byte \<Rightarrow> bool" where
  "is_call bc = (BC_SEND \<le> bc \<and> bc \<le> BC_RETURN_FIELD_2)"

definition operand :: "byte list \<Rightarrow> nat \<Rightarrow> byte" where
  "operand ins i = (if i < length ins then ins ! i else 0)"

text \<open>One instruction. Every bytecode but the jumps moves the bytecode index past itself first.\<close>

definition exec :: "vmenv \<Rightarrow> byte list \<Rightarrow> vmstate \<Rightarrow> vmstate res" where
  "exec env ins s =
     (let bc = operand ins 0 in
      if BC_JUMP2 \<le> bc then exec_jump2 env bc (operand ins 1) (operand ins 2) s
      else if BC_JUMP \<le> bc then exec_jump env bc (operand ins 1) s
      else if is_call bc then exec_call env bc (operand ins 1) (s\<lparr>pc := pc s + length ins\<rparr>)
      else exec_simple env bc (operand ins 1) (operand ins 2) (s\<lparr>pc := pc s + length ins\<rparr>))"

datatype outcome = Running vmstate | Halted oop vmstate

definition fetch :: "vmstate \<Rightarrow> byte list res" where
  "fetch s =
     res_bind (current_method s) (\<lambda>m.
       if pc s < length (m_bytecodes m) then
         (let bc = m_bytecodes m ! pc s; n = GetBytecodeLength bc in
          if valid_opcode bc \<and> pc s + n \<le> length (m_bytecodes m) then Inr (take n (drop (pc s) (m_bytecodes m)))
          else Inl (Undefined ''no label for this bytecode''))
       else Inl (Undefined ''bytecode index out of range''))"

definition step :: "vmenv \<Rightarrow> vmstate \<Rightarrow> outcome res" where
  "step env s =
     res_bind (fetch s) (\<lambda>ins.
       if operand ins 0 = BC_HALT then
         res_bind (GetStackElement s (cur_frame s) 0) (\<lambda>v. Inr (Halted v (s\<lparr>pc := pc s + 1\<rparr>)))
       else res_bind (exec env ins s) (\<lambda>s1. Inr (Running s1)))"

text \<open>\<open>Interpreter::Start\<close>: run until the halt bytecode.\<close>

fun Start :: "nat \<Rightarrow> vmenv \<Rightarrow> vmstate \<Rightarrow> (oop \<times> vmstate) option res" where
  "Start 0 env s = Inr None"
| "Start (Suc fuel) env s =
     res_bind (step env s) (\<lambda>r. case r of
        Halted v s1 \<Rightarrow> Inr (Some (v, s1))
      | Running s1 \<Rightarrow> Start fuel env s1)"

text \<open>A sequence of instructions that does not jump.\<close>

fun exec_seq :: "vmenv \<Rightarrow> byte list list \<Rightarrow> vmstate \<Rightarrow> vmstate res" where
  "exec_seq env [] s = Inr s"
| "exec_seq env (ins # rest) s = res_bind (exec env ins s) (exec_seq env rest)"

end
