(* ===== verification/MethodGen.thy ===== *)
theory MethodGen
  imports CodeObjects
begin

section \<open>Method generation context and bytecode generator\<close>

text \<open>
  \<open>src/compiler/MethodGenerationContext.cpp\<close> and \<open>src/compiler/BytecodeGenerator.cpp\<close>: the state the
  parser fills while it compiles a method, the emission of each bytecode, the peephole
  optimisations on the last emitted bytecodes, jump patching, and the assembly of methods and of
  trivial methods. The enclosing contexts of a block are the tail of a list whose head is the
  context being filled.
\<close>

record mgenc =
  holderGenc :: ClassGenerationContext
  maxContextLevel :: byte
  blockMethod :: bool
  signature :: string
  arguments :: "Variable list"
  primitive :: bool
  locals :: "Variable list"
  literals :: "literal list"
  finished :: bool
  bytecode :: "byte list"
  lexicalScope :: "nat option"
  currentStackDepth :: u64
  maxStackDepth :: u64
  last4Bytecodes :: "byte list"
  inlinedLoops :: "(nat \<times> nat) list"
  isCurrentlyInliningABlock :: bool

datatype JumpCondition = ON_TRUE | ON_FALSE | ON_NIL | ON_NOT_NIL

definition NewMethodGenerationContext :: "ClassGenerationContext \<Rightarrow> mgenc option \<Rightarrow> mgenc" where
  "NewMethodGenerationContext holder outer =
     \<lparr>holderGenc = holder,
      maxContextLevel = (case outer of None \<Rightarrow> 0 | Some o' \<Rightarrow> maxContextLevel o' + 1),
      blockMethod = (outer \<noteq> None),
      signature = '''', arguments = [], primitive = False, locals = [], literals = [],
      finished = False, bytecode = [], lexicalScope = None,
      currentStackDepth = 0, maxStackDepth = 0,
      last4Bytecodes = [BC_INVALID, BC_INVALID, BC_INVALID, BC_INVALID],
      inlinedLoops = [], isCurrentlyInliningABlock = False\<rparr>"

subsection \<open>Variables, literals and flags\<close>

definition FindLiteralIndex :: "literal \<Rightarrow> mgenc \<Rightarrow> byte" where
  "FindLiteralIndex lit m = word_of_int (IndexOf (literals m) lit)"

definition GetFieldIndex :: "string \<Rightarrow> mgenc \<Rightarrow> int" where
  "GetFieldIndex field m = cgenc_GetFieldIndex field (holderGenc m)"

definition HasField :: "string \<Rightarrow> mgenc \<Rightarrow> bool" where
  "HasField field m = cgenc_HasField field (holderGenc m)"

fun ContainsNamed :: "Variable list \<Rightarrow> string \<Rightarrow> bool" where
  "ContainsNamed [] n = False"
| "ContainsNamed (v # vs) n = (if IsNamed v n then True else ContainsNamed vs n)"

fun IndexOfNamed_from :: "int \<Rightarrow> Variable list \<Rightarrow> string \<Rightarrow> int" where
  "IndexOfNamed_from i [] n = -1"
| "IndexOfNamed_from i (v # vs) n = (if IsNamed v n then i else IndexOfNamed_from (i + 1) vs n)"

definition IndexOfNamed :: "Variable list \<Rightarrow> string \<Rightarrow> int" where
  "IndexOfNamed vs n = IndexOfNamed_from 0 vs n"

text \<open>\<open>FindVar\<close> answers the index, the context level and whether the variable is an argument, or
  nothing when no enclosing context has a variable of that name.\<close>

fun FindVar :: "mgenc list \<Rightarrow> string \<Rightarrow> nat \<Rightarrow> (int \<times> nat \<times> bool) option" where
  "FindVar [] var context = None"
| "FindVar (m # outers) var context =
     (let index = IndexOfNamed (locals m) var in
      if index = -1 then
        (let index = IndexOfNamed (arguments m) var in
         if index = -1 then FindVar outers var (context + 1)
         else Some (index, context, True))
      else Some (index, context, False))"

definition mgenc_NumberOfArguments :: "mgenc \<Rightarrow> byte" where
  "mgenc_NumberOfArguments m = of_nat (length (arguments m))"

definition SetSignature :: "string \<Rightarrow> mgenc \<Rightarrow> mgenc" where
  "SetSignature sig m = m\<lparr>signature := sig\<rparr>"

definition SetPrimitive :: "bool \<Rightarrow> mgenc \<Rightarrow> mgenc" where
  "SetPrimitive prim m = m\<lparr>primitive := prim\<rparr>"

definition AddArgument :: "string \<Rightarrow> SourceCoordinate \<Rightarrow> mgenc \<Rightarrow> mgenc res" where
  "AddArgument arg coord m =
     (if ContainsNamed (arguments m) arg
      then Inl (ParseError (''A method cannot have two arguments with the same name `'' @ arg @
             ''` in class '' @ cname (holderGenc m)))
      else Inr (m\<lparr>arguments := arguments m @ [MakeVariable arg (length (arguments m)) True coord]\<rparr>))"

definition AddLocal :: "string \<Rightarrow> SourceCoordinate \<Rightarrow> mgenc \<Rightarrow> mgenc" where
  "AddLocal l coord m = m\<lparr>locals := locals m @ [MakeVariable l (length (locals m)) False coord]\<rparr>"

definition AddLocalIfAbsent :: "string \<Rightarrow> SourceCoordinate \<Rightarrow> mgenc \<Rightarrow> bool \<times> mgenc" where
  "AddLocalIfAbsent l coord m =
     (if ContainsNamed (locals m) l then (False, m) else (True, AddLocal l coord m))"

definition AddLiteral :: "literal \<Rightarrow> mgenc \<Rightarrow> (byte \<times> mgenc) res" where
  "AddLiteral lit m =
     (let index = length (literals m) in
      if index > 127 then Inl (ParseError ''The method has too many literals.'')
      else Inr (of_nat index, m\<lparr>literals := literals m @ [lit]\<rparr>))"

definition AddLiteralIfAbsent :: "literal \<Rightarrow> mgenc \<Rightarrow> (byte \<times> mgenc) res" where
  "AddLiteralIfAbsent lit m =
     (let idx = IndexOf (literals m) lit in
      if idx \<noteq> -1 then Inr (word_of_int idx, m) else AddLiteral lit m)"

definition UpdateLiteral :: "literal \<Rightarrow> byte \<Rightarrow> literal \<Rightarrow> mgenc \<Rightarrow> mgenc res" where
  "UpdateLiteral oldValue index newValue m =
     (if length (literals m) \<le> unat index then Inl (ErrorExit ''vector::at'')
      else if literals m ! unat index \<noteq> oldValue then Inl (AssertFailed ''literals.at(index) == oldValue'')
      else Inr (m\<lparr>literals := (literals m)[unat index := newValue]\<rparr>))"

definition MarkFinished :: "mgenc \<Rightarrow> mgenc" where
  "MarkFinished m = m\<lparr>finished := True\<rparr>"

definition HasBytecodes :: "mgenc \<Rightarrow> bool" where
  "HasBytecodes m \<longleftrightarrow> bytecode m \<noteq> []"

abbreviation OffsetOfNextInstruction :: "mgenc \<Rightarrow> nat" where
  "OffsetOfNextInstruction m \<equiv> length (bytecode m)"

subsection \<open>The bytecode vector and the buffer of the last four bytecodes\<close>

definition AddBytecode :: "byte \<Rightarrow> int \<Rightarrow> mgenc \<Rightarrow> mgenc" where
  "AddBytecode bc stackEffect m =
     (let depth = currentStackDepth m + word_of_int stackEffect in
      m\<lparr>currentStackDepth := depth,
        maxStackDepth := max (maxStackDepth m) depth,
        bytecode := bytecode m @ [bc],
        last4Bytecodes := [last4Bytecodes m ! 1, last4Bytecodes m ! 2, last4Bytecodes m ! 3, bc]\<rparr>)"

definition AddBytecodeArgument :: "byte \<Rightarrow> mgenc \<Rightarrow> mgenc" where
  "AddBytecodeArgument arg m = m\<lparr>bytecode := bytecode m @ [arg]\<rparr>"

definition AddBytecodeArgumentAndGetIndex :: "byte \<Rightarrow> mgenc \<Rightarrow> nat \<times> mgenc" where
  "AddBytecodeArgumentAndGetIndex bc m = (length (bytecode m), AddBytecodeArgument bc m)"

definition lastBytecodeAt :: "nat \<Rightarrow> mgenc \<Rightarrow> byte" where
  "lastBytecodeAt indexFromEnd m = last4Bytecodes m ! (3 - indexFromEnd)"

definition LastBytecodeIs :: "nat \<Rightarrow> byte \<Rightarrow> mgenc \<Rightarrow> bool" where
  "LastBytecodeIs indexFromEnd bc m \<longleftrightarrow> last4Bytecodes m ! (3 - indexFromEnd) = bc"

definition lastBytecodeIsOneOf :: "nat \<Rightarrow> (byte \<Rightarrow> byte) \<Rightarrow> mgenc \<Rightarrow> byte" where
  "lastBytecodeIsOneOf indexFromEnd predicate m = predicate (last4Bytecodes m ! (3 - indexFromEnd))"

definition resetLastBytecodeBuffer :: "mgenc \<Rightarrow> mgenc" where
  "resetLastBytecodeBuffer m =
     m\<lparr>last4Bytecodes := [BC_INVALID, BC_INVALID, BC_INVALID, BC_INVALID]\<rparr>"

fun bytes_of_last :: "nat \<Rightarrow> byte list \<Rightarrow> nat" where
  "bytes_of_last 0 l4 = 0"
| "bytes_of_last (Suc n) l4 = bytes_of_last n l4 + GetBytecodeLength (l4 ! (3 - n))"

text \<open>\<open>removeLastBytecodes\<close> erases the bytes of the last \<open>n\<close> bytecodes of the buffer; the buffer is left
  to the caller.\<close>

definition removeLastBytecodes :: "nat \<Rightarrow> mgenc \<Rightarrow> mgenc res" where
  "removeLastBytecodes n m =
     (let bytesToRemove = bytes_of_last n (last4Bytecodes m) in
      if bytesToRemove \<le> length (bytecode m)
      then Inr (m\<lparr>bytecode := take (length (bytecode m) - bytesToRemove) (bytecode m)\<rparr>)
      else Inl (Undefined ''bytecode.erase''))"

fun getOffsetOfLastBytecode_loop :: "nat \<Rightarrow> nat \<Rightarrow> byte list \<Rightarrow> int \<Rightarrow> int res" where
  "getOffsetOfLastBytecode_loop i n l4 bcOffset =
     (case n of
        0 \<Rightarrow> Inr bcOffset
      | Suc n' \<Rightarrow>
          if l4 ! (3 - i) = BC_INVALID then Inl (ErrorExit ''The requested bytecode is invalid'')
          else getOffsetOfLastBytecode_loop (i + 1) n' l4 (bcOffset - int (GetBytecodeLength (l4 ! (3 - i)))))"

definition getOffsetOfLastBytecode :: "nat \<Rightarrow> mgenc \<Rightarrow> int res" where
  "getOffsetOfLastBytecode indexFromEnd m =
     getOffsetOfLastBytecode_loop 0 (indexFromEnd + 1) (last4Bytecodes m) (int (length (bytecode m)))"

definition removeLastBytecodeAt :: "nat \<Rightarrow> mgenc \<Rightarrow> mgenc res" where
  "removeLastBytecodeAt indexFromEnd m =
     res_bind (getOffsetOfLastBytecode indexFromEnd m) (\<lambda>bcOffset.
       let bcLength = GetBytecodeLength (last4Bytecodes m ! (3 - indexFromEnd)) in
       if 0 \<le> bcOffset \<and> nat bcOffset + bcLength \<le> length (bytecode m)
       then Inr (m\<lparr>bytecode := take (nat bcOffset) (bytecode m) @ drop (nat bcOffset + bcLength) (bytecode m)\<rparr>)
       else Inl (Undefined ''bytecode.erase''))"

subsection \<open>Emission\<close>

definition Emit1 :: "byte \<Rightarrow> int \<Rightarrow> mgenc \<Rightarrow> mgenc" where
  "Emit1 bc stackEffect m = AddBytecode bc stackEffect m"

definition Emit2 :: "byte \<Rightarrow> byte \<Rightarrow> int \<Rightarrow> mgenc \<Rightarrow> mgenc" where
  "Emit2 bc idx stackEffect m = AddBytecodeArgument idx (AddBytecode bc stackEffect m)"

definition Emit3 :: "byte \<Rightarrow> byte \<Rightarrow> byte \<Rightarrow> int \<Rightarrow> mgenc \<Rightarrow> mgenc" where
  "Emit3 bc idx ctx stackEffect m =
     AddBytecodeArgument ctx (AddBytecodeArgument idx (AddBytecode bc stackEffect m))"

definition Emit3WithDummy :: "byte \<Rightarrow> int \<Rightarrow> mgenc \<Rightarrow> nat \<times> mgenc" where
  "Emit3WithDummy bc stackEffect m =
     (let (index, m1) = AddBytecodeArgumentAndGetIndex 0 (AddBytecode bc stackEffect m)
      in (index, AddBytecodeArgument 0 m1))"

definition EmitHALT :: "mgenc \<Rightarrow> mgenc" where
  "EmitHALT = Emit1 BC_HALT 0"

definition EmitDUP :: "mgenc \<Rightarrow> mgenc" where
  "EmitDUP = Emit1 BC_DUP 1"

abbreviation too_many_locals :: vm_error where
  "too_many_locals \<equiv> ParseError ''The method has too many local variables.''"
abbreviation too_many_arguments :: vm_error where
  "too_many_arguments \<equiv> ParseError ''The method has too many arguments.''"
abbreviation too_deeply_nested :: vm_error where
  "too_deeply_nested \<equiv> ParseError ''This block is too deeply nested.''"

definition EmitPUSHLOCAL :: "nat \<Rightarrow> nat \<Rightarrow> mgenc \<Rightarrow> mgenc res" where
  "EmitPUSHLOCAL index context m =
     (if index > 255 then Inl too_many_locals
      else if context > 255 then Inl too_deeply_nested
      else Inr
       (if context = 0 \<and> index = 0 then Emit1 BC_PUSH_LOCAL_0 1 m
        else if context = 0 \<and> index = 1 then Emit1 BC_PUSH_LOCAL_1 1 m
        else if context = 0 \<and> index = 2 then Emit1 BC_PUSH_LOCAL_2 1 m
        else Emit3 BC_PUSH_LOCAL (of_nat index) (of_nat context) 1 m))"

definition EmitPUSHARGUMENT :: "nat \<Rightarrow> nat \<Rightarrow> mgenc \<Rightarrow> mgenc res" where
  "EmitPUSHARGUMENT index context m =
     (if index > 255 then Inl too_many_arguments
      else if context > 255 then Inl too_deeply_nested
      else Inr
       (if context = 0 \<and> index = 0 then Emit1 BC_PUSH_SELF 1 m
        else if context = 0 \<and> index = 1 then Emit1 BC_PUSH_ARG_1 1 m
        else if context = 0 \<and> index = 2 then Emit1 BC_PUSH_ARG_2 1 m
        else Emit3 BC_PUSH_ARGUMENT (of_nat index) (of_nat context) 1 m))"

definition EmitPushFieldWithIndex :: "byte \<Rightarrow> mgenc \<Rightarrow> mgenc" where
  "EmitPushFieldWithIndex fieldIdx m =
     (if fieldIdx = 0 then Emit1 BC_PUSH_FIELD_0 1 m
      else if fieldIdx = 1 then Emit1 BC_PUSH_FIELD_1 1 m
      else Emit2 BC_PUSH_FIELD fieldIdx 1 m)"

definition EmitPopFieldWithIndex :: "byte \<Rightarrow> mgenc \<Rightarrow> mgenc" where
  "EmitPopFieldWithIndex fieldIdx m =
     (if fieldIdx = 0 then Emit1 BC_POP_FIELD_0 (-1) m
      else if fieldIdx = 1 then Emit1 BC_POP_FIELD_1 (-1) m
      else Emit2 BC_POP_FIELD fieldIdx (-1) m)"

abbreviation field_not_found :: "string \<Rightarrow> mgenc \<Rightarrow> vm_error" where
  "field_not_found field m \<equiv> ParseError (''The method tries to access the field '' @ field @
     '', which was not found in the class '' @ cname (holderGenc m) @ ''.'')"
abbreviation too_many_fields :: vm_error where
  "too_many_fields \<equiv> ParseError ''The method tries to access a field that cannot be represented''"

definition EmitPUSHFIELD :: "string \<Rightarrow> mgenc \<Rightarrow> mgenc res" where
  "EmitPUSHFIELD field m =
     (let idx = GetFieldIndex field m in
      if idx < 0 then Inl (field_not_found field m)
      else if idx > 255 then Inl too_many_fields
      else Inr (EmitPushFieldWithIndex (word_of_int idx) m))"

definition EmitPUSHBLOCK :: "literal \<Rightarrow> mgenc \<Rightarrow> mgenc res" where
  "EmitPUSHBLOCK block m =
     res_bind (AddLiteralIfAbsent block m) (\<lambda>(idx, m1). Inr (Emit2 BC_PUSH_BLOCK idx 1 m1))"

definition EmitPUSHCONSTANT :: "literal \<Rightarrow> mgenc \<Rightarrow> mgenc res" where
  "EmitPUSHCONSTANT cst m =
     (if cst = LInt 0 then Inr (Emit1 BC_PUSH_0 1 m)
      else if cst = LInt 1 then Inr (Emit1 BC_PUSH_1 1 m)
      else if cst = LNil then Inr (Emit1 BC_PUSH_NIL 1 m)
      else res_bind (AddLiteralIfAbsent cst m) (\<lambda>(idx, m1).
        Inr (if idx = 0 then Emit1 BC_PUSH_CONSTANT_0 1 m1
             else if idx = 1 then Emit1 BC_PUSH_CONSTANT_1 1 m1
             else if idx = 2 then Emit1 BC_PUSH_CONSTANT_2 1 m1
             else Emit2 BC_PUSH_CONSTANT idx 1 m1)))"

definition EmitPUSHCONSTANT_index :: "byte \<Rightarrow> mgenc \<Rightarrow> mgenc" where
  "EmitPUSHCONSTANT_index literalIndex m = Emit2 BC_PUSH_CONSTANT literalIndex 1 m"

definition EmitPUSHCONSTANTString :: "literal \<Rightarrow> mgenc \<Rightarrow> mgenc" where
  "EmitPUSHCONSTANTString str m = Emit2 BC_PUSH_CONSTANT (FindLiteralIndex str m) 1 m"

definition EmitPUSHGLOBAL :: "string \<Rightarrow> mgenc \<Rightarrow> mgenc res" where
  "EmitPUSHGLOBAL global m =
     (if global = ''nil'' then EmitPUSHCONSTANT LNil m
      else if global = ''true'' then EmitPUSHCONSTANT LTrue m
      else if global = ''false'' then EmitPUSHCONSTANT LFalse m
      else res_bind (AddLiteralIfAbsent (LSym global) m) (\<lambda>(idx, m1).
        Inr (Emit2 BC_PUSH_GLOBAL idx 1 m1)))"

subsection \<open>Peephole optimisations\<close>

definition EmitIncFieldPush :: "byte \<Rightarrow> mgenc \<Rightarrow> mgenc" where
  "EmitIncFieldPush fieldIdx m = Emit2 BC_INC_FIELD_PUSH fieldIdx 1 m"

definition optimizeIncFieldPush :: "mgenc \<Rightarrow> (bool \<times> mgenc) res" where
  "optimizeIncFieldPush m =
     (if length (bytecode m) < 2 then Inl (Undefined ''bytecode[bcIdx]'')
      else Inr (True, m\<lparr>bytecode := (bytecode m)[length (bytecode m) - 2 := BC_INC_FIELD],
                        last4Bytecodes := (last4Bytecodes m)[3 := BC_INC_FIELD]\<rparr>))"

definition OptimizeDupPopPopSequence :: "mgenc \<Rightarrow> (bool \<times> mgenc) res" where
  "OptimizeDupPopPopSequence m =
     (if isCurrentlyInliningABlock m then Inr (False, m)
      else if LastBytecodeIs 0 BC_INC_FIELD_PUSH m then optimizeIncFieldPush m
      else if lastBytecodeIsOneOf 0 IsPopSmthBytecode m = BC_INVALID then Inr (False, m)
      else if \<not> LastBytecodeIs 1 BC_DUP m then Inr (False, m)
      else res_bind (removeLastBytecodeAt 1 m) (\<lambda>m1.
        Inr (True, m1\<lparr>last4Bytecodes :=
          [BC_INVALID, last4Bytecodes m1 ! 0, last4Bytecodes m1 ! 1, last4Bytecodes m1 ! 3]\<rparr>)))"

definition OptimizeIncField :: "byte \<Rightarrow> mgenc \<Rightarrow> (bool \<times> mgenc) res" where
  "OptimizeIncField fieldIdx m =
     (if isCurrentlyInliningABlock m then Inr (False, m)
      else if \<not> LastBytecodeIs 0 BC_DUP m then Inr (False, m)
      else if \<not> LastBytecodeIs 1 BC_INC m then Inr (False, m)
      else
        (let pushCandidate = lastBytecodeIsOneOf 2 IsPushFieldBytecode m;
             bcOffset = 1 + 1 + GetBytecodeLength pushCandidate in
         if pushCandidate = BC_INVALID then Inr (False, m)
         else if pushCandidate = BC_PUSH_FIELD \<and> length (bytecode m) < bcOffset
         then Inl (ErrorExit ''vector::at'')
         else
           (let candidateFieldIdx =
                  (if pushCandidate = BC_PUSH_FIELD_0 then 0
                   else if pushCandidate = BC_PUSH_FIELD_1 then 1
                   else bytecode m ! (length (bytecode m) - bcOffset + 1)) in
            if candidateFieldIdx = fieldIdx then
              res_bind (removeLastBytecodes 3 m) (\<lambda>m1.
                Inr (True, EmitIncFieldPush fieldIdx (resetLastBytecodeBuffer m1)))
            else Inr (False, m))))"

definition EmitRETURNFIELD :: "nat \<Rightarrow> mgenc \<Rightarrow> mgenc res" where
  "EmitRETURNFIELD index m =
     (if index > 2 then Inl (ParseError ''Internal Error: EmitRETURNFIELD has unsupported argument'')
      else Inr (Emit1 (if index = 0 then BC_RETURN_FIELD_0
                       else if index = 1 then BC_RETURN_FIELD_1
                       else BC_RETURN_FIELD_2) 0 m))"

definition OptimizeReturnField :: "mgenc \<Rightarrow> (bool \<times> mgenc) res" where
  "OptimizeReturnField m =
     (if isCurrentlyInliningABlock m then Inr (False, m)
      else
        (let bc = lastBytecodeAt 0 m in
         if bc \<noteq> BC_PUSH_FIELD_0 \<and> bc \<noteq> BC_PUSH_FIELD_1 \<and> bc \<noteq> BC_PUSH_FIELD then Inr (False, m)
         else if bc = BC_PUSH_FIELD \<and> bytecode m = [] then Inl (ErrorExit ''vector::at'')
         else
           (let index = (if bc = BC_PUSH_FIELD_0 then 0 else if bc = BC_PUSH_FIELD_1 then 1
                         else unat (last (bytecode m))) in
            if index > 2 then Inr (False, m)
            else
              res_bind (removeLastBytecodes 1 m) (\<lambda>m1.
              res_bind (EmitRETURNFIELD index (resetLastBytecodeBuffer m1)) (\<lambda>m2.
                Inr (True, m2))))))"

definition RemoveLastPopForBlockLocalReturn :: "mgenc \<Rightarrow> mgenc res" where
  "RemoveLastPopForBlockLocalReturn m =
     (if LastBytecodeIs 0 BC_POP m then
        (if bytecode m = [] then Inl (Undefined ''pop_back'') else Inr (m\<lparr>bytecode := butlast (bytecode m)\<rparr>))
      else
        res_bind
          (if lastBytecodeIsOneOf 0 IsPopSmthBytecode m \<noteq> BC_INVALID \<and> \<not> LastBytecodeIs 1 BC_DUP m then
             (let len = GetBytecodeLength (lastBytecodeAt 0 m) in
              if length (bytecode m) < len then Inl (Undefined ''bytecode.insert'')
              else
                (let index = length (bytecode m) - len in
                 Inr (m\<lparr>bytecode := take index (bytecode m) @ BC_DUP # drop index (bytecode m),
                        last4Bytecodes := [last4Bytecodes m ! 1, last4Bytecodes m ! 2, BC_DUP, last4Bytecodes m ! 3]\<rparr>)))
           else Inr m)
          (\<lambda>m1.
             if lastBytecodeAt 0 m1 = BC_INC_FIELD then
               (if length (bytecode m1) < 2 then Inl (Undefined ''bytecode[bcOffset]'')
                else
                  (let depth = currentStackDepth m1 + 1 in
                   Inr (m1\<lparr>last4Bytecodes := (last4Bytecodes m1)[3 := BC_INC_FIELD_PUSH],
                           bytecode := (bytecode m1)[length (bytecode m1) - 2 := BC_INC_FIELD_PUSH],
                           currentStackDepth := depth,
                           maxStackDepth := max (maxStackDepth m1) depth\<rparr>)))
             else Inr m1))"

subsection \<open>Emission with optimisation\<close>

definition EmitPOP :: "mgenc \<Rightarrow> mgenc res" where
  "EmitPOP m =
     res_bind (OptimizeDupPopPopSequence m) (\<lambda>(optimized, m1).
       Inr (if optimized then m1 else Emit1 BC_POP (-1) m1))"

definition EmitPOPLOCAL :: "nat \<Rightarrow> nat \<Rightarrow> mgenc \<Rightarrow> mgenc res" where
  "EmitPOPLOCAL index context m =
     (if index > 255 then Inl too_many_locals
      else if context > 255 then Inl too_deeply_nested
      else Inr
       (if context = 0 \<and> index = 0 then Emit1 BC_POP_LOCAL_0 (-1) m
        else if context = 0 \<and> index = 1 then Emit1 BC_POP_LOCAL_1 (-1) m
        else if context = 0 \<and> index = 2 then Emit1 BC_POP_LOCAL_2 (-1) m
        else Emit3 BC_POP_LOCAL (of_nat index) (of_nat context) (-1) m))"

definition EmitPOPARGUMENT :: "nat \<Rightarrow> nat \<Rightarrow> mgenc \<Rightarrow> mgenc res" where
  "EmitPOPARGUMENT idx ctx m =
     (if idx > 255 then Inl too_many_arguments
      else if ctx > 255 then Inl too_deeply_nested
      else Inr (Emit3 BC_POP_ARGUMENT (of_nat idx) (of_nat ctx) (-1) m))"

definition EmitPOPFIELD :: "string \<Rightarrow> mgenc \<Rightarrow> mgenc res" where
  "EmitPOPFIELD field m =
     (let idx = GetFieldIndex field m in
      if idx < 0 then Inl (field_not_found field m)
      else if idx > 255 then Inl too_many_fields
      else res_bind (OptimizeIncField (word_of_int idx) m) (\<lambda>(optimized, m1).
        Inr (if optimized then m1 else EmitPopFieldWithIndex (word_of_int idx) m1)))"

definition send_stack_effect :: "string \<Rightarrow> int" where
  "send_stack_effect msg = - uint (GetNumberOfArguments msg) + 1"

definition EmitSEND :: "string \<Rightarrow> mgenc \<Rightarrow> mgenc res" where
  "EmitSEND msg m =
     res_bind (AddLiteralIfAbsent (LSym msg) m) (\<lambda>(idx, m1).
       Inr (Emit2 (if GetNumberOfArguments msg = 1 then BC_SEND_1 else BC_SEND) idx
              (send_stack_effect msg) m1))"

definition EmitSUPERSEND :: "string \<Rightarrow> mgenc \<Rightarrow> mgenc res" where
  "EmitSUPERSEND msg m =
     res_bind (AddLiteralIfAbsent (LSym msg) m) (\<lambda>(idx, m1).
       Inr (Emit2 BC_SUPER_SEND idx (send_stack_effect msg) m1))"

definition EmitRETURNSELF :: "mgenc \<Rightarrow> mgenc res" where
  "EmitRETURNSELF m =
     res_bind (OptimizeDupPopPopSequence m) (\<lambda>(_, m1). Inr (Emit1 BC_RETURN_SELF 0 m1))"

definition EmitRETURNLOCAL :: "mgenc \<Rightarrow> mgenc res" where
  "EmitRETURNLOCAL m =
     res_bind (OptimizeReturnField m) (\<lambda>(optimized, m1).
       Inr (if optimized then m1 else Emit1 BC_RETURN_LOCAL 0 m1))"

definition EmitRETURNNONLOCAL :: "mgenc \<Rightarrow> mgenc" where
  "EmitRETURNNONLOCAL = Emit1 BC_RETURN_NON_LOCAL 0"

definition EmitINC :: "mgenc \<Rightarrow> mgenc" where
  "EmitINC = Emit1 BC_INC 0"

definition EmitDEC :: "mgenc \<Rightarrow> mgenc" where
  "EmitDEC = Emit1 BC_DEC 0"

definition EmitDupSecond :: "mgenc \<Rightarrow> mgenc" where
  "EmitDupSecond = Emit1 BC_DUP_SECOND 1"

subsection \<open>Jumps\<close>

definition jump_bytecode :: "JumpCondition \<Rightarrow> bool \<Rightarrow> byte" where
  "jump_bytecode condition needsPop =
     (case condition of
        ON_TRUE \<Rightarrow> if needsPop then BC_JUMP_ON_TRUE_POP else BC_JUMP_ON_TRUE_TOP_NIL
      | ON_FALSE \<Rightarrow> if needsPop then BC_JUMP_ON_FALSE_POP else BC_JUMP_ON_FALSE_TOP_NIL
      | ON_NIL \<Rightarrow> if needsPop then BC_JUMP_ON_NIL_POP else BC_JUMP_ON_NIL_TOP_TOP
      | ON_NOT_NIL \<Rightarrow> if needsPop then BC_JUMP_ON_NOT_NIL_POP else BC_JUMP_ON_NOT_NIL_TOP_TOP)"

definition EmitJumpOnWithDummyOffset :: "JumpCondition \<Rightarrow> bool \<Rightarrow> mgenc \<Rightarrow> nat \<times> mgenc" where
  "EmitJumpOnWithDummyOffset condition needsPop m =
     (let m1 = Emit1 (jump_bytecode condition needsPop) (if needsPop then -1 else 0) m;
          (idx, m2) = AddBytecodeArgumentAndGetIndex 0 m1
      in (idx, AddBytecodeArgument 0 m2))"

definition EmitJumpWithDumyOffset :: "mgenc \<Rightarrow> nat \<times> mgenc" where
  "EmitJumpWithDumyOffset m =
     (let (idx, m1) = AddBytecodeArgumentAndGetIndex 0 (Emit1 BC_JUMP 0 m)
      in (idx, AddBytecodeArgument 0 m1))"

definition EmitJumpIfGreaterWithDummyOffset :: "mgenc \<Rightarrow> nat \<times> mgenc" where
  "EmitJumpIfGreaterWithDummyOffset m =
     (let (idx, m1) = AddBytecodeArgumentAndGetIndex 0 (Emit1 BC_JUMP_IF_GREATER 0 m)
      in (idx, AddBytecodeArgument 0 m1))"

definition EmitJumpBackwardWithOffset :: "nat \<Rightarrow> mgenc \<Rightarrow> mgenc" where
  "EmitJumpBackwardWithOffset jumpOffset m =
     Emit3 (if jumpOffset \<le> 255 then BC_JUMP_BACKWARD else BC_JUMP2_BACKWARD)
       (of_nat (jumpOffset mod 256)) (of_nat (jumpOffset div 256)) 0 m"

text \<open>The offset is a \<open>size_t\<close>: a target behind the jump wraps around to a huge offset, which is
  rejected like any offset above \<open>0xFFFF\<close>.\<close>

definition checkJumpOffset :: "int \<Rightarrow> byte \<Rightarrow> unit res" where
  "checkJumpOffset jumpOffset bc =
     (if jumpOffset mod 2 ^ 64 > 65535
      then Inl (ErrorExit (''The jumpOffset for the '' @ GetBytecodeName bc @ '' bytecode is out of range''))
      else Inr ())"

definition EmitBackwardsJumpOffsetToTarget :: "nat \<Rightarrow> mgenc \<Rightarrow> mgenc res" where
  "EmitBackwardsJumpOffsetToTarget loopBeginIdx m =
     (let jumpOffset = int (OffsetOfNextInstruction m) - int loopBeginIdx in
      res_bind (checkJumpOffset jumpOffset BC_JUMP_BACKWARD) (\<lambda>_.
        let backwardJumpIdx = OffsetOfNextInstruction m;
            m1 = EmitJumpBackwardWithOffset (nat (jumpOffset mod 2 ^ 64)) m
        in Inr (m1\<lparr>inlinedLoops := inlinedLoops m1 @ [(loopBeginIdx, backwardJumpIdx)]\<rparr>)))"

definition PatchJumpOffsetToPointToNextInstruction :: "nat \<Rightarrow> mgenc \<Rightarrow> mgenc res" where
  "PatchJumpOffsetToPointToNextInstruction indexOfOffset m =
     (if indexOfOffset = 0 \<or> indexOfOffset + 1 \<ge> length (bytecode m) then Inl (Undefined ''bytecode[indexOfOffset]'')
      else
        (let instructionStart = indexOfOffset - 1;
             bc = bytecode m ! instructionStart;
             jumpOffset = OffsetOfNextInstruction m - instructionStart in
         res_bind (checkJumpOffset (int jumpOffset) bc) (\<lambda>_.
           if jumpOffset \<le> 255 then
             Inr (m\<lparr>bytecode := (bytecode m)[indexOfOffset := of_nat jumpOffset, indexOfOffset + 1 := 0]\<rparr>)
           else
             Inr (m\<lparr>bytecode := (bytecode m)
                [instructionStart := (if bc < FIRST_DOUBLE_BYTE_JUMP_BYTECODE
                                      then bc + NUM_SINGLE_BYTE_JUMP_BYTECODES else bc),
                 indexOfOffset := of_nat (jumpOffset mod 256),
                 indexOfOffset + 1 := of_nat (jumpOffset div 256)]\<rparr>))))"

definition completeJumpsAndEmitReturningNil :: "nat \<Rightarrow> nat \<Rightarrow> mgenc \<Rightarrow> mgenc res" where
  "completeJumpsAndEmitReturningNil loopBeginIdx jumpOffsetIdxToSkipLoopBody m =
     res_bind (EmitPOP (resetLastBytecodeBuffer m)) (\<lambda>m1.
     res_bind (EmitBackwardsJumpOffsetToTarget loopBeginIdx m1) (\<lambda>m2.
     res_bind (PatchJumpOffsetToPointToNextInstruction jumpOffsetIdxToSkipLoopBody m2) (\<lambda>m3.
     res_bind (EmitPUSHCONSTANT LNil m3) (\<lambda>m4.
       Inr (resetLastBytecodeBuffer m4)))))"

subsection \<open>Assembly\<close>

definition assembleLiteralReturn :: "byte \<Rightarrow> mgenc \<Rightarrow> invokable option res" where
  "assembleLiteralReturn pushCandidate m =
     (if length (bytecode m) \<noteq> GetBytecodeLength pushCandidate + GetBytecodeLength BC_RETURN_LOCAL
      then Inr None
      else if pushCandidate = BC_PUSH_0 then Inr (Some (VMLiteralReturn (signature m) (arguments m) (LInt 0)))
      else if pushCandidate = BC_PUSH_1 then Inr (Some (VMLiteralReturn (signature m) (arguments m) (LInt 1)))
      else if pushCandidate = BC_PUSH_NIL then Inr (Some (VMLiteralReturn (signature m) (arguments m) LNil))
      else if pushCandidate \<in> {BC_PUSH_CONSTANT_0, BC_PUSH_CONSTANT_1, BC_PUSH_CONSTANT_2, BC_PUSH_CONSTANT}
              \<and> length (literals m) = 1
      then Inr (Some (VMLiteralReturn (signature m) (arguments m) (literals m ! 0)))
      else Inl (ErrorExit ''Unexpected situation when trying to create trivial method that returns a literal''))"

definition assembleGlobalReturn :: "mgenc \<Rightarrow> invokable option res" where
  "assembleGlobalReturn m =
     (if length (bytecode m) \<noteq> GetBytecodeLength BC_PUSH_GLOBAL + GetBytecodeLength BC_RETURN_LOCAL
      then Inr None
      else case literals m of
             [LSym globalName] \<Rightarrow> Inr (Some (VMGlobalReturn (signature m) (arguments m) globalName))
           | [_] \<Rightarrow> Inl (Undefined ''(VMSymbol*)literals.at(0)'')
           | _ \<Rightarrow> Inl (ErrorExit ''Unexpected situation when trying to create trivial method that reads a global''))"

definition assembleFieldGetter :: "byte \<Rightarrow> mgenc \<Rightarrow> invokable option res" where
  "assembleFieldGetter pushCandidate m =
     (if length (bytecode m) \<noteq> GetBytecodeLength pushCandidate + GetBytecodeLength BC_RETURN_LOCAL
      then Inr None
      else Inr (Some (VMGetter (signature m) (arguments m)
             (if pushCandidate = BC_PUSH_FIELD_0 then 0
              else if pushCandidate = BC_PUSH_FIELD_1 then 1
              else unat (bytecode m ! (length (bytecode m) - 2))))))"

definition assembleFieldGetterFromReturn :: "byte \<Rightarrow> mgenc \<Rightarrow> invokable option res" where
  "assembleFieldGetterFromReturn returnCandidate m =
     (if length (bytecode m) \<noteq> GetBytecodeLength returnCandidate then Inr None
      else if returnCandidate = BC_RETURN_FIELD_0 then Inr (Some (VMGetter (signature m) (arguments m) 0))
      else if returnCandidate = BC_RETURN_FIELD_1 then Inr (Some (VMGetter (signature m) (arguments m) 1))
      else if returnCandidate = BC_RETURN_FIELD_2 then Inr (Some (VMGetter (signature m) (arguments m) 2))
      else Inl (ErrorExit ''Unsupported bytecode in assembleFieldGetterFromReturn''))"

definition assembleFieldSetter :: "mgenc \<Rightarrow> invokable option res" where
  "assembleFieldSetter m =
     (let popCandidate = lastBytecodeIsOneOf 1 IsPopFieldBytecode m;
          pushCandidate = lastBytecodeIsOneOf 2 IsPushArgBytecode m;
          lenReturnSelf = GetBytecodeLength BC_RETURN_SELF in
      if popCandidate = BC_INVALID then Inr None
      else if pushCandidate = BC_INVALID then Inr None
      else
        (let lenInclPop = lenReturnSelf + GetBytecodeLength popCandidate in
         if length (bytecode m) \<noteq> lenInclPop + GetBytecodeLength pushCandidate then Inr None
         else
           (let argIndex = (if pushCandidate = BC_PUSH_SELF then 0
                            else if pushCandidate = BC_PUSH_ARG_1 then 1
                            else if pushCandidate = BC_PUSH_ARG_2 then 2
                            else unat (bytecode m ! (length (bytecode m) - (lenInclPop + 2))));
                fieldIndex = (if popCandidate = BC_POP_FIELD_0 then 0
                              else if popCandidate = BC_POP_FIELD_1 then 1
                              else unat (bytecode m ! (length (bytecode m) - (lenReturnSelf + 1))))
            in Inr (Some (VMSetter (signature m) (arguments m) fieldIndex argIndex)))))"

definition assembleTrivialMethod :: "mgenc \<Rightarrow> invokable option res" where
  "assembleTrivialMethod m =
     (if LastBytecodeIs 0 BC_RETURN_LOCAL m \<and> lastBytecodeIsOneOf 1 IsPushConstBytecode m \<noteq> BC_INVALID
      then assembleLiteralReturn (lastBytecodeIsOneOf 1 IsPushConstBytecode m) m
      else if LastBytecodeIs 0 BC_RETURN_LOCAL m \<and> LastBytecodeIs 1 BC_PUSH_GLOBAL m
      then assembleGlobalReturn m
      else if LastBytecodeIs 0 BC_RETURN_LOCAL m \<and> lastBytecodeIsOneOf 1 IsPushFieldBytecode m \<noteq> BC_INVALID
      then assembleFieldGetter (lastBytecodeIsOneOf 1 IsPushFieldBytecode m) m
      else if LastBytecodeIs 0 BC_RETURN_SELF m then assembleFieldSetter m
      else if lastBytecodeIsOneOf 0 IsReturnFieldBytecode m \<noteq> BC_INVALID
      then assembleFieldGetterFromReturn (lastBytecodeIsOneOf 0 IsReturnFieldBytecode m) m
      else Inr None)"

definition Assemble :: "mgenc \<Rightarrow> invokable res" where
  "Assemble m =
     res_bind (assembleTrivialMethod m) (\<lambda>trivialMethod.
       case trivialMethod of
         Some t \<Rightarrow> Inr t
       | None \<Rightarrow> Inr (VMMethod (signature m) (bytecode m) (literals m) (length (locals m))
                      (maxStackDepth m) (lexicalScope m) (inlinedLoops m)))"

definition AssemblePrimitive :: "bool \<Rightarrow> mgenc \<Rightarrow> invokable" where
  "AssemblePrimitive isClassSide m = VMPrimitive (signature m) isClassSide"

end
