(* ===== verification/MethodGen_Inv.thy ===== *)
theory MethodGen_Inv
  imports MethodGen
begin

section \<open>Invariant of the method generation context\<close>

text \<open>
  The code vector always splits into whole instructions, and the buffer of the last four bytecodes
  holds the opcodes of the last instructions (then \<open>BC_INVALID\<close>). Every emission, every peephole
  optimisation and every patch of a jump keeps this, so no optimisation ever cuts an instruction in
  two. The decoded target of a patched jump is the next instruction.
\<close>

subsection \<open>The buffer of the last bytecodes\<close>

text \<open>Both arguments list the most recent opcode first.\<close>

fun l4m :: "byte list \<Rightarrow> byte list \<Rightarrow> bool" where
  "l4m [] ops = True"
| "l4m (b # bs) ops =
     (if b = BC_INVALID then list_all (\<lambda>c. c = BC_INVALID) bs
      else case ops of [] \<Rightarrow> False | op # ops' \<Rightarrow> b = op \<and> l4m bs ops')"

definition parsed :: "mgenc \<Rightarrow> byte list list \<Rightarrow> bool" where
  "parsed m is \<longleftrightarrow> bytecode m = concat is \<and> list_all wf_instr is
     \<and> length (last4Bytecodes m) = 4 \<and> l4m (rev (last4Bytecodes m)) (rev (map hd is))"

definition gen_ok :: "mgenc \<Rightarrow> bool" where
  "gen_ok m \<longleftrightarrow> (\<exists>is. parsed m is)"

lemma l4m_all_invalid: "list_all (\<lambda>c. c = BC_INVALID) bs \<Longrightarrow> l4m bs ops"
  by (cases bs) auto

lemma l4m_snocD: "l4m (bs @ [b]) ops \<Longrightarrow> l4m bs ops"
  by (induction bs ops rule: l4m.induct) (auto split: list.splits if_splits)

lemma l4m_snoc_invalid: "l4m bs ops \<Longrightarrow> l4m (bs @ [BC_INVALID]) ops"
  by (induction bs ops rule: l4m.induct) (auto split: list.splits if_splits)

lemma l4m_prefix: "l4m bs ops \<Longrightarrow> take (length bs) ops = take (length bs) ops' \<Longrightarrow> l4m bs ops'"
proof (induction bs ops arbitrary: ops' rule: l4m.induct)
  case (2 b bs ops)
  then show ?case by (cases ops; cases ops') (auto split: if_splits)
qed simp

declare l4m.simps(2) [simp del]

lemma l4m_Cons [simp]:
  "l4m (BC_INVALID # bs) ops \<longleftrightarrow> list_all (\<lambda>c. c = BC_INVALID) bs"
  "b \<noteq> BC_INVALID \<Longrightarrow> l4m (b # bs) (op # ops) \<longleftrightarrow> b = op \<and> l4m bs ops"
  by (simp_all add: l4m.simps)

lemma last4_expand:
  assumes "length (l :: byte list) = 4"
  shows "l = [l ! 0, l ! 1, l ! 2, l ! 3]"
  using assms by (auto simp: list_eq_iff_nth_eq less_Suc_eq numeral_eq_Suc)

lemma last4_cases:
  assumes "length (l :: byte list) = 4"
  obtains a b c d where "l = [a, b, c, d]"
  using last4_expand[OF assms] by blast

lemma parsed_last4:
  assumes "parsed m is"
  obtains a b c d where "last4Bytecodes m = [a, b, c, d]" "l4m [d, c, b, a] (rev (map hd is))"
proof -
  obtain a b c d where "last4Bytecodes m = [a, b, c, d]"
    using assms last4_cases[of "last4Bytecodes m"] by (metis parsed_def)
  then show thesis using that[of a b c d] assms by (simp add: parsed_def)
qed

lemma valid_not_invalid: "wf_instr i \<Longrightarrow> hd i \<noteq> BC_INVALID"
  using not_valid_INVALID by (auto simp: wf_instr_def)

text \<open>A buffer entry that is a proper opcode is the opcode of the corresponding instruction.\<close>

lemma l4m_split:
  assumes "l4m (bc # bs) (rev (map hd is))" "bc \<noteq> BC_INVALID" "list_all wf_instr is"
  obtains js args where "is = js @ [bc # args]" "wf_instr (bc # args)" "l4m bs (rev (map hd js))"
    "list_all wf_instr js"
proof -
  obtain js i where i: "is = js @ [i]" "hd i = bc" "l4m bs (rev (map hd js))"
    using assms(1,2) by (cases "is" rule: rev_cases) (auto simp: l4m.simps)
  then have "wf_instr i" "list_all wf_instr js" using assms(3) by auto
  then show thesis using that[of js "tl i"] i by (cases i) (auto simp: wf_instr_def)
qed

lemma parsed_buffer:
  assumes "parsed m is"
  shows "l4m [last4Bytecodes m ! 3, last4Bytecodes m ! 2, last4Bytecodes m ! 1, last4Bytecodes m ! 0]
      (rev (map hd is))" "list_all wf_instr is" "bytecode m = concat is" "length (last4Bytecodes m) = 4"
proof -
  obtain a b c d where "last4Bytecodes m = [a, b, c, d]" "l4m [d, c, b, a] (rev (map hd is))"
    using assms by (rule parsed_last4)
  then show "l4m [last4Bytecodes m ! 3, last4Bytecodes m ! 2, last4Bytecodes m ! 1, last4Bytecodes m ! 0]
      (rev (map hd is))" by (simp add: numeral_3_eq_3 numeral_2_eq_2)
qed (use assms in \<open>simp_all add: parsed_def\<close>)

lemma parsed_last:
  assumes "parsed m is" "last4Bytecodes m ! 3 \<noteq> BC_INVALID"
  obtains js args where "is = js @ [last4Bytecodes m ! 3 # args]" "wf_instr (last4Bytecodes m ! 3 # args)"
    "l4m [last4Bytecodes m ! 2, last4Bytecodes m ! 1, last4Bytecodes m ! 0] (rev (map hd js))"
    "list_all wf_instr js"
  using l4m_split[OF parsed_buffer(1)[OF assms(1)] assms(2) parsed_buffer(2)[OF assms(1)]] .

lemma parsed_last2:
  assumes "parsed m is" "last4Bytecodes m ! 3 \<noteq> BC_INVALID" "last4Bytecodes m ! 2 \<noteq> BC_INVALID"
  obtains js args args' where "is = js @ [last4Bytecodes m ! 2 # args', last4Bytecodes m ! 3 # args]"
    "wf_instr (last4Bytecodes m ! 3 # args)" "wf_instr (last4Bytecodes m ! 2 # args')"
    "l4m [last4Bytecodes m ! 1, last4Bytecodes m ! 0] (rev (map hd js))" "list_all wf_instr js"
proof -
  obtain ks args where ks: "is = ks @ [last4Bytecodes m ! 3 # args]" "wf_instr (last4Bytecodes m ! 3 # args)"
    "l4m [last4Bytecodes m ! 2, last4Bytecodes m ! 1, last4Bytecodes m ! 0] (rev (map hd ks))"
    "list_all wf_instr ks"
    using parsed_last[OF assms(1,2)] .
  show thesis using l4m_split[OF ks(3) assms(3) ks(4)] that ks by auto
qed

lemma parsed_last3:
  assumes "parsed m is" "last4Bytecodes m ! 3 \<noteq> BC_INVALID" "last4Bytecodes m ! 2 \<noteq> BC_INVALID"
    "last4Bytecodes m ! 1 \<noteq> BC_INVALID"
  obtains js args args' args'' where
    "is = js @ [last4Bytecodes m ! 1 # args'', last4Bytecodes m ! 2 # args', last4Bytecodes m ! 3 # args]"
    "wf_instr (last4Bytecodes m ! 3 # args)" "wf_instr (last4Bytecodes m ! 2 # args')"
    "wf_instr (last4Bytecodes m ! 1 # args'')" "list_all wf_instr js"
proof -
  obtain ks args args' where ks: "is = ks @ [last4Bytecodes m ! 2 # args', last4Bytecodes m ! 3 # args]"
    "wf_instr (last4Bytecodes m ! 3 # args)" "wf_instr (last4Bytecodes m ! 2 # args')"
    "l4m [last4Bytecodes m ! 1, last4Bytecodes m ! 0] (rev (map hd ks))" "list_all wf_instr ks"
    using parsed_last2[OF assms(1-3)] .
  show thesis using l4m_split[OF ks(4) assms(4) ks(5)] that ks by auto
qed

subsection \<open>Emission keeps the invariant\<close>

lemma parsed_emit:
  assumes "parsed m is" "wf_instr (bc # args)"
    "bytecode m' = bytecode m @ bc # args"
    "last4Bytecodes m' = [last4Bytecodes m ! 1, last4Bytecodes m ! 2, last4Bytecodes m ! 3, bc]"
  shows "parsed m' (is @ [bc # args])"
proof -
  obtain a b c d where l: "last4Bytecodes m = [a, b, c, d]" "l4m [d, c, b, a] (rev (map hd is))"
    using assms(1) by (rule parsed_last4)
  have "l4m [d, c, b] (rev (map hd is))" using l4m_snocD[of "[d, c, b]" a] l(2) by simp
  moreover have "bc \<noteq> BC_INVALID" using valid_not_invalid[OF assms(2)] by simp
  ultimately show ?thesis using assms l(1) by (auto simp: parsed_def)
qed

lemma parsed_Emit1:
  "parsed m is \<Longrightarrow> wf_instr [bc] \<Longrightarrow> parsed (Emit1 bc e m) (is @ [[bc]])"
  by (rule parsed_emit) (auto simp: Emit1_def AddBytecode_def Let_def)

lemma parsed_Emit2:
  "parsed m is \<Longrightarrow> wf_instr [bc, x] \<Longrightarrow> parsed (Emit2 bc x e m) (is @ [[bc, x]])"
  by (rule parsed_emit) (auto simp: Emit2_def AddBytecodeArgument_def AddBytecode_def Let_def)

lemma parsed_Emit3:
  "parsed m is \<Longrightarrow> wf_instr [bc, x, y] \<Longrightarrow> parsed (Emit3 bc x y e m) (is @ [[bc, x, y]])"
  by (rule parsed_emit) (auto simp: Emit3_def AddBytecodeArgument_def AddBytecode_def Let_def)

lemma parsed_reset: "parsed m is \<Longrightarrow> parsed (resetLastBytecodeBuffer m) is"
  by (simp add: parsed_def resetLastBytecodeBuffer_def)

lemma parsed_cong:
  "parsed m is \<Longrightarrow> bytecode m' = bytecode m \<Longrightarrow> last4Bytecodes m' = last4Bytecodes m \<Longrightarrow> parsed m' is"
  by (simp add: parsed_def)

subsection \<open>Removal of instructions\<close>

lemma wf_instr_length: "wf_instr (bc # args) \<Longrightarrow> GetBytecodeLength bc = Suc (length args)"
  by (simp add: wf_instr_def)

lemma IsPopSmth_neq: "IsPopSmthBytecode bc \<noteq> BC_INVALID \<Longrightarrow> bc \<noteq> BC_INVALID"
  by (auto simp: IsPopSmthBytecode_def split: if_splits)

text \<open>What the \<open>DUP; POP_x; POP\<close> optimisation does to the instructions, in place of a \<open>POP\<close>.\<close>

definition pop_rewrite :: "byte list list \<Rightarrow> byte list list \<Rightarrow> bool" where
  "pop_rewrite is is' \<longleftrightarrow>
     (\<exists>js p. is = js @ [[BC_DUP], p] \<and> IsPopSmthBytecode (hd p) \<noteq> BC_INVALID \<and> is' = js @ [p]) \<or>
     (\<exists>js x. is = js @ [[BC_INC_FIELD_PUSH, x]] \<and> is' = js @ [[BC_INC_FIELD, x]])"

lemma wf_instr_Cons1 [simp]: "GetBytecodeLength bc = Suc 0 \<Longrightarrow> wf_instr (bc # args) \<longleftrightarrow> valid_opcode bc \<and> args = []"
  by (auto simp: wf_instr_def)

lemma wf_instr_Cons2:
  "GetBytecodeLength bc = 2 \<Longrightarrow> wf_instr (bc # args) \<longleftrightarrow> valid_opcode bc \<and> (\<exists>x. args = [x])"
  by (auto simp: wf_instr_def length_Suc_conv numeral_eq_Suc)

lemma wf_instr_Cons3:
  "GetBytecodeLength bc = 3 \<Longrightarrow> wf_instr (bc # args) \<longleftrightarrow> valid_opcode bc \<and> (\<exists>x y. args = [x, y])"
  by (auto simp: wf_instr_def length_Suc_conv numeral_eq_Suc)

lemma wf_instr_2 [simp]: "GetBytecodeLength bc = 2 \<Longrightarrow> wf_instr [bc, x] \<longleftrightarrow> valid_opcode bc"
  and wf_instr_3 [simp]: "GetBytecodeLength bc = 3 \<Longrightarrow> wf_instr [bc, x, y] \<longleftrightarrow> valid_opcode bc"
  by (auto simp: wf_instr_def)

lemma list_update_concat_last2:
  "(concat js @ [a, b])[Suc (Suc (length (concat js))) - 2 := c] = concat js @ [c, b]"
  by (simp add: list_update_append)

lemma optimizeIncFieldPush_parsed:
  assumes "parsed m is" "last4Bytecodes m ! 3 = BC_INC_FIELD_PUSH"
  shows "\<exists>m' is'. optimizeIncFieldPush m = Inr (True, m') \<and> parsed m' is' \<and> pop_rewrite is is'"
proof -
  obtain js args where js: "is = js @ [BC_INC_FIELD_PUSH # args]" "wf_instr (BC_INC_FIELD_PUSH # args)"
    "l4m [last4Bytecodes m ! 2, last4Bytecodes m ! 1, last4Bytecodes m ! 0] (rev (map hd js))"
    "list_all wf_instr js"
    using parsed_last[OF assms(1)] assms(2) by auto
  then obtain x where x: "args = [x]" by (auto simp: wf_instr_Cons2)
  have bc: "bytecode m = concat js @ [BC_INC_FIELD_PUSH, x]"
    using parsed_buffer(3)[OF assms(1)] js x by simp
  obtain a b c where l: "last4Bytecodes m = [a, b, c, BC_INC_FIELD_PUSH]"
    using last4_expand[OF parsed_buffer(4)[OF assms(1)]] assms(2) by metis
  have "optimizeIncFieldPush m = Inr (True, m\<lparr>bytecode := concat js @ [BC_INC_FIELD, x],
      last4Bytecodes := [a, b, c, BC_INC_FIELD]\<rparr>)"
    using bc l by (simp add: optimizeIncFieldPush_def list_update_append)
  moreover have "parsed (m\<lparr>bytecode := concat js @ [BC_INC_FIELD, x],
      last4Bytecodes := [a, b, c, BC_INC_FIELD]\<rparr>) (js @ [[BC_INC_FIELD, x]])"
    using js l by (simp add: parsed_def)
  ultimately show ?thesis using js x by (auto simp: pop_rewrite_def)
qed

lemma removeLastBytecodeAt_second:
  assumes "bytecode m = concat js @ [BC_DUP] @ p" "last4Bytecodes m = [a, b, BC_DUP, hd p]" "wf_instr p"
  shows "removeLastBytecodeAt 1 m = Inr (m\<lparr>bytecode := concat js @ p\<rparr>)"
proof -
  have len: "GetBytecodeLength (hd p) = length p" using assms(3) by (simp add: wf_instr_def)
  have p: "hd p \<noteq> BC_INVALID" using valid_not_invalid[OF assms(3)] .
  have "getOffsetOfLastBytecode 1 m = Inr (int (length (concat js)))"
    using assms len p by (simp add: getOffsetOfLastBytecode_def getOffsetOfLastBytecode_loop.simps)
  then show ?thesis using assms
    by (simp add: removeLastBytecodeAt_def)
qed

lemma OptimizeDupPopPopSequence_parsed:
  assumes "parsed m is"
  obtains (unchanged) "OptimizeDupPopPopSequence m = Inr (False, m)"
  | (optimized) m' is' where "OptimizeDupPopPopSequence m = Inr (True, m')" "parsed m' is'"
      "pop_rewrite is is'" "\<not> isCurrentlyInliningABlock m"
proof (cases "isCurrentlyInliningABlock m")
  case True
  then show thesis using unchanged by (simp add: OptimizeDupPopPopSequence_def)
next
  case False
  let ?l = "last4Bytecodes m"
  consider "?l ! 3 = BC_INC_FIELD_PUSH"
    | "?l ! 3 \<noteq> BC_INC_FIELD_PUSH" "IsPopSmthBytecode (?l ! 3) \<noteq> BC_INVALID" "?l ! 2 = BC_DUP"
    | "?l ! 3 \<noteq> BC_INC_FIELD_PUSH" "IsPopSmthBytecode (?l ! 3) = BC_INVALID \<or> ?l ! 2 \<noteq> BC_DUP"
    by blast
  then show thesis
  proof cases
    case 1
    then show thesis using optimizeIncFieldPush_parsed[OF assms] False optimized
      by (auto simp: OptimizeDupPopPopSequence_def LastBytecodeIs_def)
  next
    case 2
    then have "?l ! 3 \<noteq> BC_INVALID" "?l ! 2 \<noteq> BC_INVALID" using IsPopSmth_neq by auto
    then obtain js args args' where js: "is = js @ [BC_DUP # args', ?l ! 3 # args]"
      "wf_instr (?l ! 3 # args)" "wf_instr (BC_DUP # args')" "l4m [?l ! 1, ?l ! 0] (rev (map hd js))"
      "list_all wf_instr js"
      using parsed_last2[OF assms] 2 by metis
    have l: "?l = [?l ! 0, ?l ! 1, BC_DUP, ?l ! 3]"
      using last4_expand[OF parsed_buffer(4)[OF assms]] 2(3) by simp
    let ?m' = "m\<lparr>bytecode := concat js @ (?l ! 3 # args),
        last4Bytecodes := [BC_INVALID, ?l ! 0, ?l ! 1, ?l ! 3]\<rparr>"
    have "removeLastBytecodeAt 1 m = Inr (m\<lparr>bytecode := concat js @ (?l ! 3 # args)\<rparr>)"
      using js l parsed_buffer(3)[OF assms] by (intro removeLastBytecodeAt_second) auto
    then have opt: "OptimizeDupPopPopSequence m = Inr (True, ?m')"
      using 2 False by (simp add: OptimizeDupPopPopSequence_def LastBytecodeIs_def lastBytecodeIsOneOf_def)
    have "l4m ([?l ! 1, ?l ! 0] @ [BC_INVALID]) (rev (map hd js))" using js(4) by (rule l4m_snoc_invalid)
    then have "parsed ?m' (js @ [?l ! 3 # args])"
      using js \<open>?l ! 3 \<noteq> BC_INVALID\<close> by (simp add: parsed_def)
    moreover have "pop_rewrite is (js @ [?l ! 3 # args])" using js 2 by (auto simp: pop_rewrite_def)
    ultimately show thesis using optimized[OF opt _ _ False] by blast
  next
    case 3
    then show thesis using unchanged False
      by (auto simp: OptimizeDupPopPopSequence_def LastBytecodeIs_def lastBytecodeIsOneOf_def)
  qed
qed

lemma EmitPOP_parsed:
  assumes "parsed m is"
  shows "\<exists>m' is'. EmitPOP m = Inr m' \<and> parsed m' is' \<and>
    (is' = is @ [[BC_POP]] \<or> \<not> isCurrentlyInliningABlock m \<and> pop_rewrite is is')"
  using assms
proof (cases rule: OptimizeDupPopPopSequence_parsed)
  case unchanged
  then show ?thesis using parsed_Emit1[OF assms, of BC_POP] by (auto simp: EmitPOP_def)
next
  case (optimized m' is')
  then show ?thesis by (auto simp: EmitPOP_def)
qed

lemma EmitRETURNSELF_parsed:
  assumes "parsed m is"
  shows "\<exists>m' is'. EmitRETURNSELF m = Inr m' \<and> parsed m' (is' @ [[BC_RETURN_SELF]]) \<and>
    (is' = is \<or> \<not> isCurrentlyInliningABlock m \<and> pop_rewrite is is')"
  using assms
proof (cases rule: OptimizeDupPopPopSequence_parsed)
  case unchanged
  then show ?thesis using parsed_Emit1[OF assms, of BC_RETURN_SELF] by (auto simp: EmitRETURNSELF_def)
next
  case (optimized m' is')
  then show ?thesis using parsed_Emit1[of m' is' BC_RETURN_SELF] by (auto simp: EmitRETURNSELF_def)
qed

lemma bytes_of_last_3:
  "bytes_of_last 3 l = GetBytecodeLength (l ! 3) + GetBytecodeLength (l ! 2) + GetBytecodeLength (l ! 1)"
proof -
  have "bytes_of_last (Suc (Suc (Suc 0))) l =
      GetBytecodeLength (l ! 3) + GetBytecodeLength (l ! 2) + GetBytecodeLength (l ! 1)" by simp
  then show ?thesis by (simp only: numeral_3_eq_3)
qed

lemma parsed_remove1:
  assumes "parsed m (js @ [p])" "last4Bytecodes m ! 3 = hd p"
  shows "removeLastBytecodes 1 m = Inr (m\<lparr>bytecode := concat js\<rparr>)"
    "parsed (resetLastBytecodeBuffer (m\<lparr>bytecode := concat js\<rparr>)) js"
proof -
  have "wf_instr p" and bc: "bytecode m = concat js @ p" using assms by (auto simp: parsed_def)
  then have "GetBytecodeLength (hd p) = length p" by (simp add: wf_instr_def)
  then show "removeLastBytecodes 1 m = Inr (m\<lparr>bytecode := concat js\<rparr>)"
    using bc assms(2) by (simp add: removeLastBytecodes_def)
  show "parsed (resetLastBytecodeBuffer (m\<lparr>bytecode := concat js\<rparr>)) js"
    using assms by (simp add: parsed_def resetLastBytecodeBuffer_def)
qed

lemma parsed_remove3:
  assumes "parsed m (js @ [p, q, r])"
    "last4Bytecodes m ! 3 = hd r" "last4Bytecodes m ! 2 = hd q" "last4Bytecodes m ! 1 = hd p"
  shows "removeLastBytecodes 3 m = Inr (m\<lparr>bytecode := concat js\<rparr>)"
    "parsed (resetLastBytecodeBuffer (m\<lparr>bytecode := concat js\<rparr>)) js"
proof -
  have wf: "wf_instr p" "wf_instr q" "wf_instr r" and bc: "bytecode m = concat js @ p @ q @ r"
    using assms by (auto simp: parsed_def)
  then have "GetBytecodeLength (hd i) = length i" if "i \<in> {p, q, r}" for i
    using that by (auto simp: wf_instr_def)
  then have "bytes_of_last 3 (last4Bytecodes m) = length p + length q + length r"
    using assms(2-4) by (simp add: bytes_of_last_3)
  then show "removeLastBytecodes 3 m = Inr (m\<lparr>bytecode := concat js\<rparr>)"
    using bc by (simp add: removeLastBytecodes_def)
  show "parsed (resetLastBytecodeBuffer (m\<lparr>bytecode := concat js\<rparr>)) js"
    using assms by (simp add: parsed_def resetLastBytecodeBuffer_def)
qed

fun push_field_index :: "byte list \<Rightarrow> byte option" where
  "push_field_index [b] = (if b = BC_PUSH_FIELD_0 then Some 0 else if b = BC_PUSH_FIELD_1 then Some 1 else None)"
| "push_field_index [b, x] = (if b = BC_PUSH_FIELD then Some x else None)"
| "push_field_index _ = None"

definition pop_field_instr :: "byte \<Rightarrow> byte list" where
  "pop_field_instr idx = (if idx = 0 then [BC_POP_FIELD_0] else if idx = 1 then [BC_POP_FIELD_1] else [BC_POP_FIELD, idx])"

definition push_field_instr :: "byte \<Rightarrow> byte list" where
  "push_field_instr idx = (if idx = 0 then [BC_PUSH_FIELD_0] else if idx = 1 then [BC_PUSH_FIELD_1] else [BC_PUSH_FIELD, idx])"

lemma push_field_cases:
  assumes "wf_instr (bc # args)" "bc = BC_PUSH_FIELD_0 \<or> bc = BC_PUSH_FIELD_1 \<or> bc = BC_PUSH_FIELD"
  obtains "bc = BC_PUSH_FIELD_0" "args = []" "push_field_index (bc # args) = Some 0"
  | "bc = BC_PUSH_FIELD_1" "args = []" "push_field_index (bc # args) = Some 1"
  | x where "bc = BC_PUSH_FIELD" "args = [x]" "push_field_index (bc # args) = Some x"
  using assms by (auto simp: wf_instr_Cons2)

lemma parsed_EmitPopField:
  "parsed m is \<Longrightarrow> parsed (EmitPopFieldWithIndex idx m) (is @ [pop_field_instr idx])"
  by (auto simp: EmitPopFieldWithIndex_def pop_field_instr_def intro!: parsed_Emit1 parsed_Emit2)

lemma parsed_EmitPushField:
  "parsed m is \<Longrightarrow> parsed (EmitPushFieldWithIndex idx m) (is @ [push_field_instr idx])"
  by (auto simp: EmitPushFieldWithIndex_def push_field_instr_def intro!: parsed_Emit1 parsed_Emit2)

lemma OptimizeIncField_parsed:
  assumes "parsed m is"
  obtains (unchanged) "OptimizeIncField idx m = Inr (False, m)"
  | (optimized) m' js p where "OptimizeIncField idx m = Inr (True, m')" "parsed m' (js @ [[BC_INC_FIELD_PUSH, idx]])"
      "is = js @ [p, [BC_INC], [BC_DUP]]" "push_field_index p = Some idx" "\<not> isCurrentlyInliningABlock m"
proof (cases "\<not> isCurrentlyInliningABlock m \<and> last4Bytecodes m ! 3 = BC_DUP \<and> last4Bytecodes m ! 2 = BC_INC
    \<and> IsPushFieldBytecode (last4Bytecodes m ! 1) \<noteq> BC_INVALID")
  case False
  then show thesis using unchanged
    by (auto simp: OptimizeIncField_def LastBytecodeIs_def lastBytecodeIsOneOf_def Let_def)
next
  case True
  let ?b = "last4Bytecodes m ! 1"
  have b: "?b = BC_PUSH_FIELD_0 \<or> ?b = BC_PUSH_FIELD_1 \<or> ?b = BC_PUSH_FIELD" "IsPushFieldBytecode ?b = ?b"
    using True by (auto simp: IsPushFieldBytecode_def split: if_splits)
  then have v: "last4Bytecodes m ! 3 \<noteq> BC_INVALID" "last4Bytecodes m ! 2 \<noteq> BC_INVALID" "?b \<noteq> BC_INVALID"
    using True by auto
  obtain js args args' args'' where "is = js @ [?b # args'', BC_INC # args', BC_DUP # args]"
    "wf_instr (BC_DUP # args)" "wf_instr (BC_INC # args')" "wf_instr (?b # args'')"
    using parsed_last3[OF assms v] True by metis
  then have js: "is = js @ [?b # args'', [BC_INC], [BC_DUP]]" and wf: "wf_instr (?b # args'')" by auto
  obtain x where x: "push_field_index (?b # args'') = Some x"
    "(if ?b = BC_PUSH_FIELD_0 then 0 else if ?b = BC_PUSH_FIELD_1 then 1
      else bytecode m ! (length (bytecode m) - (1 + 1 + GetBytecodeLength ?b) + 1)) = x"
    "?b = BC_PUSH_FIELD \<Longrightarrow> \<not> length (bytecode m) < 1 + 1 + GetBytecodeLength ?b"
    using wf b(1) parsed_buffer(3)[OF assms] js
    by (cases rule: push_field_cases) (auto simp: nth_append)
  have opt: "OptimizeIncField idx m = (if x = idx then
      res_bind (removeLastBytecodes 3 m) (\<lambda>m1. Inr (True, EmitIncFieldPush idx (resetLastBytecodeBuffer m1)))
      else Inr (False, m))"
    using True x(2,3) b(2) v(3)
    by (auto simp: OptimizeIncField_def LastBytecodeIs_def lastBytecodeIsOneOf_def Let_def)
  show thesis
  proof (cases "x = idx")
    case False
    then show thesis using unchanged opt by simp
  next
    case True
    let ?m = "resetLastBytecodeBuffer (m\<lparr>bytecode := concat js\<rparr>)"
    have "removeLastBytecodes 3 m = Inr (m\<lparr>bytecode := concat js\<rparr>)" and "parsed ?m js"
      using parsed_remove3[of m js "?b # args''" "[BC_INC]" "[BC_DUP]"] assms js
        \<open>\<not> isCurrentlyInliningABlock m \<and> _\<close> by auto
    then have "OptimizeIncField idx m = Inr (True, EmitIncFieldPush idx ?m)"
      and "parsed (EmitIncFieldPush idx ?m) (js @ [[BC_INC_FIELD_PUSH, idx]])"
      using opt True parsed_Emit2[of ?m js] by (auto simp: EmitIncFieldPush_def)
    then show thesis using optimized[OF _ _ js] x(1) True \<open>\<not> isCurrentlyInliningABlock m \<and> _\<close> by blast
  qed
qed

lemma EmitPOPFIELD_parsed:
  assumes "parsed m is" "0 \<le> GetFieldIndex field m" "GetFieldIndex field m \<le> 255"
  defines "idx \<equiv> word_of_int (GetFieldIndex field m)"
  shows "\<exists>m' is'. EmitPOPFIELD field m = Inr m' \<and> parsed m' is' \<and>
    (is' = is @ [pop_field_instr idx] \<or>
     (\<not> isCurrentlyInliningABlock m \<and> (\<exists>js p. is = js @ [p, [BC_INC], [BC_DUP]] \<and> push_field_index p = Some idx
        \<and> is' = js @ [[BC_INC_FIELD_PUSH, idx]])))"
  using assms(1)
proof (cases rule: OptimizeIncField_parsed[of m "is" idx])
  case unchanged
  then show ?thesis using assms parsed_EmitPopField[OF assms(1), of idx]
    by (auto simp: EmitPOPFIELD_def Let_def)
next
  case (optimized m' js p)
  then show ?thesis using assms by (auto simp: EmitPOPFIELD_def Let_def)
qed

definition return_field_instr :: "byte \<Rightarrow> byte list" where
  "return_field_instr idx =
     [if idx = 0 then BC_RETURN_FIELD_0 else if idx = 1 then BC_RETURN_FIELD_1 else BC_RETURN_FIELD_2]"

lemma EmitRETURNFIELD_parsed:
  assumes "parsed m is" "unat idx \<le> 2"
  shows "\<exists>m'. EmitRETURNFIELD (unat idx) m = Inr m' \<and> parsed m' (is @ [return_field_instr idx])"
proof -
  have "unat idx = 1 \<longleftrightarrow> idx = 1" by (metis unat_1 unsigned_word_eqI)
  then show ?thesis using assms
    by (auto simp: EmitRETURNFIELD_def return_field_instr_def unat_eq_0 intro!: parsed_Emit1)
qed

lemma OptimizeReturnField_parsed:
  assumes "parsed m is"
  obtains (unchanged) "OptimizeReturnField m = Inr (False, m)"
  | (optimized) m' js p idx where "OptimizeReturnField m = Inr (True, m')"
      "parsed m' (js @ [return_field_instr idx])" "is = js @ [p]" "push_field_index p = Some idx"
      "unat idx \<le> 2" "\<not> isCurrentlyInliningABlock m"
proof (cases "\<not> isCurrentlyInliningABlock m \<and> (last4Bytecodes m ! 3 = BC_PUSH_FIELD_0 \<or>
    last4Bytecodes m ! 3 = BC_PUSH_FIELD_1 \<or> last4Bytecodes m ! 3 = BC_PUSH_FIELD)")
  case False
  then show thesis using unchanged by (auto simp: OptimizeReturnField_def lastBytecodeAt_def Let_def)
next
  case True
  let ?b = "last4Bytecodes m ! 3"
  have b: "?b = BC_PUSH_FIELD_0 \<or> ?b = BC_PUSH_FIELD_1 \<or> ?b = BC_PUSH_FIELD" using True by simp
  then have "?b \<noteq> BC_INVALID" by auto
  then obtain js args where js: "is = js @ [?b # args]" and wf: "wf_instr (?b # args)"
    using parsed_last[OF assms] by metis
  obtain x where x: "push_field_index (?b # args) = Some x"
    "(if ?b = BC_PUSH_FIELD_0 then 0 else if ?b = BC_PUSH_FIELD_1 then 1 else unat (last (bytecode m))) = unat x"
    "\<not> (?b = BC_PUSH_FIELD \<and> bytecode m = [])"
    using wf b parsed_buffer(3)[OF assms] js by (cases rule: push_field_cases) auto
  have opt: "OptimizeReturnField m = (if unat x > 2 then Inr (False, m)
      else res_bind (removeLastBytecodes 1 m) (\<lambda>m1.
           res_bind (EmitRETURNFIELD (unat x) (resetLastBytecodeBuffer m1)) (\<lambda>m2. Inr (True, m2))))"
    using True x(2,3) by (auto simp: OptimizeReturnField_def lastBytecodeAt_def Let_def)
  show thesis
  proof (cases "unat x > 2")
    case True
    then show thesis using unchanged opt by simp
  next
    case False
    let ?m = "resetLastBytecodeBuffer (m\<lparr>bytecode := concat js\<rparr>)"
    have r: "removeLastBytecodes 1 m = Inr (m\<lparr>bytecode := concat js\<rparr>)" and "parsed ?m js"
      using parsed_remove1[of m js "?b # args"] assms js by auto
    then obtain m' where "EmitRETURNFIELD (unat x) ?m = Inr m'" "parsed m' (js @ [return_field_instr x])"
      using EmitRETURNFIELD_parsed[of ?m js x] False by auto
    then show thesis using optimized[OF _ _ js x(1)] opt r False True by simp
  qed
qed

lemma EmitRETURNLOCAL_parsed:
  assumes "parsed m is"
  shows "\<exists>m' is'. EmitRETURNLOCAL m = Inr m' \<and> parsed m' is' \<and>
    (is' = is @ [[BC_RETURN_LOCAL]] \<or>
     (\<not> isCurrentlyInliningABlock m \<and> (\<exists>js p idx. is = js @ [p] \<and> push_field_index p = Some idx \<and> unat idx \<le> 2
        \<and> is' = js @ [return_field_instr idx])))"
  using assms
proof (cases rule: OptimizeReturnField_parsed)
  case unchanged
  then show ?thesis using parsed_Emit1[OF assms, of BC_RETURN_LOCAL] by (auto simp: EmitRETURNLOCAL_def)
next
  case (optimized m' js p idx)
  then show ?thesis by (auto simp: EmitRETURNLOCAL_def)
qed

subsection \<open>Jumps\<close>

lemma checkJumpOffset_ok: "n \<le> 65535 \<Longrightarrow> checkJumpOffset (int n) bc = Inr ()"
  by (simp add: checkJumpOffset_def)

text \<open>The wide form of a jump.\<close>

definition wide_jump :: "byte \<Rightarrow> byte" where
  "wide_jump bc = (if bc < FIRST_DOUBLE_BYTE_JUMP_BYTECODE then bc + NUM_SINGLE_BYTE_JUMP_BYTECODES else bc)"

lemma jump_unat: "IsJumpBytecode bc \<longleftrightarrow> 45 \<le> unat bc \<and> unat bc \<le> 66"
  by (simp add: IsJumpBytecode_def word_le_nat_alt)

lemma jump_length: "IsJumpBytecode bc \<Longrightarrow> valid_opcode bc \<and> GetBytecodeLength bc = 3"
proof -
  assume "IsJumpBytecode bc"
  then have k: "45 \<le> unat bc" "unat bc < 67" by (auto simp: jump_unat)
  have "drop 45 bytecodeLengths = replicate 22 3" by (simp add: bytecodeLengths_def numeral_eq_Suc)
  then have "bytecodeLengths ! (45 + (unat bc - 45)) = 3"
    using nth_drop[of 45 bytecodeLengths "unat bc - 45"] k by simp
  then show ?thesis using k by (simp add: GetBytecodeLength_def valid_opcode_unat)
qed

lemma wide_jump: "IsJumpBytecode bc \<Longrightarrow> IsJumpBytecode (wide_jump bc)"
proof (cases "bc < 56")
  case True
  assume "IsJumpBytecode bc"
  then have "45 \<le> unat bc" "unat bc < 56" using True by (auto simp: jump_unat word_less_nat_alt)
  then have "unat (bc + 11) = unat bc + 11" by (subst unat_add_lem[THEN iffD1]) auto
  then show ?thesis using True \<open>45 \<le> unat bc\<close> \<open>unat bc < 56\<close> by (simp add: wide_jump_def jump_unat)
qed (simp add: wide_jump_def)

lemma wf_jump [simp]: "IsJumpBytecode bc \<Longrightarrow> wf_instr [bc, x, y]"
  using jump_length[of bc] by (simp add: wf_instr_def)

lemma instrs_count: "list_all wf_instr is \<Longrightarrow> length (concat is) \<le> 3 * length is"
proof (induction "is")
  case (Cons i "is")
  then have "length i \<le> 3" using GetBytecodeLength_bounds[of "hd i"] by (auto simp: wf_instr_def)
  then show ?case using Cons by simp
qed simp

lemma l4m_replace_old:
  assumes "l4m bs (rev (map hd (as @ i # is)))" "length bs \<le> length is"
  shows "l4m bs (rev (map hd (as @ j # is)))"
  using assms(1) by (rule l4m_prefix) (use assms(2) in simp)

lemma PatchJump_parsed:
  assumes "parsed m (as @ [j, x, y] # is)" "IsJumpBytecode j"
  defines "off \<equiv> 3 + length (concat is)"
  assumes "off \<le> 65535"
  defines "j' \<equiv> (if off \<le> 255 then j else wide_jump j)"
  shows "\<exists>m'. PatchJumpOffsetToPointToNextInstruction (length (concat as) + 1) m = Inr m'
    \<and> parsed m' (as @ [j', of_nat (off mod 256), of_nat (off div 256)] # is)
    \<and> m' = m\<lparr>bytecode := bytecode m'\<rparr>"
proof -
  have bc: "bytecode m = concat as @ j # x # y # concat is" and wf: "list_all wf_instr (as @ is)"
    and l4: "length (last4Bytecodes m) = 4" "l4m (rev (last4Bytecodes m)) (rev (map hd (as @ [j, x, y] # is)))"
    using assms(1) by (auto simp: parsed_def)
  let ?i = "[j', of_nat (off mod 256), of_nat (off div 256)]"
  let ?m' = "m\<lparr>bytecode := concat as @ ?i @ concat is\<rparr>"
  have "PatchJumpOffsetToPointToNextInstruction (length (concat as) + 1) m = Inr ?m'"
    using assms(2,4) bc
    by (auto simp: PatchJumpOffsetToPointToNextInstruction_def checkJumpOffset_def Let_def off_def j'_def
        wide_jump_def nth_append list_update_append)
  moreover have "IsJumpBytecode j'" using assms(2) wide_jump by (simp add: j'_def)
  moreover have "l4m (rev (last4Bytecodes m)) (rev (map hd (as @ ?i # is)))"
  proof (cases "off \<le> 255")
    case True
    then show ?thesis using l4(2) by (simp add: j'_def)
  next
    case False
    have "length (concat is) \<le> 3 * length is" using wf by (intro instrs_count) simp
    then have "4 \<le> length is" using False by (simp add: off_def)
    then show ?thesis using l4 by (intro l4m_replace_old[OF l4(2)]) simp
  qed
  ultimately show ?thesis using wf l4(1) by (auto simp: parsed_def)
qed

lemma EmitBackwardsJump_parsed:
  assumes "parsed m is" "loopBeginIdx \<le> length (bytecode m)" "length (bytecode m) - loopBeginIdx \<le> 65535"
  defines "off \<equiv> length (bytecode m) - loopBeginIdx"
  shows "\<exists>m'. EmitBackwardsJumpOffsetToTarget loopBeginIdx m = Inr m'
    \<and> parsed m' (is @ [[if off \<le> 255 then BC_JUMP_BACKWARD else BC_JUMP2_BACKWARD,
        of_nat (off mod 256), of_nat (off div 256)]])
    \<and> inlinedLoops m' = inlinedLoops m @ [(loopBeginIdx, length (bytecode m))]"
proof -
  let ?m = "EmitJumpBackwardWithOffset off m"
  let ?i = "[if off \<le> 255 then BC_JUMP_BACKWARD else BC_JUMP2_BACKWARD, of_nat (off mod 256), of_nat (off div 256)]"
  have "wf_instr ?i" by (rule wf_jump) (simp add: IsJumpBytecode_def)
  then have "parsed ?m (is @ [?i])"
    using parsed_Emit3[OF assms(1)] by (simp add: EmitJumpBackwardWithOffset_def)
  moreover have "inlinedLoops ?m = inlinedLoops m"
    by (simp add: EmitJumpBackwardWithOffset_def Emit3_def AddBytecodeArgument_def AddBytecode_def Let_def)
  moreover have "EmitBackwardsJumpOffsetToTarget loopBeginIdx m =
      Inr (?m\<lparr>inlinedLoops := inlinedLoops ?m @ [(loopBeginIdx, length (bytecode m))]\<rparr>)"
  proof -
    have "int (length (bytecode m)) - int loopBeginIdx = int off" using assms(2) by (simp add: off_def)
    moreover have "off \<le> 65535" using assms(3) by (simp add: off_def)
    moreover from this have "nat (int off mod 2 ^ 64) = off" by simp
    ultimately show ?thesis
      unfolding EmitBackwardsJumpOffsetToTarget_def Let_def by (simp only: checkJumpOffset_ok res_bind_Inr)
  qed
  ultimately show ?thesis by (intro exI conjI) (assumption, auto intro: parsed_cong)
qed

lemma EmitJump_parsed:
  assumes "parsed m is"
  shows "\<exists>m'. EmitJumpOnWithDummyOffset cond needsPop m = (length (bytecode m) + 1, m')
      \<and> parsed m' (is @ [[jump_bytecode cond needsPop, 0, 0]])"
    and "\<exists>m'. EmitJumpWithDumyOffset m = (length (bytecode m) + 1, m') \<and> parsed m' (is @ [[BC_JUMP, 0, 0]])"
    and "\<exists>m'. EmitJumpIfGreaterWithDummyOffset m = (length (bytecode m) + 1, m')
      \<and> parsed m' (is @ [[BC_JUMP_IF_GREATER, 0, 0]])"
proof -
  have j: "IsJumpBytecode (jump_bytecode cond needsPop)"
    by (simp add: jump_bytecode_def IsJumpBytecode_def split: JumpCondition.split)
  have unfold: "EmitJumpOnWithDummyOffset cond needsPop m =
      (length (bytecode m) + 1, Emit3 (jump_bytecode cond needsPop) 0 0 (if needsPop then -1 else 0) m)"
    "EmitJumpWithDumyOffset m = (length (bytecode m) + 1, Emit3 BC_JUMP 0 0 0 m)"
    "EmitJumpIfGreaterWithDummyOffset m = (length (bytecode m) + 1, Emit3 BC_JUMP_IF_GREATER 0 0 0 m)"
    by (simp_all add: EmitJumpOnWithDummyOffset_def EmitJumpWithDumyOffset_def
        EmitJumpIfGreaterWithDummyOffset_def AddBytecodeArgumentAndGetIndex_def Emit1_def Emit3_def
        AddBytecode_def Let_def)
  show "\<exists>m'. EmitJumpOnWithDummyOffset cond needsPop m = (length (bytecode m) + 1, m')
      \<and> parsed m' (is @ [[jump_bytecode cond needsPop, 0, 0]])"
    using unfold(1) parsed_Emit3[OF assms wf_jump[OF j]] by blast
  show "\<exists>m'. EmitJumpWithDumyOffset m = (length (bytecode m) + 1, m') \<and> parsed m' (is @ [[BC_JUMP, 0, 0]])"
    using unfold(2) parsed_Emit3[OF assms] by (auto simp: IsJumpBytecode_def)
  show "\<exists>m'. EmitJumpIfGreaterWithDummyOffset m = (length (bytecode m) + 1, m')
      \<and> parsed m' (is @ [[BC_JUMP_IF_GREATER, 0, 0]])"
    using unfold(3) parsed_Emit3[OF assms] by (auto simp: IsJumpBytecode_def)
qed

subsection \<open>Block ends\<close>

text \<open>What \<open>RemoveLastPopForBlockLocalReturn\<close> does to the instructions of a block.\<close>

definition block_value_rewrite :: "byte list list \<Rightarrow> byte list list \<Rightarrow> bool" where
  "block_value_rewrite is is' \<longleftrightarrow>
     is = is' @ [[BC_POP]] \<or>
     (\<exists>js p. is = js @ [p] \<and> IsPopSmthBytecode (hd p) \<noteq> BC_INVALID \<and> is' = js @ [[BC_DUP], p]) \<or>
     (\<exists>js x. is = js @ [[BC_INC_FIELD, x]] \<and> is' = js @ [[BC_INC_FIELD_PUSH, x]]) \<or>
     is' = is"

lemma RemoveLastPop_pop:
  assumes "parsed m is" "last4Bytecodes m ! 3 = BC_POP"
  shows "\<exists>js. is = js @ [[BC_POP]] \<and> RemoveLastPopForBlockLocalReturn m = Inr (m\<lparr>bytecode := concat js\<rparr>)"
proof -
  have "last4Bytecodes m ! 3 \<noteq> BC_INVALID" using assms(2) by simp
  then obtain js args where "is = js @ [BC_POP # args]" "wf_instr (BC_POP # args)"
    using parsed_last[OF assms(1)] assms(2) by metis
  then show ?thesis using parsed_buffer(3)[OF assms(1)] assms(2)
    by (auto simp: RemoveLastPopForBlockLocalReturn_def LastBytecodeIs_def butlast_append)
qed

lemma RemoveLastPop_other:
  assumes "parsed m is" "last4Bytecodes m ! 3 \<noteq> BC_POP"
  shows "\<exists>m' is'. RemoveLastPopForBlockLocalReturn m = Inr m' \<and> parsed m' is' \<and> block_value_rewrite is is'
    \<and> isCurrentlyInliningABlock m' = isCurrentlyInliningABlock m"
proof -
  let ?l = "last4Bytecodes m"
  consider "IsPopSmthBytecode (?l ! 3) \<noteq> BC_INVALID" "?l ! 2 \<noteq> BC_DUP"
    | "?l ! 3 = BC_INC_FIELD" | "IsPopSmthBytecode (?l ! 3) = BC_INVALID \<or> ?l ! 2 = BC_DUP" "?l ! 3 \<noteq> BC_INC_FIELD"
    by blast
  then show ?thesis
  proof cases
    case 1
    then have v: "?l ! 3 \<noteq> BC_INVALID" "?l ! 3 \<noteq> BC_INC_FIELD"
      by (auto simp: IsPopSmthBytecode_def split: if_splits)
    then obtain js args where js: "is = js @ [?l ! 3 # args]" "wf_instr (?l ! 3 # args)"
      "l4m [?l ! 2, ?l ! 1, ?l ! 0] (rev (map hd js))" "list_all wf_instr js"
      using parsed_last[OF assms(1)] by metis
    let ?m' = "m\<lparr>bytecode := concat (js @ [[BC_DUP], ?l ! 3 # args]),
      last4Bytecodes := [?l ! 1, ?l ! 2, BC_DUP, ?l ! 3]\<rparr>"
    have "RemoveLastPopForBlockLocalReturn m = Inr ?m'"
      using 1 v assms(2) parsed_buffer(3)[OF assms(1)] js wf_instr_length[OF js(2)]
      by (simp add: RemoveLastPopForBlockLocalReturn_def LastBytecodeIs_def lastBytecodeIsOneOf_def
          lastBytecodeAt_def Let_def)
    moreover have "l4m [?l ! 2, ?l ! 1] (rev (map hd js))" using l4m_snocD[of "[?l ! 2, ?l ! 1]" "?l ! 0"] js(3) by simp
    then have "parsed ?m' (js @ [[BC_DUP], ?l ! 3 # args])" using js v by (simp add: parsed_def)
    moreover have "block_value_rewrite is (js @ [[BC_DUP], ?l ! 3 # args])"
      using js 1 by (auto simp: block_value_rewrite_def)
    ultimately show ?thesis by auto
  next
    case 2
    then have "?l ! 3 \<noteq> BC_INVALID" by simp
    then obtain js args where js: "is = js @ [BC_INC_FIELD # args]" "wf_instr (BC_INC_FIELD # args)"
      "l4m [?l ! 2, ?l ! 1, ?l ! 0] (rev (map hd js))" "list_all wf_instr js"
      using parsed_last[OF assms(1)] 2 by metis
    then obtain x where x: "args = [x]" by (auto simp: wf_instr_Cons2)
    obtain a b c where l: "?l = [a, b, c, BC_INC_FIELD]"
      using last4_expand[OF parsed_buffer(4)[OF assms(1)]] 2 by metis
    let ?m' = "m\<lparr>last4Bytecodes := [a, b, c, BC_INC_FIELD_PUSH],
      bytecode := concat (js @ [[BC_INC_FIELD_PUSH, x]]),
      currentStackDepth := currentStackDepth m + 1,
      maxStackDepth := max (maxStackDepth m) (currentStackDepth m + 1)\<rparr>"
    have "RemoveLastPopForBlockLocalReturn m = Inr ?m'"
      using 2 l parsed_buffer(3)[OF assms(1)] js x
      by (simp add: RemoveLastPopForBlockLocalReturn_def LastBytecodeIs_def lastBytecodeIsOneOf_def
          lastBytecodeAt_def IsPopSmthBytecode_def Let_def list_update_append)
    moreover have "parsed ?m' (js @ [[BC_INC_FIELD_PUSH, x]])" using js l by (simp add: parsed_def)
    moreover have "block_value_rewrite is (js @ [[BC_INC_FIELD_PUSH, x]])"
      using js x by (auto simp: block_value_rewrite_def)
    ultimately show ?thesis by auto
  next
    case 3
    then have "RemoveLastPopForBlockLocalReturn m = Inr m"
      using assms(2) by (auto simp: RemoveLastPopForBlockLocalReturn_def LastBytecodeIs_def
          lastBytecodeIsOneOf_def lastBytecodeAt_def)
    then show ?thesis using assms(1) by (auto simp: block_value_rewrite_def)
  qed
qed

end
