(* ===== verification/Interp_Sem.thy ===== *)
theory Interp_Sem
  imports Interp MethodGen_Inv
begin

section \<open>Semantics of the optimised bytecode sequences\<close>

text \<open>
  The bytecode generator replaces short sequences by single bytecodes (\<open>MethodGen_Inv\<close>). Here the interpreter
  executes both sides: the results agree in every component of the state and in every error,
  as soon as the frame has room for the operand the longer sequence needs. Bytecode indices
  agree because the shorter sequence is started as many bytes later as it is shorter.
\<close>

lemma frame_at_pc [frame_simps, simp]: "frame_at (s\<lparr>pc := p\<rparr>) a = frame_at s a"
  by (simp add: frame_at_def)

lemma frame_at_set_frame [frame_simps, simp]:
  "frame_at (set_heap a (VMFrm f) s) b = (if a = b then Inr f else frame_at s b)"
  by (simp add: frame_at_def)

lemma frame_at_Inr: "frame_at s a = Inr f \<longleftrightarrow> heap s a = Some (VMFrm f)"
  by (simp add: frame_at_def split: option.splits hobj.splits)

subsection \<open>States that differ in a frame's stack only\<close>

definition set_stack :: "addr \<Rightarrow> oop list \<Rightarrow> vmstate \<Rightarrow> vmstate" where
  "set_stack c st s = (case frame_at s c of Inr f \<Rightarrow> set_heap c (VMFrm (f\<lparr>f_stack := st\<rparr>)) s | Inl _ \<Rightarrow> s)"

lemma set_stack_frame: "frame_at s c = Inr f \<Longrightarrow> set_stack c st s = set_heap c (VMFrm (f\<lparr>f_stack := st\<rparr>)) s"
  by (simp add: set_stack_def)

lemma set_stack_sel [simp]:
  "cur_frame (set_stack c st s) = cur_frame s" "pc (set_stack c st s) = pc s" "hp (set_stack c st s) = hp s"
  by (simp_all add: set_stack_def split: sum.splits)

lemma frame_at_set_stack:
  "frame_at s c = Inr f \<Longrightarrow> frame_at (set_stack c st s) b = (if b = c then Inr (f\<lparr>f_stack := st\<rparr>) else frame_at s b)"
  by (simp add: set_stack_def)

lemma set_stack_twice [simp]: "set_stack c st (set_stack c st' s) = set_stack c st s"
  by (simp add: set_stack_def split: sum.splits)

lemma set_stack_pc: "set_stack c st (s\<lparr>pc := p\<rparr>) = (set_stack c st s)\<lparr>pc := p\<rparr>"
  by (simp add: set_stack_def split: sum.splits)

lemma set_stack_same: "frame_at s c = Inr f \<Longrightarrow> f_stack f = st \<Longrightarrow> set_stack c st s = s"
  by (cases f) (auto simp: set_stack_frame frame_at_Inr intro: set_heap_same)

lemma GetContextLevel_set_stack [simp]: "GetContextLevel (set_stack c st s) a lvl = GetContextLevel s a lvl"
proof (cases "frame_at s c")
  case (Inr f)
  then show ?thesis
    by (induction lvl arbitrary: a) (auto simp: frame_at_set_stack res_bind_def split: option.splits sum.splits)
qed (simp add: set_stack_def)

lemma outer_context_set_stack [simp]: "outer_context n (set_stack c st s) a = outer_context n s a"
proof (cases "frame_at s c")
  case (Inr f)
  then show ?thesis
    by (induction n arbitrary: a) (auto simp: frame_at_set_stack res_bind_def split: option.splits sum.splits)
qed (simp add: set_stack_def)

lemma GetArgument_set_stack [simp]: "GetArgument_frame (set_stack c st s) a i l = GetArgument_frame s a i l"
proof (cases "frame_at s c")
  case (Inr f)
  then show ?thesis
    by (auto simp: GetArgument_frame_def frame_at_set_stack res_bind_def split: sum.splits)
qed (simp add: set_stack_def)

lemma GetSelf_set_stack [simp]: "GetSelf (set_stack c st s) = GetSelf s"
  by (simp add: GetSelf_def GetOuterContext_def)

lemma context_pc [simp]:
  "GetContextLevel (s\<lparr>pc := p\<rparr>) a lvl = GetContextLevel s a lvl"
  "outer_context n (s\<lparr>pc := p\<rparr>) a = outer_context n s a"
proof -
  show "GetContextLevel (s\<lparr>pc := p\<rparr>) a lvl = GetContextLevel s a lvl"
    by (induction lvl arbitrary: a) (auto simp: res_bind_def split: option.splits sum.splits)
  show "outer_context n (s\<lparr>pc := p\<rparr>) a = outer_context n s a"
    by (induction n arbitrary: a) (auto simp: res_bind_def split: option.splits sum.splits)
qed

lemma GetSelf_pc [simp]: "GetSelf (s\<lparr>pc := p\<rparr>) = GetSelf s"
  by (simp add: GetSelf_def GetOuterContext_def GetArgument_frame_def)

subsection \<open>The stack operations on a frame\<close>

lemma Push_room:
  "frame_at s c = Inr f \<Longrightarrow> length (f_stack f) < f_capacity f \<Longrightarrow> Push c v s = Inr (set_stack c (v # f_stack f) s)"
  by (simp add: Push_def upd_frame_def frame_push_def set_stack_def)

lemma PopVoid_cons:
  "frame_at s c = Inr f \<Longrightarrow> f_stack f = v # st \<Longrightarrow> PopVoid c s = Inr (set_stack c st s)"
  by (simp add: PopVoid_def upd_frame_def set_stack_def)

lemma Top_cons: "frame_at s c = Inr f \<Longrightarrow> f_stack f = v # st \<Longrightarrow> Top s c = Inr v"
  by (simp add: Top_def GetStackElement_def)

lemma Pop_cons:
  "frame_at s c = Inr f \<Longrightarrow> f_stack f = v # st \<Longrightarrow> Pop c s = Inr (v, set_stack c st s)"
  by (simp add: Pop_def Top_cons PopVoid_cons)

lemma SetTop_cons:
  "frame_at s c = Inr f \<Longrightarrow> f_stack f = v # st \<Longrightarrow> SetTop c w s = Inr (set_stack c (w # st) s)"
  by (simp add: SetTop_def upd_frame_def set_stack_def)

lemmas stack_ops = Push_room PopVoid_cons Top_cons Pop_cons SetTop_cons

subsection \<open>Stores do not depend on the stack\<close>

text \<open>A store gives the same result, or the same error, whatever is on the stack of frame \<open>c\<close>, and leaves that stack.\<close>

definition stack_indep :: "addr \<Rightarrow> (vmstate \<Rightarrow> vmstate res) \<Rightarrow> bool" where
  "stack_indep c g \<longleftrightarrow> (\<forall>s f st. frame_at s c = Inr f \<longrightarrow>
     g (set_stack c st s) = res_bind (g s) (\<lambda>s'. Inr (set_stack c st s')) \<and>
     (\<forall>s'. g s = Inr s' \<longrightarrow> cur_frame s' = cur_frame s \<and> pc s' = pc s \<and>
        (\<exists>f'. frame_at s' c = Inr f' \<and> f_stack f' = f_stack f \<and> f_capacity f' = f_capacity f)))"

lemma stack_indepD:
  assumes "stack_indep c g" "frame_at s c = Inr f"
  shows "g (set_stack c st s) = res_bind (g s) (\<lambda>s'. Inr (set_stack c st s'))"
    and "g s = Inr s' \<Longrightarrow> cur_frame s' = cur_frame s"
    and "g s = Inr s' \<Longrightarrow> pc s' = pc s"
    and "g s = Inr s' \<Longrightarrow> \<exists>f'. frame_at s' c = Inr f' \<and> f_stack f' = f_stack f \<and> f_capacity f' = f_capacity f"
  using assms unfolding stack_indep_def by blast+

text \<open>An update of a frame that neither reads nor changes the stack is such a store.\<close>

lemma stack_indep_upd_frame:
  assumes "\<And>f st. g (f\<lparr>f_stack := st\<rparr>) = res_bind (g f) (\<lambda>f'. Inr (f'\<lparr>f_stack := st\<rparr>))"
    and "\<And>f f'. g f = Inr f' \<Longrightarrow> f_stack f' = f_stack f \<and> f_capacity f' = f_capacity f"
  shows "stack_indep c (upd_frame a g)"
proof -
  have "upd_frame a g (set_stack c st s) = res_bind (upd_frame a g s) (\<lambda>s'. Inr (set_stack c st s'))"
    if "frame_at s c = Inr f" for s f st
  proof (cases "a = c")
    case True
    then show ?thesis
      using that assms(1)[of st f] by (cases "g f") (simp_all add: upd_frame_def frame_at_set_stack set_stack_frame)
  next
    case False
    then show ?thesis using that
      by (cases "frame_at s a")
        (auto simp: upd_frame_def frame_at_set_stack set_stack_frame res_bind_assoc set_heap_commute
          intro!: arg_cong2[where f = res_bind])
  qed
  moreover have "\<exists>f'. frame_at s' c = Inr f' \<and> f_stack f' = f_stack f \<and> f_capacity f' = f_capacity f"
    if "frame_at s c = Inr f" "upd_frame a g s = Inr s'" for s f s'
    using that assms(2) by (fastforce simp: upd_frame_def)
  moreover have "cur_frame s' = cur_frame s \<and> pc s' = pc s" if "upd_frame a g s = Inr s'" for s s'
    using that by (auto simp: upd_frame_def)
  ultimately show ?thesis unfolding stack_indep_def by blast
qed

lemma stack_indep_SetLocal: "stack_indep c (SetLocal_frame a i l v)"
proof -
  have "stack_indep c (upd_frame b (\<lambda>f. if unat i < length (f_locals f)
      then Inr (f\<lparr>f_locals := (f_locals f)[unat i := v]\<rparr>) else Inl (Undefined ''local'')))" for b
    by (rule stack_indep_upd_frame) (auto split: if_splits)
  then show ?thesis
    unfolding stack_indep_def SetLocal_frame_def by (auto simp: res_bind_assoc intro!: arg_cong2[where f = res_bind])
qed

lemma stack_indep_SetArgument: "stack_indep c (SetArgument_frame a i l v)"
proof -
  have "stack_indep c (upd_frame b (\<lambda>f. if unat i < length (f_args f)
      then Inr (f\<lparr>f_args := (f_args f)[unat i := v]\<rparr>) else Inl (Undefined ''argument'')))" for b
    by (rule stack_indep_upd_frame) (auto split: if_splits)
  then show ?thesis
    unfolding stack_indep_def SetArgument_frame_def by (auto simp: res_bind_assoc intro!: arg_cong2[where f = res_bind])
qed

lemma heap_at_set_stack:
  "frame_at s c = Inr f \<Longrightarrow> a \<noteq> c \<Longrightarrow> heap_at (set_stack c st s) a = heap_at s a"
  by (simp add: heap_at_def set_stack_frame)

lemma stack_indep_SetField: "stack_indep c (SetField a i v)"
  unfolding stack_indep_def
proof (intro allI impI)
  fix s f st
  assume f: "frame_at s c = Inr f"
  show "SetField a i v (set_stack c st s) = res_bind (SetField a i v s) (\<lambda>s'. Inr (set_stack c st s')) \<and>
     (\<forall>s'. SetField a i v s = Inr s' \<longrightarrow> cur_frame s' = cur_frame s \<and> pc s' = pc s \<and>
        (\<exists>f'. frame_at s' c = Inr f' \<and> f_stack f' = f_stack f \<and> f_capacity f' = f_capacity f))"
  proof (cases "a = c")
    case True
    then show ?thesis using f by (simp add: SetField_def heap_at_def set_stack_frame frame_at_Inr)
  next
    case False
    have eq: "SetField a i v (set_stack c st s) = res_bind (SetField a i v s) (\<lambda>s'. Inr (set_stack c st s'))"
      using f False by (cases "heap s a")
        (auto simp: SetField_def heap_at_def set_stack_def set_heap_commute frame_at_def split: hobj.splits)
    have "cur_frame s' = cur_frame s \<and> pc s' = pc s \<and> frame_at s' c = Inr f" if "SetField a i v s = Inr s'" for s'
      using that f False by (auto simp: SetField_def frame_at_Inr split: hobj.splits if_splits)
    with eq show ?thesis by blast
  qed
qed

subsection \<open>\<open>DUP; POP_x; POP\<close>\<close>

lemma pop_store_indep:
  assumes "stack_indep c (g v)" "frame_at s c = Inr f" "f_stack f = v # st"
  shows "res_bind (Pop c s) (\<lambda>(w, s1). g w s1) = res_bind (g v s) (\<lambda>s'. Inr (set_stack c st s'))"
  using assms stack_indepD(1)[OF assms(1,2), of st] by (simp add: Pop_cons)

lemma dup_store_pop:
  assumes g: "stack_indep c (g v)" and f: "frame_at s c = Inr f" "f_stack f = v # st"
    and room: "length (f_stack f) < f_capacity f" and c: "cur_frame s = c"
  shows "res_bind (res_bind (doDup s) (\<lambda>s. res_bind (Pop c s) (\<lambda>(w, s1). g w s1))) doPop
    = res_bind (Pop c s) (\<lambda>(w, s1). g w s1)"
proof -
  have dup: "doDup s = Inr (set_stack c (v # v # st) s)"
    using f room c by (simp add: doDup_def GetStackElement_def Push_room)
  have "res_bind (Pop c (set_stack c (v # v # st) s)) (\<lambda>(w, s1). g w s1) = g v s"
    using f by (simp add: Pop_cons[OF frame_at_set_stack[OF f(1), THEN trans]] set_stack_same)
  moreover have "doPop s' = Inr (set_stack c st s')" if eq: "g v s = Inr s'" for s'
  proof -
    obtain f' where "frame_at s' c = Inr f'" "f_stack f' = v # st"
      using stack_indepD(4)[OF g f(1), of s'] eq f by auto
    then show ?thesis using stack_indepD(2)[OF g f(1), of s'] eq c by (simp add: doPop_def Pop_cons)
  qed
  then have "res_bind (g v s) doPop = res_bind (g v s) (\<lambda>s'. Inr (set_stack c st s'))"
    by (cases "g v s") auto
  ultimately show ?thesis using dup pop_store_indep[of c g v s f st] g f by simp
qed

subsection \<open>Operations that do not touch the bytecode index\<close>

definition pc_indep :: "(vmstate \<Rightarrow> vmstate res) \<Rightarrow> bool" where
  "pc_indep h \<longleftrightarrow> (\<forall>s p. h (s\<lparr>pc := p\<rparr>) = res_bind (h s) (\<lambda>s'. Inr (s'\<lparr>pc := p\<rparr>)) \<and>
     (\<forall>s'. h s = Inr s' \<longrightarrow> pc s' = pc s))"

lemma pc_indepD: "pc_indep h \<Longrightarrow> h (s\<lparr>pc := p\<rparr>) = res_bind (h s) (\<lambda>s'. Inr (s'\<lparr>pc := p\<rparr>))"
  and pc_indep_pc: "pc_indep h \<Longrightarrow> h s = Inr s' \<Longrightarrow> pc s' = pc s"
  by (auto simp: pc_indep_def)

lemma state_pc [simp]:
  "heap_at (s\<lparr>pc := p\<rparr>) a = heap_at s a" "GetField (s\<lparr>pc := p\<rparr>) a i = GetField s a i"
  "GetStackElement (s\<lparr>pc := p\<rparr>) a i = GetStackElement s a i"
  "field_of_self (s\<lparr>pc := p\<rparr>) v i = field_of_self s v i" "CLASS_OF (s\<lparr>pc := p\<rparr>) v = CLASS_OF s v"
  "Top (s\<lparr>pc := p\<rparr>) a = Top s a" "double_at (s\<lparr>pc := p\<rparr>) v = double_at s v"
  "GetLocal_frame (s\<lparr>pc := p\<rparr>) a x l = GetLocal_frame s a x l"
  "GetArgument_frame (s\<lparr>pc := p\<rparr>) a x l = GetArgument_frame s a x l"
  "current_method (s\<lparr>pc := p\<rparr>) = current_method s" "GetConstant (s\<lparr>pc := p\<rparr>) b = GetConstant s b"
  by (simp_all add: heap_at_def GetField_def GetStackElement_def field_of_self_def Top_def double_at_def
      GetLocal_frame_def GetArgument_frame_def method_at_def current_method_def GetConstant_def split: oop.splits)
    (cases v; simp add: heap_at_def)

lemma upd_frame_pc: "pc_indep (upd_frame a g)"
  by (auto simp: pc_indep_def upd_frame_def res_bind_assoc)

lemma SetField_pc: "pc_indep (SetField a i v)"
  by (auto simp: pc_indep_def SetField_def res_bind_def split: sum.splits hobj.splits)

lemma Push_pc: "pc_indep (Push a v)"
  unfolding Push_def by (rule upd_frame_pc)

lemma SetTop_pc: "pc_indep (SetTop a v)"
  unfolding SetTop_def by (rule upd_frame_pc)

lemma SetLocal_pc: "pc_indep (SetLocal_frame a i l v)"
  using upd_frame_pc unfolding SetLocal_frame_def pc_indep_def by (auto simp: res_bind_assoc)

lemma SetArgument_pc: "pc_indep (SetArgument_frame a i l v)"
  using upd_frame_pc unfolding SetArgument_frame_def pc_indep_def by (auto simp: res_bind_assoc)

lemma set_field_of_self_pc: "pc_indep (set_field_of_self msg v i w)"
  using SetField_pc by (cases v) (auto simp: set_field_of_self_def pc_indep_def)

lemma Pop_pc: "Pop a (s\<lparr>pc := p\<rparr>) = res_bind (Pop a s) (\<lambda>(v, s'). Inr (v, s'\<lparr>pc := p\<rparr>))"
    "Pop a s = Inr (v, s') \<Longrightarrow> pc s' = pc s \<and> cur_frame s' = cur_frame s"
proof -
  show "Pop a (s\<lparr>pc := p\<rparr>) = res_bind (Pop a s) (\<lambda>(v, s'). Inr (v, s'\<lparr>pc := p\<rparr>))"
    using pc_indepD[OF upd_frame_pc] by (simp add: Pop_def PopVoid_def res_bind_assoc)
  show "Pop a s = Inr (v, s') \<Longrightarrow> pc s' = pc s \<and> cur_frame s' = cur_frame s"
    by (auto simp: Pop_def PopVoid_def upd_frame_def)
qed

lemma pc_indep_pop:
  assumes "\<And>v. pc_indep (g v)"
  shows "pc_indep (\<lambda>s. res_bind (Pop (cur_frame s) s) (\<lambda>(v, s1). g v s1))"
proof -
  have "(\<lambda>(v, s1). g v s1) (w, s1\<lparr>pc := p\<rparr>) = res_bind (g w s1) (\<lambda>s'. Inr (s'\<lparr>pc := p\<rparr>))" for w s1 p
    using pc_indepD[OF assms] by simp
  then show ?thesis using pc_indep_pc[OF assms]
    by (auto simp: pc_indep_def Pop_pc(1) res_bind_def split: sum.splits dest!: Pop_pc(2))
qed

lemma pc_indep_bind_state:
  assumes "\<And>s p. m (s\<lparr>pc := p\<rparr>) = m s" "\<And>x. pc_indep (g x)"
  shows "pc_indep (\<lambda>s. res_bind (m s) (\<lambda>x. g x s))"
  using assms unfolding pc_indep_def by (auto simp: res_bind_assoc)

subsection \<open>Instructions as operations\<close>

text \<open>The instruction \<open>i\<close> moves the bytecode index past itself and performs \<open>h\<close>.\<close>

definition runs :: "vmenv \<Rightarrow> byte list \<Rightarrow> (vmstate \<Rightarrow> vmstate res) \<Rightarrow> bool" where
  "runs env i h \<longleftrightarrow> pc_indep h \<and> (\<forall>s. exec env i s = h (s\<lparr>pc := pc s + length i\<rparr>))"

fun seq_ops :: "(vmstate \<Rightarrow> vmstate res) list \<Rightarrow> vmstate \<Rightarrow> vmstate res" where
  "seq_ops [] s = Inr s"
| "seq_ops (h # hs) s = res_bind (h s) (seq_ops hs)"

lemma res_bind_return [simp]: "res_bind m Inr = m"
  by (cases m) auto

lemma seq_ops_fun: "seq_ops [] = Inr" "seq_ops (h # hs) = (\<lambda>s. res_bind (h s) (seq_ops hs))"
  by (auto simp: fun_eq_iff)

lemma exec_seq_Nil [simp]: "exec_seq env [] = Inr"
  by (simp add: fun_eq_iff)

lemma runs_exec:
  "runs env i h \<Longrightarrow> exec env i s = res_bind (h s) (\<lambda>s'. Inr (s'\<lparr>pc := pc s + length i\<rparr>))"
  by (simp add: runs_def pc_indepD)

lemma pc_indep_bind:
  assumes "pc_indep h" "pc_indep g"
  shows "pc_indep (\<lambda>s. res_bind (h s) g)"
  unfolding pc_indep_def
proof (intro allI conjI impI)
  fix s p s'
  show "res_bind (h (s\<lparr>pc := p\<rparr>)) g = res_bind (res_bind (h s) g) (\<lambda>s'. Inr (s'\<lparr>pc := p\<rparr>))"
    by (simp only: pc_indepD[OF assms(1)] pc_indepD[OF assms(2)] res_bind_assoc res_bind_Inr)
  assume "res_bind (h s) g = Inr s'"
  then obtain s1 where "h s = Inr s1" "g s1 = Inr s'" by (auto simp: res_bind_eq_Inr)
  then show "pc s' = pc s" using pc_indep_pc[OF assms(1)] pc_indep_pc[OF assms(2)] by metis
qed

lemma seq_ops_pc: "list_all pc_indep hs \<Longrightarrow> pc_indep (seq_ops hs)"
proof (induction hs)
  case Nil
  show ?case by (simp add: pc_indep_def)
next
  case (Cons h hs)
  then have "pc_indep (\<lambda>s. res_bind (h s) (seq_ops hs))" by (intro pc_indep_bind) simp_all
  then show ?case by (simp add: pc_indep_def)
qed

lemma runs_seq_pc: "list_all2 (runs env) is hs \<Longrightarrow> pc_indep (seq_ops hs)"
  by (rule seq_ops_pc) (auto simp: list_all2_conv_all_nth list_all_length runs_def)

lemma exec_seq_runs:
  assumes "list_all2 (runs env) is hs"
  shows "exec_seq env is s = res_bind (seq_ops hs s) (\<lambda>s'. Inr (s'\<lparr>pc := pc s + length (concat is)\<rparr>))"
  using assms
proof (induction "is" hs arbitrary: s rule: list_all2_induct)
  case Nil
  then show ?case by simp
next
  case (Cons i "is" h hs)
  have "pc_indep (seq_ops hs)" using Cons(2) by (rule runs_seq_pc)
  moreover have "pc_indep h" using Cons(1) by (simp add: runs_def)
  ultimately show ?case
    using Cons(3) pc_indep_pc[of h s]
    by (cases "h s") (simp_all add: runs_exec[OF Cons(1)] pc_indepD res_bind_assoc add.assoc)
qed

lemma runs_seq_eq:
  assumes "list_all2 (runs env) is hs" "list_all2 (runs env) js gs" "seq_ops hs s = seq_ops gs s"
    and "length (concat is) = length (concat js) + k"
  shows "exec_seq env is s = exec_seq env js (s\<lparr>pc := pc s + k\<rparr>)"
proof -
  have "pc_indep (seq_ops gs)" using assms(2) by (rule runs_seq_pc)
  then show ?thesis
    using assms by (simp add: exec_seq_runs pc_indepD res_bind_assoc add.commute add.left_commute)
qed

lemma doDup_pc: "pc_indep doDup"
  using Push_pc unfolding doDup_def pc_indep_def by (auto simp: res_bind_assoc)

lemma doPop_pc: "pc_indep doPop"
  unfolding doPop_def by (rule pc_indep_pop) (simp add: pc_indep_def)

lemma doPopLocal_alt: "doPopLocal x y s = res_bind (Pop (cur_frame s) s) (\<lambda>(v, s1). SetLocal_frame (cur_frame s) x y v s1)"
  and doPopArgument_alt: "doPopArgument x y s = res_bind (Pop (cur_frame s) s) (\<lambda>(v, s1). SetArgument_frame (cur_frame s) x y v s1)"
  by (auto simp: doPopLocal_def doPopArgument_def res_bind_def dest!: Pop_pc(2) split: sum.splits)

lemma doPopLocal_pc: "pc_indep (doPopLocal x y)"
  and doPopArgument_pc: "pc_indep (doPopArgument x y)"
proof -
  have "pc_indep (\<lambda>s. SetLocal_frame (cur_frame s) x y v s)" "pc_indep (\<lambda>s. SetArgument_frame (cur_frame s) x y v s)" for v
    using SetLocal_pc SetArgument_pc by (auto simp: pc_indep_def)
  then show "pc_indep (doPopLocal x y)" "pc_indep (doPopArgument x y)"
    unfolding doPopLocal_def[abs_def] doPopArgument_def[abs_def] by (auto intro: pc_indep_pop)
qed

lemma doPopField_pc: "pc_indep (doPopFieldWithIndex i)"
  unfolding doPopFieldWithIndex_def[abs_def]
  by (intro pc_indep_bind_state pc_indep_pop set_field_of_self_pc) simp

lemma byte_le_1 [simp]: "\<not> BC_SEND \<le> BC_DUP" "\<not> BC_JUMP \<le> BC_DUP" "\<not> BC_JUMP2 \<le> BC_DUP"
  by (simp_all add: word_le_nat_alt)

lemmas exec_defs = exec_def operand_def is_call_def exec_simple_def exec_call_def

lemma runs_simple:
  "runs env [BC_DUP] doDup" "runs env [BC_POP] doPop"
  "runs env [BC_POP_LOCAL, x, y] (doPopLocal x y)" "runs env [BC_POP_LOCAL_0] (doPopLocal 0 0)"
  "runs env [BC_POP_LOCAL_1] (doPopLocal 1 0)" "runs env [BC_POP_LOCAL_2] (doPopLocal 2 0)"
  "runs env [BC_POP_ARGUMENT, x, y] (doPopArgument x y)"
  "runs env [BC_POP_FIELD, x] (doPopFieldWithIndex x)" "runs env [BC_POP_FIELD_0] (doPopFieldWithIndex 0)"
  "runs env [BC_POP_FIELD_1] (doPopFieldWithIndex 1)"
  by (simp_all add: runs_def exec_defs doDup_pc doPop_pc doPopLocal_pc doPopArgument_pc doPopField_pc)

text \<open>Every \<open>POP_x\<close> is an operation that \<open>DUP\<close> before and \<open>POP\<close> after do not change.\<close>

lemma pop_smth_runs:
  assumes "wf_instr p" "IsPopSmthBytecode (hd p) \<noteq> BC_INVALID"
  obtains x y where "\<And>env. runs env p (doPopLocal x y)" | x y where "\<And>env. runs env p (doPopArgument x y)"
  | x where "\<And>env. runs env p (doPopFieldWithIndex x)"
proof (cases p)
  case (Cons bc args)
  then consider "bc = BC_POP_LOCAL" | "bc = BC_POP_LOCAL_0" | "bc = BC_POP_LOCAL_1" | "bc = BC_POP_LOCAL_2"
    | "bc = BC_POP_ARGUMENT" | "bc = BC_POP_FIELD" | "bc = BC_POP_FIELD_0" | "bc = BC_POP_FIELD_1"
    using assms(2) by (auto simp: IsPopSmthBytecode_def split: if_splits)
  then show thesis
  proof cases
    case 1
    then obtain x y where "p = [BC_POP_LOCAL, x, y]" using assms(1) Cons by (auto simp: wf_instr_Cons3)
    then show ?thesis using that(1) runs_simple(3) by metis
  next
    case 2
    then show ?thesis using that(1)[of 0 0] runs_simple(4) assms(1) Cons by simp
  next
    case 3
    then show ?thesis using that(1)[of 1 0] runs_simple(5) assms(1) Cons by simp
  next
    case 4
    then show ?thesis using that(1)[of 2 0] runs_simple(6) assms(1) Cons by simp
  next
    case 5
    then obtain x y where "p = [BC_POP_ARGUMENT, x, y]" using assms(1) Cons by (auto simp: wf_instr_Cons3)
    then show ?thesis using that(2) runs_simple(7) by metis
  next
    case 6
    then obtain x where "p = [BC_POP_FIELD, x]" using assms(1) Cons by (auto simp: wf_instr_Cons2)
    then show ?thesis using that(3) runs_simple(8) by metis
  next
    case 7
    then show ?thesis using that(3)[of 0] runs_simple(9) assms(1) Cons by simp
  next
    case 8
    then show ?thesis using that(3)[of 1] runs_simple(10) assms(1) Cons by simp
  qed
qed (use assms in \<open>simp add: wf_instr_def\<close>)

subsection \<open>Equivalence of instruction sequences\<close>

text \<open>From every state that satisfies \<open>P\<close>, \<open>ks'\<close> gives the result or the error of \<open>ks\<close>, started as many bytes later as it
  is shorter.\<close>

definition code_equiv :: "(vmstate \<Rightarrow> bool) \<Rightarrow> byte list list \<Rightarrow> byte list list \<Rightarrow> bool" where
  "code_equiv P ks ks' \<longleftrightarrow> (\<forall>env s. P s \<longrightarrow>
     exec_seq env ks s = exec_seq env ks' (s\<lparr>pc := pc s + (length (concat ks) - length (concat ks'))\<rparr>))"

text \<open>The current frame has \<open>n\<close> operands and room for \<open>k\<close> more, and the next address is free.\<close>

definition stack_room :: "nat \<Rightarrow> nat \<Rightarrow> vmstate \<Rightarrow> bool" where
  "stack_room n k s \<longleftrightarrow> heap s (hp s) = None \<and>
     (case frame_at s (cur_frame s) of
        Inr f \<Rightarrow> n \<le> length (f_stack f) \<and> length (f_stack f) + k \<le> f_capacity f
      | Inl _ \<Rightarrow> False)"

lemma stack_roomE:
  assumes "stack_room n k s"
  obtains f where "frame_at s (cur_frame s) = Inr f" "n \<le> length (f_stack f)"
    "length (f_stack f) + k \<le> f_capacity f" "heap s (hp s) = None"
  using assms by (auto simp: stack_room_def split: sum.splits)

lemma code_equiv_runs:
  assumes "\<And>env. list_all2 (runs env) ks (hs env)" "\<And>env. list_all2 (runs env) ks' (gs env)"
    and "\<And>env s. P s \<Longrightarrow> seq_ops (hs env) s = seq_ops (gs env) s"
    and "length (concat ks') \<le> length (concat ks)"
  shows "code_equiv P ks ks'"
  unfolding code_equiv_def using runs_seq_eq[OF assms(1,2) assms(3)] assms(4) by (metis le_add_diff_inverse)

lemma dup_pop_equiv:
  assumes "wf_instr p" "IsPopSmthBytecode (hd p) \<noteq> BC_INVALID"
  shows "code_equiv (stack_room 1 1) [[BC_DUP], p, [BC_POP]] [p]"
proof -
  have eq: "res_bind (res_bind (doDup s) h) doPop = h s"
    if room: "stack_room 1 1 s" and
      h: "(\<exists>x y. h = doPopLocal x y) \<or> (\<exists>x y. h = doPopArgument x y) \<or> (\<exists>x. h = doPopFieldWithIndex x)" for h s
  proof -
    obtain f where f: "frame_at s (cur_frame s) = Inr f" "1 \<le> length (f_stack f)"
      "length (f_stack f) < f_capacity f" using room by (auto elim: stack_roomE)
    obtain v st where st: "f_stack f = v # st" using f(2) by (cases "f_stack f") auto
    have dup: "doDup s = Inr (set_stack (cur_frame s) (v # v # st) s)"
      using f st by (simp add: doDup_def GetStackElement_def Push_room)
    note dsp = dup_store_pop[OF _ f(1) st f(3) refl, unfolded dup res_bind_Inr]
    from h show ?thesis
    proof (elim disjE exE)
      fix x y assume "h = doPopLocal x y"
      then show ?thesis
        using dsp[of "SetLocal_frame (cur_frame s) x y"] stack_indep_SetLocal dup by (simp add: doPopLocal_alt)
    next
      fix x y assume "h = doPopArgument x y"
      then show ?thesis
        using dsp[of "SetArgument_frame (cur_frame s) x y"] stack_indep_SetArgument dup by (simp add: doPopArgument_alt)
    next
      fix x assume h: "h = doPopFieldWithIndex x"
      have indep: "stack_indep c (set_field_of_self msg self i v)" for c msg self i v
        using stack_indep_SetField by (cases self) (auto simp: set_field_of_self_def stack_indep_def)
      show ?thesis
        using dsp[of "\<lambda>v. set_field_of_self ''Integers do not have fields that can be set'' w (unat x) v" for w] indep dup
        by (cases "GetSelf s") (simp_all add: h doPopFieldWithIndex_def)
    qed
  qed
  have "list_all2 (runs env) [[BC_DUP], p, [BC_POP]] [doDup, h, doPop]" if "runs env p h" for env h
    using that runs_simple by simp
  then have "code_equiv (stack_room 1 1) [[BC_DUP], p, [BC_POP]] [p]"
    if "\<And>env. runs env p h" "(\<exists>x y. h = doPopLocal x y) \<or> (\<exists>x y. h = doPopArgument x y) \<or> (\<exists>x. h = doPopFieldWithIndex x)" for h
    using that eq[OF _ that(2)]
    by (intro code_equiv_runs[where hs = "\<lambda>_. [doDup, h, doPop]" and gs = "\<lambda>_. [h]"]) (auto simp: res_bind_assoc seq_ops_fun)
  moreover have "\<exists>h. (\<forall>env. runs env p h) \<and> ((\<exists>x y. h = doPopLocal x y) \<or> (\<exists>x y. h = doPopArgument x y) \<or> (\<exists>x. h = doPopFieldWithIndex x))"
    using assms by (cases rule: pop_smth_runs) blast+
  ultimately show ?thesis by blast
qed

subsection \<open>Counting a field\<close>

lemma allocate_eq: "allocate ob s = (hp s, (set_heap (hp s) ob s)\<lparr>hp := hp s + 1\<rparr>)"
  by (simp add: allocate_def set_heap_def)

lemma frame_at_hp [simp]: "frame_at (s\<lparr>hp := n\<rparr>) a = frame_at s a"
  by (simp add: frame_at_def)

text \<open>Counting allocates at most one object at the next free address.\<close>

lemma count_value_heap:
  assumes "count_value op d v s = Inr (w, s')" "heap s (hp s) = None"
  shows "heap s a = Some ob \<Longrightarrow> heap s' a = Some ob" "cur_frame s' = cur_frame s" "pc s' = pc s" "hp s \<le> hp s'"
  using assms by (auto simp: count_value_def NEW_INT_def allocate_eq split: oop.splits if_splits option.splits)

lemma count_value_set_stack:
  assumes "frame_at s c = Inr f" "heap s (hp s) = None"
  shows "count_value op d v (set_stack c st s) = res_bind (count_value op d v s) (\<lambda>(w, s'). Inr (w, set_stack c st s'))"
proof -
  have c: "c \<noteq> hp s" using assms by (auto simp: frame_at_Inr)
  have h: "heap (set_stack c st s) a = (if a = c then Some (VMFrm (f\<lparr>f_stack := st\<rparr>)) else heap s a)" for a
    using assms(1) by (simp add: set_stack_frame)
  have alloc: "allocate ob (set_stack c st s) = (hp s, set_stack c st (snd (allocate ob s)))" for ob
    using c assms(1) by (simp add: allocate_eq set_stack_frame frame_at_Inr set_heap_def fun_upd_twist frame_at_def)
  have new: "NEW_INT x (set_stack c st s) = res_bind (NEW_INT x s) (\<lambda>(w, s'). Inr (w, set_stack c st s'))" for x
    using alloc by (auto simp: NEW_INT_def res_bind_assoc allocate_def intro!: arg_cong2[where f = res_bind])
  have cls: "CLASS_OF (set_stack c st s) v = CLASS_OF s v" "double_at (set_stack c st s) v = double_at s v"
    using assms(1) by (cases v; auto simp: heap_at_def double_at_def h frame_at_Inr)+
  show ?thesis
  proof (cases v)
    case (SmallInt x)
    then show ?thesis using new by (simp add: count_value_def)
  next
    case (Ptr a)
    then show ?thesis
      using alloc cls by (cases "CLASS_OF s v")
        (auto simp: count_value_def allocate_def simp del: CLASS_OF.simps split: option.splits)
  qed
qed

lemma GetField_Inr: "GetField s a i = Inr v \<longleftrightarrow> (\<exists>c fs. heap s a = Some (VMObj c fs) \<and> i < length fs \<and> v = fs ! i)"
  by (auto simp: GetField_def heap_at_def split: option.splits hobj.splits if_splits)

lemma GetField_set_stack: "frame_at s c = Inr f \<Longrightarrow> GetField (set_stack c st s) a i = GetField s a i"
  by (simp add: GetField_def heap_at_def set_stack_frame frame_at_Inr)

lemma field_of_self_set_stack: "frame_at s c = Inr f \<Longrightarrow> field_of_self (set_stack c st s) v i = field_of_self s v i"
  by (simp add: field_of_self_def GetField_set_stack split: oop.splits)

lemma outer_context_mono:
  assumes "\<And>a f. frame_at s a = Inr f \<Longrightarrow> frame_at s' a = Inr f" "outer_context n s a = Inr c" "n \<le> n'"
  shows "outer_context n' s' a = Inr c"
  using assms(2,3)
proof (induction n arbitrary: a n')
  case (Suc n)
  then obtain k where k: "n' = Suc k" "n \<le> k" by (cases n') auto
  obtain f where "frame_at s a = Inr f" using Suc.prems(1) by auto
  moreover from this have "frame_at s' a = Inr f" by (rule assms(1))
  ultimately show ?case using Suc.prems(1) Suc.IH[of _ k] k by (auto split: option.splits)
qed simp

lemma GetSelf_mono:
  assumes "\<And>a f. frame_at s a = Inr f \<Longrightarrow> frame_at s' a = Inr f" "GetSelf s = Inr v"
    "cur_frame s' = cur_frame s" "hp s \<le> hp s'"
  shows "GetSelf s' = Inr v"
proof -
  obtain c f where c: "outer_context (Suc (hp s)) s (cur_frame s) = Inr c" "frame_at s c = Inr f"
      "nth_slot ''argument'' (f_args f) 0 = Inr v"
    using assms(2) by (auto simp: GetSelf_def GetOuterContext_def GetArgument_frame_def)
  have "outer_context (Suc (hp s')) s' (cur_frame s) = Inr c"
    by (rule outer_context_mono[OF assms(1) c(1)]) (use assms(4) in auto)
  then show ?thesis unfolding GetSelf_def GetOuterContext_def assms(3)
    using assms(1)[OF c(2)] c(3) by (simp only: res_bind_Inr) (simp add: GetArgument_frame_def)
qed

text \<open>What counting a field does, up to the final push: the counted value and the state in which it is stored.\<close>

definition counted_field :: "vmenv \<Rightarrow> byte \<Rightarrow> vmstate \<Rightarrow> (oop \<times> vmstate) res" where
  "counted_field env i s =
     res_bind (GetSelf s) (\<lambda>self.
     res_bind (field_of_self s self (unat i)) (\<lambda>val.
     res_bind (count_value (dbl_add env) 1 val s) (\<lambda>(v, s1).
     res_bind (SetField (AS_OBJ self) (unat i) v s1) (\<lambda>s2. Inr (v, s2)))))"

lemma doIncField_counted: "doIncField env i s = res_bind (counted_field env i s) (\<lambda>(v, s2). Inr s2)"
  by (simp add: doIncField_def counted_field_def res_bind_assoc case_prod_unfold)

lemma doIncFieldPush_counted:
  "doIncFieldPush env i s = res_bind (counted_field env i s) (\<lambda>(v, s2). Push (cur_frame s2) v s2)"
  by (simp add: doIncFieldPush_def counted_field_def res_bind_assoc case_prod_unfold)

lemma counted_field_frame:
  assumes "counted_field env i s = Inr (v, s2)" "frame_at s c = Inr f" "heap s (hp s) = None"
  shows "frame_at s2 c = Inr f" "cur_frame s2 = cur_frame s" "pc s2 = pc s"
proof -
  obtain self val s1 where s1: "field_of_self s self (unat i) = Inr val"
      "count_value (dbl_add env) 1 val s = Inr (v, s1)" "SetField (AS_OBJ self) (unat i) v s1 = Inr s2"
    using assms(1) by (auto simp: counted_field_def)
  note h = count_value_heap[OF s1(2) assms(3)]
  obtain a cl fs where a: "self = Ptr a" "heap s a = Some (VMObj cl fs)"
    using s1(1) by (auto simp: field_of_self_def GetField_Inr split: oop.splits)
  then have "s2 = set_heap a (VMObj cl (fs[unat i := v])) s1"
    using s1(3) h(1) by (auto simp: SetField_def AS_OBJ_def heap_at_def split: if_splits)
  moreover have "a \<noteq> c" using a assms(2) by (auto simp: frame_at_Inr)
  moreover have "heap s1 c = Some (VMFrm f)" using h(1) assms(2) by (simp add: frame_at_Inr)
  ultimately show "frame_at s2 c = Inr f" "cur_frame s2 = cur_frame s" "pc s2 = pc s"
    using h(2,3) by (simp_all add: frame_at_Inr)
qed

lemma inc_field_pop:
  assumes "stack_room 0 1 s"
  shows "seq_ops [doIncFieldPush env i, doPop] s = doIncField env i s"
proof (cases "counted_field env i s")
  case (Inr r)
  obtain v s2 where r: "r = (v, s2)" by fastforce
  obtain f where f: "frame_at s (cur_frame s) = Inr f" "length (f_stack f) < f_capacity f" "heap s (hp s) = None"
    using assms by (auto elim: stack_roomE)
  have f2: "frame_at s2 (cur_frame s2) = Inr f" using counted_field_frame[of env i s v s2] Inr r f by simp
  have "doPop (set_stack (cur_frame s2) (v # f_stack f) s2) = Inr s2"
    using f2 by (simp add: doPop_def Pop_cons[OF frame_at_set_stack[OF f2, THEN trans]] set_stack_same)
  then show ?thesis
    using Inr r f(2) f2 by (simp add: seq_ops_fun doIncField_counted doIncFieldPush_counted Push_room)
qed (simp add: doIncField_counted doIncFieldPush_counted)

lemma push_inc_dup_pop:
  assumes "stack_room 0 2 s"
  shows "seq_ops [doPushFieldWithIndex i, doInc env, doDup, doPopFieldWithIndex i] s = doIncFieldPush env i s"
proof -
  obtain f where f: "frame_at s (cur_frame s) = Inr f" "Suc (length (f_stack f)) < f_capacity f" "heap s (hp s) = None"
    using assms by (auto elim: stack_roomE)
  let ?c = "cur_frame s" and ?st = "f_stack f"
  show ?thesis
  proof (cases "\<exists>self val. GetSelf s = Inr self \<and> field_of_self s self (unat i) = Inr val")
    case False
    then show ?thesis
      by (cases "GetSelf s"; cases "field_of_self s (projr (GetSelf s)) (unat i)")
        (auto simp: seq_ops_fun doPushFieldWithIndex_def doIncFieldPush_def)
  next
    case True
    then obtain self val where self: "GetSelf s = Inr self" "field_of_self s self (unat i) = Inr val" by blast
    let ?s1 = "set_stack ?c (val # ?st) s"
    have push: "doPushFieldWithIndex i s = Inr ?s1"
      using self f by (simp add: doPushFieldWithIndex_def Push_room)
    have f1: "frame_at ?s1 ?c = Inr (f\<lparr>f_stack := val # ?st\<rparr>)" using f(1) by (simp add: frame_at_set_stack)
    show ?thesis
    proof (cases "count_value (dbl_add env) 1 val s")
      case (Inl e)
      then show ?thesis
        using self push f1 count_value_set_stack[OF f(1,3)]
        by (simp add: seq_ops_fun doInc_def Top_cons doIncFieldPush_def)
    next
      case (Inr r)
      obtain v s' where r: "r = (v, s')" by fastforce
      note h = count_value_heap[OF Inr[unfolded r] f(3)]
      have f': "frame_at s' ?c = Inr f" using h(1) f(1) by (simp add: frame_at_Inr)
      have inc: "doInc env ?s1 = Inr (set_stack ?c (v # ?st) s')"
        using Inr r f1 f' h(2) count_value_set_stack[OF f(1,3)]
        by (simp add: doInc_def Top_cons SetTop_cons[OF frame_at_set_stack[OF f', THEN trans]])
      have dup: "doDup (set_stack ?c (v # ?st) s') = Inr (set_stack ?c (v # v # ?st) s')"
        using f(2) h(2) f' by (simp add: doDup_def GetStackElement_def frame_at_set_stack
          Push_room[OF frame_at_set_stack[OF f', THEN trans]])
      have gs: "GetSelf s' = Inr self"
        using GetSelf_mono[OF _ self(1) h(2,4)] h(1) by (simp add: frame_at_Inr)
      have pop: "Pop ?c (set_stack ?c (v # v # ?st) s') = Inr (v, set_stack ?c (v # ?st) s')"
        using f' by (simp add: Pop_cons[OF frame_at_set_stack[OF f', THEN trans]])
      obtain a where a: "self = Ptr a" using self(2) by (auto simp: field_of_self_def split: oop.splits)
      note ind = stack_indepD[OF stack_indep_SetField f', of a "unat i" v]
      have "doPopFieldWithIndex i (set_stack ?c (v # v # ?st) s')
          = res_bind (SetField a (unat i) v s') (\<lambda>s2. Push (cur_frame s2) v s2)"
      proof (cases "SetField a (unat i) v s'")
        case (Inr s2)
        obtain f2 where "frame_at s2 ?c = Inr f2" "f_stack f2 = ?st" "f_capacity f2 = f_capacity f"
          using ind(4)[OF Inr] by blast
        then show ?thesis
          using Inr gs pop a ind(1) ind(2)[OF Inr] h(2) f(2)
          by (simp add: doPopFieldWithIndex_def set_field_of_self_def Push_room)
      qed (use gs pop a ind(1) h(2) in \<open>simp add: doPopFieldWithIndex_def set_field_of_self_def\<close>)
      then show ?thesis
        using push inc dup self Inr r a by (simp add: seq_ops_fun doIncFieldPush_def AS_OBJ_def)
    qed
  qed
qed

lemma alloc_state_pc: "s\<lparr>pc := p, heap := h, hp := n\<rparr> = s\<lparr>heap := h, hp := n, pc := p\<rparr>"
  by (cases s) simp

lemma count_value_pc:
  "count_value op d v (s\<lparr>pc := p\<rparr>) = res_bind (count_value op d v s) (\<lambda>(w, s'). Inr (w, s'\<lparr>pc := p\<rparr>))"
  "count_value op d v s = Inr (w, s') \<Longrightarrow> pc s' = pc s"
proof -
  show "count_value op d v s = Inr (w, s') \<Longrightarrow> pc s' = pc s"
    by (auto simp: count_value_def NEW_INT_def allocate_eq split: oop.splits if_splits option.splits)
  have new: "NEW_INT x (s\<lparr>pc := p\<rparr>) = res_bind (NEW_INT x s) (\<lambda>(w, s'). Inr (w, s'\<lparr>pc := p\<rparr>))" for x
    by (auto simp: NEW_INT_def res_bind_assoc allocate_def alloc_state_pc)
  show "count_value op d v (s\<lparr>pc := p\<rparr>) = res_bind (count_value op d v s) (\<lambda>(w, s'). Inr (w, s'\<lparr>pc := p\<rparr>))"
  proof (cases v)
    case (SmallInt x)
    then show ?thesis using new by (simp add: count_value_def)
  next
    case (Ptr a)
    then show ?thesis
      by (cases "CLASS_OF s v") (auto simp: count_value_def allocate_def alloc_state_pc simp del: CLASS_OF.simps split: option.splits)
  qed
qed

lemma pc_indep_count:
  assumes "\<And>v. pc_indep (g v)"
  shows "pc_indep (\<lambda>s. res_bind (count_value op d x s) (\<lambda>(v, s1). g v s1))"
proof -
  have "(\<lambda>(v, s1). g v s1) (w, s1\<lparr>pc := p\<rparr>) = res_bind (g w s1) (\<lambda>s'. Inr (s'\<lparr>pc := p\<rparr>))" for w s1 p
    using pc_indepD[OF assms] by simp
  then show ?thesis using pc_indep_pc[OF assms]
    by (auto simp: pc_indep_def count_value_pc(1) res_bind_def split: sum.splits dest!: count_value_pc(2))
qed

lemma Push_cur_pc: "pc_indep (\<lambda>s. Push (cur_frame s) v s)" "pc_indep (\<lambda>s. SetTop (cur_frame s) v s)"
  using Push_pc SetTop_pc by (auto simp: pc_indep_def)

lemma field_ops_pc:
  "pc_indep (doPushFieldWithIndex i)" "pc_indep (doInc env)" "pc_indep (doIncField env i)" "pc_indep (doIncFieldPush env i)"
proof -
  show "pc_indep (doPushFieldWithIndex i)"
    unfolding doPushFieldWithIndex_def[abs_def] by (intro pc_indep_bind_state Push_cur_pc) simp_all
  show "pc_indep (doInc env)"
    unfolding doInc_def[abs_def]
    by (rule pc_indep_bind_state[where m = "\<lambda>s. Top s (cur_frame s)"]) (auto intro: pc_indep_count Push_cur_pc)
  show "pc_indep (doIncField env i)"
    unfolding doIncField_def[abs_def] by (intro pc_indep_bind_state pc_indep_count SetField_pc) simp_all
  show "pc_indep (doIncFieldPush env i)"
    unfolding doIncFieldPush_def[abs_def]
    by (intro pc_indep_bind_state pc_indep_count pc_indep_bind[OF SetField_pc] Push_cur_pc) simp_all
qed

lemma runs_field:
  "runs env [BC_INC_FIELD, x] (doIncField env x)" "runs env [BC_INC_FIELD_PUSH, x] (doIncFieldPush env x)"
  "runs env [BC_INC] (doInc env)" "runs env (pop_field_instr x) (doPopFieldWithIndex x)"
  by (simp_all add: runs_def exec_defs field_ops_pc pop_field_instr_def doPopField_pc)

lemma push_field_index_cases:
  assumes "push_field_index p = Some i"
  shows "p = [BC_PUSH_FIELD_0] \<and> i = 0 \<or> p = [BC_PUSH_FIELD_1] \<and> i = 1 \<or> p = [BC_PUSH_FIELD, i]"
  using assms by (cases p rule: push_field_index.cases) (auto split: if_splits)

lemma runs_push_field: "push_field_index p = Some i \<Longrightarrow> runs env p (doPushFieldWithIndex i)"
  by (drule push_field_index_cases) (auto simp: runs_def exec_defs field_ops_pc)

lemma inc_field_equiv: "code_equiv (stack_room 0 1) [[BC_INC_FIELD_PUSH, x], [BC_POP]] [[BC_INC_FIELD, x]]"
  by (rule code_equiv_runs[where hs = "\<lambda>env. [doIncFieldPush env x, doPop]" and gs = "\<lambda>env. [doIncField env x]"])
    (auto simp: runs_field runs_simple inc_field_pop simp del: seq_ops.simps, simp add: seq_ops_fun)

lemma inc_field_push_equiv:
  assumes "push_field_index p = Some i"
  shows "code_equiv (stack_room 0 2) [p, [BC_INC], [BC_DUP], pop_field_instr i] [[BC_INC_FIELD_PUSH, i]]"
proof (rule code_equiv_runs[where hs = "\<lambda>env. [doPushFieldWithIndex i, doInc env, doDup, doPopFieldWithIndex i]"
      and gs = "\<lambda>env. [doIncFieldPush env i]"])
  show "seq_ops [doPushFieldWithIndex i, doInc env, doDup, doPopFieldWithIndex i] s = seq_ops [doIncFieldPush env i] s"
    if "stack_room 0 2 s" for env s
    using push_inc_dup_pop[OF that] by (simp add: seq_ops_fun)
  show "list_all2 (runs env) [p, [BC_INC], [BC_DUP], pop_field_instr i]
      [doPushFieldWithIndex i, doInc env, doDup, doPopFieldWithIndex i]" for env
    using runs_push_field[OF assms] by (simp add: runs_field runs_simple)
qed (auto simp: runs_field)

lemma push_field_return:
  assumes "push_field_index p = Some i" "stack_room 0 1 s"
  shows "exec_seq env [p, [BC_RETURN_LOCAL]] s = doReturnFieldWithIndex i (s\<lparr>pc := pc s + length p + 1\<rparr>)"
proof -
  obtain f where f: "frame_at s (cur_frame s) = Inr f" "length (f_stack f) < f_capacity f"
    using assms(2) by (auto elim: stack_roomE)
  let ?s = "s\<lparr>pc := pc s + length p + 1\<rparr>"
  have "exec env [BC_RETURN_LOCAL] (set_stack (cur_frame s) (v # f_stack f) (s\<lparr>pc := pc s + length p\<rparr>))
      = popFrameAndPushResult v ?s" for v
    using f(1) by (simp add: exec_defs doReturnLocal_def set_stack_pc Pop_pc(1)
        Pop_cons[OF frame_at_set_stack[OF f(1), THEN trans]] set_stack_same)
  then show ?thesis
    using runs_push_field[OF assms(1), of env] f
    by (cases "GetSelf s"; cases "field_of_self s (projr (GetSelf s)) (unat i)")
      (simp_all add: runs_def doPushFieldWithIndex_def doReturnFieldWithIndex_def Push_room)
qed

lemma exec_return_field:
  assumes "unat i \<le> 2"
  shows "exec env (return_field_instr i) s = doReturnFieldWithIndex i (s\<lparr>pc := pc s + 1\<rparr>)"
proof -
  have "unat i = 0 \<or> unat i = 1 \<or> unat i = 2" using assms by auto
  then have "unat i = unat (0 :: byte) \<or> unat i = unat (1 :: byte) \<or> unat i = unat (2 :: byte)" by simp
  then have "i \<in> {0, 1, 2}" by (blast dest: unsigned_word_eqI)
  then show ?thesis by (auto simp: return_field_instr_def exec_defs)
qed

lemma return_field_equiv:
  assumes "push_field_index p = Some i" "unat i \<le> 2"
  shows "code_equiv (stack_room 0 1) [p, [BC_RETURN_LOCAL]] [return_field_instr i]"
  unfolding code_equiv_def
proof (intro allI impI)
  fix env s
  assume "stack_room 0 1 s"
  moreover have "length (concat [p, [BC_RETURN_LOCAL]]) - length (concat [return_field_instr i]) = length p"
    by (simp add: return_field_instr_def)
  ultimately show "exec_seq env [p, [BC_RETURN_LOCAL]] s = exec_seq env [return_field_instr i]
      (s\<lparr>pc := pc s + (length (concat [p, [BC_RETURN_LOCAL]]) - length (concat [return_field_instr i]))\<rparr>)"
    using push_field_return[OF assms(1)] exec_return_field[OF assms(2)] by simp
qed

end
