(* ===== verification/Optimizer.thy ===== *)
theory Optimizer
  imports Interp_Sem
begin

section \<open>The peephole optimiser preserves the meaning of the code\<close>

text \<open>
  The properties that combine the bytecode generator (\<open>EmitPOP\<close>, \<open>EmitPOPFIELD\<close>, \<open>EmitRETURNLOCAL\<close> with the
  optimisations they apply to the bytecodes emitted last) with the interpreter: the code vector
  they leave is, up to a common prefix, a sequence of instructions that the interpreter executes
  exactly like the sequence without the optimisation. \<open>parsed m is\<close> says that the code vector of \<open>m\<close> consists of
  the instructions \<open>is\<close> and that the buffer of the last four opcodes agrees with it.
\<close>

definition sample_class :: ClassGenerationContext where
  "sample_class = \<lparr>cname = ''Counter'', superName = ''Object'', classSide = False,
     instanceFields = [''a'', ''b'', ''count''], instanceMethods = [], classFields = [], classMethods = []\<rparr>"

definition sample_gen :: "byte list \<Rightarrow> byte list \<Rightarrow> mgenc" where
  "sample_gen code last4 = (NewMethodGenerationContext sample_class None)\<lparr>bytecode := code, last4Bytecodes := last4\<rparr>"

definition needed_operands :: "byte list list \<Rightarrow> nat" where
  "needed_operands ks = (if take 1 ks = [[BC_DUP]] then 1 else 0)"

lemma code_equiv_refl: "code_equiv P ks ks"
  by (simp add: code_equiv_def)

lemma pop_rewrite_equiv:
  assumes "pop_rewrite is is'" "list_all wf_instr is"
  shows "\<exists>js ks ks'. is @ [[BC_POP]] = js @ ks \<and> is' = js @ ks' \<and> code_equiv (stack_room (needed_operands ks) 1) ks ks'"
  using assms(1) unfolding pop_rewrite_def
proof (elim disjE exE conjE)
  fix js p
  assume "is = js @ [[BC_DUP], p]" "IsPopSmthBytecode (hd p) \<noteq> BC_INVALID" "is' = js @ [p]"
  moreover from this have "code_equiv (stack_room 1 1) [[BC_DUP], p, [BC_POP]] [p]"
    using assms(2) by (intro dup_pop_equiv) auto
  ultimately show ?thesis
    by (intro exI[of _ js] exI[of _ "[[BC_DUP], p, [BC_POP]]"] exI[of _ "[p]"]) (simp add: needed_operands_def)
next
  fix js x
  assume "is = js @ [[BC_INC_FIELD_PUSH, x]]" "is' = js @ [[BC_INC_FIELD, x]]"
  then show ?thesis using inc_field_equiv[of x]
    by (intro exI[of _ js] exI[of _ "[[BC_INC_FIELD_PUSH, x], [BC_POP]]"] exI[of _ "[[BC_INC_FIELD, x]]"])
      (simp add: needed_operands_def)
qed

text \<open>C3. \<open>EmitPOP\<close> always succeeds on a consistent generator state and leaves one; the code it leaves differs from
  the unoptimised code only in a tail that the interpreter executes with the same results and the
  same errors, from every state with a free operand slot (and the operand that a leading \<open>DUP\<close> copies).\<close>

theorem EmitPOP_meaning:
  assumes "parsed m is"
  shows "\<exists>m' js ks ks'. EmitPOP m = Inr m' \<and> is @ [[BC_POP]] = js @ ks \<and> parsed m' (js @ ks') \<and>
    code_equiv (stack_room (needed_operands ks) 1) ks ks'"
proof -
  obtain m' is' where m': "EmitPOP m = Inr m'" "parsed m' is'"
    "is' = is @ [[BC_POP]] \<or> \<not> isCurrentlyInliningABlock m \<and> pop_rewrite is is'"
    using EmitPOP_parsed[OF assms] by blast
  have "list_all wf_instr is" using assms by (simp add: parsed_def)
  from m'(3) have "\<exists>js ks ks'. is @ [[BC_POP]] = js @ ks \<and> is' = js @ ks' \<and> code_equiv (stack_room (needed_operands ks) 1) ks ks'"
  proof (elim disjE conjE)
    assume "is' = is @ [[BC_POP]]"
    then show ?thesis using code_equiv_refl by (metis append_Nil2)
  next
    assume "pop_rewrite is is'"
    then show ?thesis using pop_rewrite_equiv \<open>list_all wf_instr is\<close> by blast
  qed
  then show ?thesis using m'(1,2) by metis
qed

theorem EmitPOP_meaning_witness:
  "\<exists>m' js ks ks'. EmitPOP (sample_gen [BC_DUP, BC_POP_LOCAL_0] [BC_INVALID, BC_INVALID, BC_DUP, BC_POP_LOCAL_0]) = Inr m' \<and>
     [[BC_DUP], [BC_POP_LOCAL_0]] @ [[BC_POP]] = js @ ks \<and> parsed m' (js @ ks') \<and>
     code_equiv (stack_room (needed_operands ks) 1) ks ks'"
  by (rule EmitPOP_meaning) (simp add: parsed_def sample_gen_def NewMethodGenerationContext_def)





end
