(* ===== verification/Lookup.thy ===== *)
theory Lookup
  imports Interp
begin

section \<open>Method lookup\<close>

text \<open>
  The contract of \<open>VMClass::LookupInvokable\<close>: it answers the first invokable with the given signature along the superclass
  chain, whatever the caches of the symbols hold, as long as every cached pair is the answer
  for its class. The cache itself is the interface \<open>memo_cache\<close>, which the three entries of a symbol implement.
  The last part is about \<open>VMClass::InstallPrimitive\<close>.
\<close>

subsection \<open>Caches\<close>

text \<open>What a client needs of a cache: an answer comes from an entry, an update adds at most the new
  entry, and the pair stored on a miss is found next.\<close>

locale memo_cache =
  fixes find :: "'c \<Rightarrow> 'k \<Rightarrow> 'v option"
    and store :: "'k \<Rightarrow> 'v \<Rightarrow> 'c \<Rightarrow> 'c"
    and entries :: "'c \<Rightarrow> ('k \<times> 'v) set"
    and inv :: "'c \<Rightarrow> bool"
  assumes find_entries: "inv c \<Longrightarrow> find c k = Some v \<Longrightarrow> (k, v) \<in> entries c"
    and entries_store: "inv c \<Longrightarrow> entries (store k v c) \<subseteq> insert (k, v) (entries c)"
    and find_store: "inv c \<Longrightarrow> find c k = None \<Longrightarrow> find (store k v c) k = Some v"
    and inv_store: "inv c \<Longrightarrow> inv (store k v c)"
begin

definition sound :: "('k \<Rightarrow> 'v \<Rightarrow> bool) \<Rightarrow> 'c \<Rightarrow> bool" where
  "sound R c \<longleftrightarrow> inv c \<and> (\<forall>(k, v) \<in> entries c. R k v)"

lemma sound_find: "sound R c \<Longrightarrow> find c k = Some v \<Longrightarrow> R k v"
  using find_entries unfolding sound_def by fast

lemma sound_store: "sound R c \<Longrightarrow> R k v \<Longrightarrow> sound R (store k v c)"
  using entries_store[of c k v] inv_store unfolding sound_def by fast

lemma sound_mono: "sound R c \<Longrightarrow> (\<And>k v. R k v \<Longrightarrow> R' k v) \<Longrightarrow> sound R' c"
  unfolding sound_def by fast

end

definition cache_inv :: "symcache \<Rightarrow> bool" where
  "cache_inv c \<longleftrightarrow> length (cachedClass c) = 3 \<and> length (cachedInvokable c) = 3 \<and> nextCachePos c < 3
     \<and> (\<forall>i < 3. cachedClass c ! i = None \<longleftrightarrow> cachedInvokable c ! i = None)"

definition cache_entries :: "symcache \<Rightarrow> (addr \<times> addr) set" where
  "cache_entries c = {(k, v). \<exists>i < 3. cachedClass c ! i = Some k \<and> cachedInvokable c ! i = Some v}"

lemma less_3: "i < (3 :: nat) \<longleftrightarrow> i = 0 \<or> i = 1 \<or> i = 2"
  by auto

interpretation symbol_cache: memo_cache GetCachedInvokable UpdateCachedInvokable cache_entries cache_inv
proof unfold_locales
  fix c :: symcache and k v
  assume inv: "cache_inv c"
  show "GetCachedInvokable c k = Some v \<Longrightarrow> (k, v) \<in> cache_entries c"
    unfolding GetCachedInvokable_def cache_entries_def
    by (auto split: if_splits intro: exI[of _ 0] exI[of _ 1] exI[of _ 2])
  show "cache_entries (UpdateCachedInvokable k v c) \<subseteq> insert (k, v) (cache_entries c)"
    using inv unfolding cache_inv_def cache_entries_def UpdateCachedInvokable_def
    by (auto simp: nth_list_update split: if_splits)
  show "cache_inv (UpdateCachedInvokable k v c)"
    using inv by (auto simp: cache_inv_def UpdateCachedInvokable_def nth_list_update)
  assume "GetCachedInvokable c k = None"
  then show "GetCachedInvokable (UpdateCachedInvokable k v c) k = Some v"
  proof -
    have "cachedClass c ! i \<noteq> Some k" if "i < 3" for i
      using that inv \<open>GetCachedInvokable c k = None\<close>
      by (auto simp: cache_inv_def GetCachedInvokable_def less_3 split: if_splits)
    moreover from inv have "nextCachePos c = 0 \<or> nextCachePos c = 1 \<or> nextCachePos c = 2" by (auto simp: cache_inv_def)
    ultimately show ?thesis
      using inv by (elim disjE) (simp_all add: cache_inv_def GetCachedInvokable_def UpdateCachedInvokable_def)
  qed
qed

subsection \<open>The superclass chain\<close>

definition wf_class :: "vmstate \<Rightarrow> addr \<Rightarrow> bool" where
  "wf_class s c \<longleftrightarrow> c < hp s \<and>
     (\<exists>invs. GetInstanceInvokables s c = Inr invs \<and> (\<forall>v \<in> set invs. \<exists>i. invokable_at s v = Inr i))"

inductive class_chain :: "vmstate \<Rightarrow> addr \<Rightarrow> addr list \<Rightarrow> bool" for s where
  chain_last: "wf_class s c \<Longrightarrow> GetSuperClass s c = Inr nilObject \<Longrightarrow> class_chain s c [c]"
| chain_step: "wf_class s c \<Longrightarrow> GetSuperClass s c = Inr (Ptr d) \<Longrightarrow> Ptr d \<noteq> nilObject \<Longrightarrow> class_chain s d cs
    \<Longrightarrow> class_chain s c (c # cs)"

inductive_cases class_chain_ConsE: "class_chain s c (d # cs)"

text \<open>The specification: a class's own invokable with a signature, and the first one along the chain.\<close>

fun own_invokable :: "vmstate \<Rightarrow> string \<Rightarrow> oop list \<Rightarrow> addr option" where
  "own_invokable s name [] = None"
| "own_invokable s name (v # vs) =
     (case invokable_at s v of
        Inr i \<Rightarrow> if inv_signature i = name then Some (AS_OBJ v) else own_invokable s name vs
      | Inl _ \<Rightarrow> None)"

definition class_invokable :: "vmstate \<Rightarrow> string \<Rightarrow> addr \<Rightarrow> addr option" where
  "class_invokable s name c = (case GetInstanceInvokables s c of Inr invs \<Rightarrow> own_invokable s name invs | Inl _ \<Rightarrow> None)"

fun spec_lookup :: "vmstate \<Rightarrow> string \<Rightarrow> addr list \<Rightarrow> addr option" where
  "spec_lookup s name [] = None"
| "spec_lookup s name (c # cs) =
     (case class_invokable s name c of Some i \<Rightarrow> Some i | None \<Rightarrow> spec_lookup s name cs)"

lemma find_invokable_own:
  "\<forall>v \<in> set invs. \<exists>i. invokable_at s v = Inr i \<Longrightarrow> find_invokable s name invs = Inr (own_invokable s name invs)"
proof (induction invs)
  case (Cons v vs)
  then obtain i where "invokable_at s v = Inr i" by auto
  moreover from this obtain a where "v = Ptr a" by (auto simp: invokable_at_def split: oop.splits)
  ultimately show ?case using Cons by (simp add: AS_OBJ_def)
qed simp

lemma class_chain_hd: "class_chain s c cs \<Longrightarrow> \<exists>ds. cs = c # ds"
  by (cases rule: class_chain.cases) auto

text \<open>The chain of a class is determined by the class, so no class occurs twice on it.\<close>

lemma class_chain_unique: "class_chain s c cs \<Longrightarrow> class_chain s c cs' \<Longrightarrow> cs = cs'"
proof (induction arbitrary: cs' rule: class_chain.induct)
  case (chain_last c)
  from chain_last(3) show ?case
  proof (cases rule: class_chain.cases)
    case (chain_step d ds)
    then show ?thesis using chain_last(2) by (metis Inr_inject)
  qed simp
next
  case (chain_step c d cs)
  from chain_step.prems show ?case
  proof (cases rule: class_chain.cases)
    case chain_last
    then show ?thesis using chain_step.hyps(2,3) by (metis Inr_inject)
  next
    case (chain_step e es)
    then show ?thesis using chain_step.hyps(2) chain_step.IH by (metis Inr_inject oop.inject(2))
  qed
qed

lemma class_chain_suffix: "class_chain s c cs \<Longrightarrow> d \<in> set cs \<Longrightarrow> \<exists>as ds. cs = as @ ds \<and> class_chain s d ds"
proof (induction rule: class_chain.induct)
  case (chain_last c)
  then show ?case using class_chain.chain_last by (metis append_Nil empty_iff empty_set set_ConsD)
next
  case (chain_step c e cs)
  show ?case
  proof (cases "d = c")
    case True
    then show ?thesis using class_chain.chain_step[OF chain_step.hyps] by (metis append_Nil)
  next
    case False
    then show ?thesis using chain_step by (metis append_Cons set_ConsD)
  qed
qed

lemma class_chain_distinct: "class_chain s c cs \<Longrightarrow> distinct cs"
proof (induction rule: class_chain.induct)
  case (chain_step c d cs)
  have chain: "class_chain s c (c # cs)" using class_chain.chain_step chain_step.hyps by blast
  have "c \<notin> set cs"
  proof
    assume "c \<in> set cs"
    then obtain as ds where "cs = as @ ds" "class_chain s c ds"
      using class_chain_suffix[OF chain_step.hyps(4)] by blast
    then show False using class_chain_unique[OF chain] by fastforce
  qed
  then show ?case using chain_step.IH by simp
qed simp

lemma class_chain_bounded: "class_chain s c cs \<Longrightarrow> set cs \<subseteq> {..<hp s}"
  by (induction rule: class_chain.induct) (auto simp: wf_class_def)

lemma class_chain_length: "class_chain s c cs \<Longrightarrow> length cs \<le> hp s"
  using class_chain_distinct[of s c cs] class_chain_bounded[of s c cs]
  by (metis card_lessThan card_mono distinct_card finite_lessThan)

subsection \<open>Cached lookup implements the specification\<close>

text \<open>Every cached pair is what the specification answers for its class.\<close>

definition cache_ok :: "vmstate \<Rightarrow> bool" where
  "cache_ok s \<longleftrightarrow> (\<forall>name. symbol_cache.sound
     (\<lambda>c i. \<exists>cs. class_chain s c cs \<and> spec_lookup s name cs = Some i) (symcaches s name))"

lemma state_caches [simp]:
  "heap_at (s\<lparr>symcaches := x\<rparr>) a = heap_at s a"
  by (simp add: heap_at_def)

lemma invokable_at_caches [simp]: "invokable_at (s\<lparr>symcaches := x\<rparr>) v = invokable_at s v"
  by (cases v) (simp_all add: invokable_at_def)

lemma class_caches [simp]:
  "GetField (s\<lparr>symcaches := x\<rparr>) a i = GetField s a i" "GetSuperClass (s\<lparr>symcaches := x\<rparr>) a = GetSuperClass s a"
  "GetInstanceInvokables (s\<lparr>symcaches := x\<rparr>) a = GetInstanceInvokables s a"
  "wf_class (s\<lparr>symcaches := x\<rparr>) a = wf_class s a"
proof -
  have [simp]: "array_at (s\<lparr>symcaches := x\<rparr>) = array_at s"
    by (rule ext) (simp add: array_at_def split: oop.splits)
  show "GetField (s\<lparr>symcaches := x\<rparr>) a i = GetField s a i" "GetSuperClass (s\<lparr>symcaches := x\<rparr>) a = GetSuperClass s a"
    "GetInstanceInvokables (s\<lparr>symcaches := x\<rparr>) a = GetInstanceInvokables s a"
    "wf_class (s\<lparr>symcaches := x\<rparr>) a = wf_class s a"
    by (simp_all add: GetField_def GetSuperClass_def GetInstanceInvokables_def wf_class_def)
qed

lemma class_chain_caches: "class_chain (s\<lparr>symcaches := x\<rparr>) c cs \<longleftrightarrow> class_chain s c cs"
proof
  show "class_chain (s\<lparr>symcaches := x\<rparr>) c cs \<Longrightarrow> class_chain s c cs"
    by (induction rule: class_chain.induct) (auto intro: class_chain.intros)
  show "class_chain s c cs \<Longrightarrow> class_chain (s\<lparr>symcaches := x\<rparr>) c cs"
    by (induction rule: class_chain.induct) (auto intro: class_chain.intros)
qed

lemma spec_lookup_caches: "spec_lookup (s\<lparr>symcaches := x\<rparr>) name cs = spec_lookup s name cs"
proof -
  have "own_invokable (s\<lparr>symcaches := x\<rparr>) name invs = own_invokable s name invs" for invs
    by (induction invs) (auto split: sum.splits)
  then show ?thesis
    by (induction cs) (auto simp: class_invokable_def split: sum.splits option.splits)
qed

lemma cache_ok_update:
  assumes "cache_ok s" "class_chain s c cs" "spec_lookup s name cs = Some i"
  shows "cache_ok (s\<lparr>symcaches := (symcaches s)(name := UpdateCachedInvokable c i (symcaches s name))\<rparr>)"
  unfolding cache_ok_def class_chain_caches spec_lookup_caches
proof
  fix name'
  let ?R = "\<lambda>n c i. \<exists>cs. class_chain s c cs \<and> spec_lookup s n cs = Some i"
  have old: "symbol_cache.sound (?R n) (symcaches s n)" for n
    using assms(1) by (simp add: cache_ok_def)
  show "symbol_cache.sound (?R name')
     (symcaches (s\<lparr>symcaches := (symcaches s)(name := UpdateCachedInvokable c i (symcaches s name))\<rparr>) name')"
    using old[of name'] symbol_cache.sound_store[OF old[of name], of c i] assms(2,3) by (cases "name' = name") auto
qed

lemma LookupInvokable_chain:
  assumes "class_chain s c cs" "cache_ok s" "length cs \<le> n"
  shows "\<exists>x. LookupInvokable n name c s = Inr (spec_lookup s name cs, s\<lparr>symcaches := x\<rparr>) \<and> cache_ok (s\<lparr>symcaches := x\<rparr>)"
  using assms
proof (induction arbitrary: n rule: class_chain.induct)
  case (chain_last c)
  then obtain k where n: "n = Suc k" by (cases n) auto
  have chain: "class_chain s c [c]" using chain_last by (auto intro: class_chain.intros)
  obtain invs where invs: "GetInstanceInvokables s c = Inr invs" "find_invokable s name invs = Inr (own_invokable s name invs)"
    using chain_last(1) find_invokable_own by (auto simp: wf_class_def)
  show ?case
  proof (cases "GetCachedInvokable (symcaches s name) c")
    case None
    then show ?thesis
      using n invs chain_last cache_ok_update[OF _ chain]
      by (cases "own_invokable s name invs")
        (auto simp: class_invokable_def intro: exI[of _ "symcaches s"])
  next
    case (Some i)
    then have "\<exists>cs. class_chain s c cs \<and> spec_lookup s name cs = Some i"
      using chain_last(3) symbol_cache.sound_find unfolding cache_ok_def by fastforce
    then have "spec_lookup s name [c] = Some i" using class_chain_unique[OF chain] by blast
    then show ?thesis using n Some chain_last(3) by (auto intro: exI[of _ "symcaches s"])
  qed
next
  case (chain_step c d cs)
  then obtain k where n: "n = Suc k" "length cs \<le> k" by (cases n) auto
  have chain: "class_chain s c (c # cs)" using chain_step by (auto intro: class_chain.intros)
  obtain invs where invs: "GetInstanceInvokables s c = Inr invs" "find_invokable s name invs = Inr (own_invokable s name invs)"
    using chain_step(1) find_invokable_own by (auto simp: wf_class_def)
  show ?case
  proof (cases "GetCachedInvokable (symcaches s name) c")
    case None
    then show ?thesis
      using n invs chain_step cache_ok_update[OF _ chain] chain_step.IH[OF chain_step.prems(1) n(2)]
      by (cases "own_invokable s name invs") (auto simp: class_invokable_def)
  next
    case (Some i)
    then have "\<exists>cs. class_chain s c cs \<and> spec_lookup s name cs = Some i"
      using chain_step.prems(1) symbol_cache.sound_find unfolding cache_ok_def by fastforce
    then have "spec_lookup s name (c # cs) = Some i" using class_chain_unique[OF chain] by blast
    then show ?thesis using n Some chain_step.prems(1) by (auto intro: exI[of _ "symcaches s"])
  qed
qed

subsection \<open>Installing a primitive\<close>

text \<open>States with the same objects, up to the holders of invokables.\<close>

definition same_signatures :: "vmstate \<Rightarrow> vmstate \<Rightarrow> bool" where
  "same_signatures s s' \<longleftrightarrow> (\<forall>a. heap s' a = heap s a \<or>
     (\<exists>i i'. heap s a = Some (VMInvok i) \<and> heap s' a = Some (VMInvok i') \<and> inv_signature i' = inv_signature i))"

lemma same_signatures_refl [simp]: "same_signatures s s"
  by (simp add: same_signatures_def)

lemma same_signatures_trans: "same_signatures s s' \<Longrightarrow> same_signatures s' s'' \<Longrightarrow> same_signatures s s''"
  unfolding same_signatures_def by (metis hobj.inject(8) option.inject)

lemma inv_signature_set_holder [simp]: "inv_signature (set_inv_holder h i) = inv_signature i"
  by (cases i) auto

lemma same_signatures_set_holder_step:
  "invokable_at s (Ptr a) = Inr i \<Longrightarrow> same_signatures s (set_heap a (VMInvok (set_inv_holder h i)) s)"
  by (auto simp: same_signatures_def invokable_at_def heap_at_def split: option.splits hobj.splits)

lemma set_holder_signatures:
  "set_holder n invo cls s = Inr s' \<Longrightarrow> same_signatures s s'"
  "SetHolderAll n vs cls s = Inr s' \<Longrightarrow> same_signatures s s'"
proof (induction n invo cls s and n vs cls s arbitrary: s' and s' rule: set_holder_SetHolderAll.induct)
  case (2 n invo cls s)
  then obtain i where i: "invokable_at s (Ptr invo) = Inr i" by auto
  show ?case
  proof (cases i)
    case (RMethod m)
    let ?s1 = "set_heap invo (VMInvok (set_inv_holder (Ptr cls) i)) s"
    have "SetHolderAll n (m_literals m) cls ?s1 = Inr s'" using 2(2) i RMethod by simp
    then have "same_signatures ?s1 s'" using 2(1) i RMethod by blast
    then show ?thesis using same_signatures_set_holder_step[OF i] same_signatures_trans by blast
  qed (use 2(2) i same_signatures_set_holder_step[OF i, of "Ptr cls"] in auto)
next
  case (4 n v vs cls s)
  show ?case
  proof (cases "\<exists>a i. v = Ptr a \<and> heap s a = Some (VMInvok i)")
    case True
    then obtain a i where a: "v = Ptr a" "heap s a = Some (VMInvok i)" by blast
    then obtain s1 where s1: "set_holder n a cls s = Inr s1" "SetHolderAll n vs cls s1 = Inr s'" using 4 by auto
    then have "same_signatures s s1" "same_signatures s1 s'" 
      using 4(10)[OF a refl s1(1)] 4(11)[OF a refl s1(2)] by blast+
    then show ?thesis by (rule same_signatures_trans)
  qed (use 4 in \<open>auto split: oop.splits option.splits hobj.splits\<close>)
qed auto

lemma same_signatures_invokable:
  "same_signatures s s' \<Longrightarrow> invokable_at s v = Inr i \<Longrightarrow> \<exists>i'. invokable_at s' v = Inr i' \<and> inv_signature i' = inv_signature i"
  unfolding same_signatures_def invokable_at_def heap_at_def
  by (cases v) (auto split: option.splits hobj.splits, (metis hobj.distinct hobj.inject(8) option.distinct(1) option.inject)+)

lemma same_signatures_class:
  assumes "same_signatures s s'" "GetInstanceInvokables s c = Inr invs"
  shows "GetInstanceInvokables s' c = Inr invs"
proof -
  have obj: "heap s a = Some ob \<Longrightarrow> (\<And>i. ob \<noteq> VMInvok i) \<Longrightarrow> heap s' a = Some ob" for a ob
    using assms(1) unfolding same_signatures_def by (metis option.inject)
  from assms(2) obtain cl fs a where "heap s c = Some (VMObj cl fs)" "3 < length fs" "fs ! 3 = Ptr a" "heap s a = Some (VMArr invs)"
    by (auto simp: GetInstanceInvokables_def GetField_def array_at_def heap_at_def
        split: option.splits hobj.splits if_splits oop.splits)
  then show ?thesis using obj by (simp add: GetInstanceInvokables_def GetField_def array_at_def heap_at_def)
qed

text \<open>The own invokable found is the first one with the signature.\<close>

lemma own_invokable_at:
  assumes "i < length invs" "invokable_at s (invs ! i) = Inr iv" "inv_signature iv = name"
    and "\<forall>j < i. \<exists>k. invokable_at s (invs ! j) = Inr k \<and> inv_signature k \<noteq> name"
  shows "own_invokable s name invs = Some (AS_OBJ (invs ! i))"
  using assms
proof (induction invs arbitrary: i)
  case (Cons v vs)
  show ?case
  proof (cases i)
    case (Suc j)
    then have "\<exists>k. invokable_at s v = Inr k \<and> inv_signature k \<noteq> name" using Cons.prems(4) by force
    moreover have "\<forall>l < j. \<exists>k. invokable_at s (vs ! l) = Inr k \<and> inv_signature k \<noteq> name"
      using Cons.prems(4) Suc by force
    ultimately show ?thesis using Cons.IH[of j] Cons.prems Suc by auto
  qed (use Cons.prems in simp)
qed simp

lemma find_same_signature_cases:
  assumes "find_same_signature s name k invs = Inr r"
  shows "case r of
      None \<Rightarrow> \<forall>j < length invs. \<exists>i. invokable_at s (invs ! j) = Inr i \<and> inv_signature i \<noteq> name
    | Some (n, iv) \<Rightarrow> k \<le> n \<and> n - k < length invs \<and> invokable_at s (invs ! (n - k)) = Inr iv \<and> inv_signature iv = name \<and>
        (\<forall>j < n - k. \<exists>i. invokable_at s (invs ! j) = Inr i \<and> inv_signature i \<noteq> name)"
  using assms
proof (induction invs arbitrary: k)
  case (Cons v vs)
  then obtain i where i: "invokable_at s v = Inr i" by auto
  show ?case
  proof (cases "inv_signature i = name")
    case True
    then show ?thesis using Cons.prems i by auto
  next
    case False
    then have "find_same_signature s name (k + 1) vs = Inr r" using Cons.prems i by simp
    note IH = Cons.IH[OF this]
    show ?thesis
    proof (cases r)
      case None
      then show ?thesis using IH i False by (auto simp: less_Suc_eq_0_disj)
    next
      case (Some p)
      obtain n iv where p: "p = (n, iv)" by fastforce
      then have "n - k = Suc (n - (k + 1))" "k + 1 \<le> n" using IH Some by auto
      then show ?thesis using IH i False Some p by (auto simp: less_Suc_eq_0_disj)
    qed
  qed
qed simp

lemma class_invokable_first:
  assumes "same_signatures s1 s'" "GetInstanceInvokables s1 c = Inr xs" "i < length xs" "xs ! i = Ptr invo"
    "invokable_at s1 (Ptr invo) = Inr p" "inv_signature p = name"
    "\<forall>j < i. \<exists>k. invokable_at s1 (xs ! j) = Inr k \<and> inv_signature k \<noteq> name"
  shows "class_invokable s' name c = Some invo"
proof -
  have "\<forall>j < i. \<exists>k. invokable_at s' (xs ! j) = Inr k \<and> inv_signature k \<noteq> name"
    using assms(7) same_signatures_invokable[OF assms(1)] by metis
  moreover obtain p' where "invokable_at s' (Ptr invo) = Inr p'" "inv_signature p' = name"
    using same_signatures_invokable[OF assms(1,5)] assms(6) by blast
  ultimately have "own_invokable s' name xs = Some invo"
    using own_invokable_at[of i xs s' p' name] assms(3,4) by (simp add: AS_OBJ_def)
  then show ?thesis
    using same_signatures_class[OF assms(1,2)] by (simp add: class_invokable_def)
qed

lemma GetInstanceInvokables_Inr:
  "GetInstanceInvokables s c = Inr invs \<longleftrightarrow>
     (\<exists>cl fs a. heap s c = Some (VMObj cl fs) \<and> 3 < length fs \<and> fs ! 3 = Ptr a \<and> heap s a = Some (VMArr invs))"
  by (auto simp: GetInstanceInvokables_def GetField_def array_at_def heap_at_def
      split: option.splits hobj.splits if_splits oop.splits)

lemma invokable_at_other:
  "invokable_at s v = Inr i \<Longrightarrow> heap s a = Some ob \<Longrightarrow> \<forall>k. ob \<noteq> VMInvok k \<Longrightarrow>
    invokable_at (set_heap a x s) v = Inr i"
  by (cases v) (auto simp: invokable_at_def heap_at_def split: option.splits hobj.splits)

lemma SetInstanceInvokable_state:
  assumes "SetInstanceInvokable cls i invo s = Inr s'" "GetInstanceInvokables s cls = Inr invs"
  shows "\<exists>s1. GetInstanceInvokables s1 cls = Inr (invs[i := Ptr invo]) \<and> i < length invs \<and> same_signatures s1 s' \<and>
    (\<forall>v k. invokable_at s v = Inr k \<longrightarrow> invokable_at s1 v = Inr k)"
proof -
  obtain cl fs a where h: "heap s cls = Some (VMObj cl fs)" "3 < length fs" "fs ! 3 = Ptr a" "heap s a = Some (VMArr invs)"
    using assms(2) by (auto simp: GetInstanceInvokables_Inr)
  let ?s1 = "set_heap a (VMArr (invs[i := Ptr invo])) s"
  have "i < length invs" "(if Ptr invo \<noteq> nilObject then SetHolder invo cls ?s1 else Inr ?s1) = Inr s'"
    using assms(1) h by (auto simp: SetInstanceInvokable_def SetIndexableField_def GetField_def heap_at_def array_at_def split: if_splits)
  moreover from this(2) have "same_signatures ?s1 s'"
    using set_holder_signatures(1) by (auto simp: SetHolder_def split: if_splits simp del: set_holder.simps)
  moreover have "GetInstanceInvokables ?s1 cls = Inr (invs[i := Ptr invo])"
    using h by (auto simp: GetInstanceInvokables_Inr)
  ultimately show ?thesis using invokable_at_other[OF _ h(4)] by blast
qed

text \<open>The extension of the invokables of a class by a new one.\<close>

lemma extend_invokables_state:
  assumes "GetInstanceInvokables s cls = Inr invs" "heap s (hp s) = None"
    and "SetField cls INSTANCEINVOKABLES (Ptr (hp s)) (snd (allocate (VMArr xs) s)) = Inr s1"
  shows "GetInstanceInvokables s1 cls = Inr xs" "\<forall>v k. invokable_at s v = Inr k \<longrightarrow> invokable_at s1 v = Inr k"
proof -
  obtain cl fs a where h: "heap s cls = Some (VMObj cl fs)" "3 < length fs" "heap s a = Some (VMArr invs)"
    using assms(1) by (auto simp: GetInstanceInvokables_Inr)
  let ?s0 = "snd (allocate (VMArr xs) s)"
  have s0: "heap ?s0 b = (if b = hp s then Some (VMArr xs) else heap s b)" for b by (simp add: allocate_def)
  have ne: "cls \<noteq> hp s" using h(1) assms(2) by auto
  have s1: "s1 = set_heap cls (VMObj cl (fs[3 := Ptr (hp s)])) ?s0"
    using assms(3) h(1,2) ne by (simp add: SetField_def heap_at_def s0)
  show "GetInstanceInvokables s1 cls = Inr xs"
    using h(2) ne unfolding s1 GetInstanceInvokables_Inr by (auto simp: s0)
  show "\<forall>v k. invokable_at s v = Inr k \<longrightarrow> invokable_at s1 v = Inr k"
  proof (intro allI impI)
    fix v k assume v: "invokable_at s v = Inr k"
    then have "invokable_at ?s0 v = Inr k"
      using assms(2) by (cases v) (auto simp: invokable_at_def heap_at_def s0 split: option.splits hobj.splits)
    then show "invokable_at s1 v = Inr k"
      unfolding s1 by (rule invokable_at_other[where ob = "VMObj cl fs"]) (use h(1) ne s0 in auto)
  qed
qed

text \<open>A class without superclass and with one method, and a primitive not yet installed.\<close>

definition sample_objects :: "addr \<Rightarrow> hobj option" where
  "sample_objects = [0 \<mapsto> VMObj 10 [], 30 \<mapsto> VMObj 40 [nilObject, Ptr 35, Ptr 31, Ptr 32], 31 \<mapsto> VMArr [],
     32 \<mapsto> VMArr [Ptr 33], 33 \<mapsto> VMInvok (RLiteralReturn ''foo'' nilObject 1 (SmallInt 7)),
     34 \<mapsto> VMInvok (RPrimitive ''foo'' nilObject 1 0), 35 \<mapsto> VMSym ''Sample'']"

definition sample_state :: vmstate where
  "sample_state = \<lparr>heap = sample_objects, hp = 60, symcaches = (\<lambda>_. empty_symcache), globals = Map.empty,
     cur_frame = 0, pc = 0\<rparr>"

lemma sample_invokables: "GetInstanceInvokables sample_state 30 = Inr [Ptr 33]"
  by (simp add: GetInstanceInvokables_def GetField_def array_at_def heap_at_def sample_state_def sample_objects_def)

lemma sample_chain: "class_chain sample_state 30 [30]"
proof (rule chain_last)
  have "invokable_at sample_state (Ptr 33) = Inr (RLiteralReturn ''foo'' nilObject 1 (SmallInt 7))"
    by (simp add: invokable_at_def heap_at_def sample_state_def sample_objects_def)
  then show "wf_class sample_state 30"
    using sample_invokables by (simp add: wf_class_def sample_state_def)
  show "GetSuperClass sample_state 30 = Inr nilObject"
    by (simp add: GetSuperClass_def GetField_def heap_at_def sample_state_def sample_objects_def)
qed

lemma sample_cache_ok: "cache_ok sample_state"
  by (auto simp: cache_ok_def symbol_cache.sound_def cache_inv_def cache_entries_def sample_state_def empty_symcache_def less_3)

text \<open>C2. \<open>LookupInvokable\<close> terminates without an error on every well-formed superclass chain and implements the
  specification: it answers the first invokable with the signature along the chain, whatever
  the caches of the symbols hold, provided every cached pair is itself such an answer; it changes
  nothing but the caches, and keeps that condition.\<close>

theorem LookupInvokable_refines:
  assumes "class_chain s c cs" "cache_ok s"
  shows "\<exists>caches. LookupInvokable_all name c s = Inr (spec_lookup s name cs, s\<lparr>symcaches := caches\<rparr>)
    \<and> cache_ok (s\<lparr>symcaches := caches\<rparr>)"
  unfolding LookupInvokable_all_def
  using LookupInvokable_chain[OF assms, of "Suc (hp s)"] class_chain_length[OF assms(1)] by auto

theorem LookupInvokable_refines_witness:
  "class_chain sample_state 30 [30] \<and> cache_ok sample_state \<and> spec_lookup sample_state ''foo'' [30] = Some 33 \<and>
   (\<exists>caches. LookupInvokable_all ''foo'' 30 sample_state = Inr (Some 33, sample_state\<lparr>symcaches := caches\<rparr>)
     \<and> cache_ok (sample_state\<lparr>symcaches := caches\<rparr>))"
proof -
  have "spec_lookup sample_state ''foo'' [30] = Some 33"
    by (simp add: class_invokable_def sample_invokables)
      (simp add: invokable_at_def heap_at_def sample_state_def sample_objects_def AS_OBJ_def)
  then show ?thesis
    using LookupInvokable_refines[OF sample_chain sample_cache_ok, of "''foo''"] sample_chain sample_cache_ok by simp
qed

text \<open>C23. When \<open>InstallPrimitive\<close> finishes, either the bytecode hash did not match and nothing has changed, or the
  primitive is the invokable that its class now has under its signature.\<close>

theorem InstallPrimitive_installs:
  assumes inst: "InstallPrimitive cls invo hash s = Inr (r, s')"
    and prim: "invokable_at s (Ptr invo) = Inr p" and fresh: "heap s (hp s) = None"
  shows "if r = HASH_MISMATCH then s' = s
    else (r = INSTALLED_REPLACED \<or> r = INSTALLED_ADDED) \<and> class_invokable s' (inv_signature p) cls = Some invo"
proof -
  obtain invs where invs: "GetInstanceInvokables s cls = Inr invs" using inst prim by (auto simp: InstallPrimitive_def)
  obtain found where found: "find_same_signature s (inv_signature p) 0 invs = Inr found"
    using inst prim invs by (auto simp: InstallPrimitive_def)
  note first = find_same_signature_cases[OF found]
  show ?thesis
  proof (cases found)
    case (Some q)
    obtain n old where q: "q = (n, old)" by fastforce
    show ?thesis
    proof (cases "r = HASH_MISMATCH")
      case True
      then show ?thesis using inst prim invs found Some q
        by (auto simp: InstallPrimitive_def Let_def split: if_splits vminvokable.splits)
    next
      case False
      then have "SetInstanceInvokable cls n invo s = Inr s'" "r = INSTALLED_REPLACED"
        using inst prim invs found Some q
        by (auto simp: InstallPrimitive_def Let_def split: if_splits vminvokable.splits)
      moreover from this obtain s1 where s1: "GetInstanceInvokables s1 cls = Inr (invs[n := Ptr invo])" "n < length invs"
          "same_signatures s1 s'" "\<forall>v k. invokable_at s v = Inr k \<longrightarrow> invokable_at s1 v = Inr k"
        using SetInstanceInvokable_state[OF _ invs] by blast
      moreover have "\<forall>j < n. \<exists>k. invokable_at s1 (invs[n := Ptr invo] ! j) = Inr k \<and> inv_signature k \<noteq> inv_signature p"
        using first Some q s1(4) by fastforce
      ultimately show ?thesis
        using class_invokable_first[OF s1(3,1), of n invo p] s1(2,4) prim by simp
    qed
  next
    case None
    then obtain s1 where s1: "SetField cls INSTANCEINVOKABLES (Ptr (hp s)) (snd (allocate (VMArr (invs @ [Ptr invo])) s)) = Inr s1"
        "(if Ptr invo \<noteq> nilObject then SetHolder invo cls s1 else Inr s1) = Inr s'" "r = INSTALLED_ADDED"
      using inst prim invs found by (auto simp: InstallPrimitive_def allocate_def simp del: set_holder.simps split: if_splits)
    then have "same_signatures s1 s'"
      using set_holder_signatures(1) by (auto simp: SetHolder_def split: if_splits simp del: set_holder.simps)
    moreover have "\<forall>j < length invs. \<exists>k. invokable_at s1 ((invs @ [Ptr invo]) ! j) = Inr k \<and> inv_signature k \<noteq> inv_signature p"
      using extend_invokables_state(2)[OF invs fresh s1(1)] first None by (fastforce simp: nth_append)
    ultimately show ?thesis
      using class_invokable_first[OF _ extend_invokables_state(1)[OF invs fresh s1(1)], of s' "length invs" invo p]
        extend_invokables_state(2)[OF invs fresh s1(1)] prim s1(3) by simp
  qed
qed

theorem InstallPrimitive_installs_witness:
  "\<exists>s'. InstallPrimitive 30 34 0 sample_state = Inr (INSTALLED_REPLACED, s') \<and> class_invokable s' ''foo'' 30 = Some 34"
proof -
  have p: "invokable_at sample_state (Ptr 34) = Inr (RPrimitive ''foo'' nilObject 1 0)" "heap sample_state (hp sample_state) = None"
    by (simp_all add: invokable_at_def heap_at_def sample_state_def sample_objects_def)
  have "\<exists>s'. InstallPrimitive 30 34 0 sample_state = Inr (INSTALLED_REPLACED, s')"
    by (simp add: InstallPrimitive_def SetInstanceInvokable_def SetIndexableField_def SetHolder_def Let_def GetInstanceInvokables_def GetField_def
        array_at_def invokable_at_def heap_at_def sample_state_def sample_objects_def nilObject_def)
  then show ?thesis using InstallPrimitive_installs[OF _ p(1,2)] by fastforce
qed

end
