(* ===== verification/Calls.thy ===== *)
theory Calls
  imports Lookup Optimizer
begin

section \<open>Calls, returns and trivial methods\<close>

text \<open>
  What a send and the matching return do to the two frames involved, and that a method the
  generator has replaced by a trivial method (a getter, a literal return) behaves like the
  bytecodes it stands for.
\<close>

lemma method_at_pc [simp]: "method_at (s\<lparr>pc := p\<rparr>) a = method_at s a"
  by (simp add: method_at_def)

lemma method_at_Inr: "method_at s a = Inr m \<longleftrightarrow> heap s a = Some (VMInvok (RMethod m))"
  by (auto simp: method_at_def split: option.splits hobj.splits vminvokable.splits)

lemma method_at_set_frame:
  "frame_at s a = Inr f \<Longrightarrow> method_at (set_heap a (VMFrm g) s) b = method_at s b"
  by (auto simp: method_at_def frame_at_Inr)

lemma PopN_stack:
  "frame_at s c = Inr f \<Longrightarrow> n \<le> length (f_stack f) \<Longrightarrow>
    PopN n c s = Inr (take n (f_stack f), set_stack c (drop n (f_stack f)) s)"
proof (induction n arbitrary: s f)
  case 0
  then show ?case by (simp add: set_stack_same)
next
  case (Suc n)
  then obtain v st where st: "f_stack f = v # st" by (cases "f_stack f") auto
  have "frame_at (set_stack c st s) c = Inr (f\<lparr>f_stack := st\<rparr>)" using Suc.prems by (simp add: frame_at_set_stack)
  from Suc.IH[OF this] show ?case using Suc.prems st by (simp add: Pop_cons)
qed

subsection \<open>A call and its return\<close>

text \<open>The frame a method is invoked in: the operands become its arguments, receiver first.\<close>

definition callee_frame :: "addr \<Rightarrow> addr \<Rightarrow> vmmethod \<Rightarrow> oop list \<Rightarrow> vmframe" where
  "callee_frame caller method m operands =
     \<lparr>f_previous = Some caller, f_context = None, f_method = method, f_args = rev operands,
      f_locals = replicate (m_nlocals m) nilObject, f_stack = [], f_capacity = m_maxstack m, f_bytecodeIndex = 0\<rparr>"

lemma map_rev_upt: "n \<le> length xs \<Longrightarrow> map (\<lambda>i. xs ! (n - 1 - i)) [0..<n] = rev (take n xs)"
  by (rule nth_equalityI) (auto simp: rev_nth)

text \<open>The state after a call: the caller has saved its bytecode index, the new frame runs from its start.\<close>

definition called_state :: "addr \<Rightarrow> vmmethod \<Rightarrow> vmframe \<Rightarrow> vmstate \<Rightarrow> vmstate" where
  "called_state method m f s =
     s\<lparr>heap := (heap s)(cur_frame s \<mapsto> VMFrm (f\<lparr>f_bytecodeIndex := pc s\<rparr>),
          hp s \<mapsto> VMFrm (callee_frame (cur_frame s) method m (take (unat (m_nargs m)) (f_stack f)))),
       hp := hp s + 1, cur_frame := hp s, pc := 0\<rparr>"

lemma method_Invoke_state:
  assumes f: "frame_at s (cur_frame s) = Inr f" and m: "method_at s method = Inr m" and fresh: "heap s (hp s) = None"
    and args: "unat (m_nargs m) \<le> length (f_stack f)"
  shows "method_Invoke method s = Inr (Some (hp s), called_state method m f s)"
proof -
  let ?c = "cur_frame s" and ?n = "unat (m_nargs m)"
  have ne: "?c \<noteq> hp s" "method \<noteq> hp s" "method \<noteq> ?c" using f m fresh by (auto simp: frame_at_Inr method_at_Inr)
  let ?s1 = "set_heap ?c (VMFrm (f\<lparr>f_bytecodeIndex := pc s\<rparr>)) s"
  have s1: "SetBytecodeIndex ?c (pc s) s = Inr ?s1" using f by (simp add: SetBytecodeIndex_def upd_frame_def)
  have m1: "method_at ?s1 method = Inr m" using m f by (simp add: method_at_set_frame)
  show ?thesis
    using f ne m1 m args map_rev_upt[OF args]
    by (simp add: method_Invoke_def s1 PushNewFrame_def NewFrame_def SetFrame_def SetBytecodeIndex_def upd_frame_def
        CopyArgumentsFrom_def allocate_def frame_at_def method_at_def set_heap_def called_state_def callee_frame_def
        fun_upd_twist Let_def)
qed

lemma set_stack_called: "frame_at s c = Inr f \<Longrightarrow> heap (set_stack c st s) = (heap s)(c \<mapsto> VMFrm (f\<lparr>f_stack := st\<rparr>))"
  by (simp add: set_stack_frame set_heap_def)

lemma return_state:
  assumes g: "frame_at s (cur_frame s) = Inr g" "f_previous g = Some c" and f: "frame_at s c = Inr f" "c \<noteq> cur_frame s"
    and m: "method_at s (f_method g) = Inr m" and n: "n = unat (m_nargs m)" "0 < n" "n \<le> length (f_stack f)"
    and cap: "length (f_stack f) \<le> f_capacity f"
  shows "popFrameAndPushResult v s = Inr (s\<lparr>heap := (heap s)(cur_frame s \<mapsto> VMFrm (g\<lparr>f_bytecodeIndex := pc s, f_previous := None\<rparr>),
      c \<mapsto> VMFrm (f\<lparr>f_stack := v # drop n (f_stack f)\<rparr>)), cur_frame := c, pc := f_bytecodeIndex f\<rparr>)"
proof -
  let ?g = "g\<lparr>f_bytecodeIndex := pc s, f_previous := None\<rparr>"
  let ?s1 = "s\<lparr>heap := (heap s)(cur_frame s \<mapsto> VMFrm ?g), cur_frame := c, pc := f_bytecodeIndex f\<rparr>"
  have pop: "popFrame s = Inr (cur_frame s, ?s1)"
    using g f by (simp add: popFrame_def SetFrame_def SetBytecodeIndex_def ClearPreviousFrame_def upd_frame_def frame_at_def
        set_heap_def Let_def)
  have fs: "frame_at ?s1 (cur_frame s) = Inr ?g" "frame_at ?s1 c = Inr f" using f by (simp_all add: frame_at_def)
  have ms: "method_at ?s1 (f_method g) = Inr m" using m g(1) by (auto simp: method_at_Inr frame_at_Inr)
  have popn: "PopN n c ?s1 = Inr (take n (f_stack f), set_stack c (drop n (f_stack f)) ?s1)"
    using PopN_stack[OF fs(2)] n(3) by simp
  have "frame_at (set_stack c (drop n (f_stack f)) ?s1) c = Inr (f\<lparr>f_stack := drop n (f_stack f)\<rparr>)"
    using fs(2) by (simp add: frame_at_set_stack)
  then have "Push c v (set_stack c (drop n (f_stack f)) ?s1) = Inr (set_stack c (v # drop n (f_stack f)) ?s1)"
    using Push_room n cap by simp
  then show ?thesis
    using pop fs ms popn n(1) by (simp add: popFrameAndPushResult_def set_stack_frame set_heap_def)
qed

text \<open>States that agree for the program: the same heap but for the frame of the finished call and the
  bytecode index saved in the current frame, which is written before it is read again.\<close>

definition agrees :: "addr \<Rightarrow> vmstate \<Rightarrow> vmstate \<Rightarrow> bool" where
  "agrees garbage s2 s3 \<longleftrightarrow> cur_frame s2 = cur_frame s3 \<and> pc s2 = pc s3 \<and> globals s2 = globals s3 \<and> symcaches s2 = symcaches s3 \<and>
     (\<forall>a. a \<noteq> garbage \<longrightarrow> a \<noteq> cur_frame s3 \<longrightarrow> heap s2 a = heap s3 a) \<and>
     (\<exists>f k. frame_at s3 (cur_frame s3) = Inr f \<and> frame_at s2 (cur_frame s2) = Inr (f\<lparr>f_bytecodeIndex := k\<rparr>))"

text \<open>A method about to be invoked: its receiver and arguments are on the stack of the current frame, the
  operands are no dangling pointers, and the addresses from \<open>hp\<close> on are free.\<close>

definition call_site :: "vmstate \<Rightarrow> vmframe \<Rightarrow> addr \<Rightarrow> vmmethod \<Rightarrow> bool" where
  "call_site s f meth m \<longleftrightarrow> frame_at s (cur_frame s) = Inr f \<and> method_at s meth = Inr m \<and> (\<forall>a \<ge> hp s. heap s a = None) \<and>
     0 < unat (m_nargs m) \<and> unat (m_nargs m) \<le> length (f_stack f) \<and> length (f_stack f) \<le> f_capacity f \<and>
     (\<forall>a. Ptr a \<in> set (f_stack f) \<longrightarrow> heap s a \<noteq> None)"

lemma call_siteD:
  assumes "call_site s f meth m"
  shows "frame_at s (cur_frame s) = Inr f" "method_at s meth = Inr m" "heap s (hp s) = None" "0 < unat (m_nargs m)"
    "unat (m_nargs m) \<le> length (f_stack f)" "length (f_stack f) \<le> f_capacity f"
    "Ptr a \<in> set (f_stack f) \<Longrightarrow> heap s a \<noteq> None" "cur_frame s \<noteq> hp s" "meth \<noteq> hp s" "meth \<noteq> cur_frame s"
  using assms by (auto simp: call_site_def frame_at_Inr method_at_Inr)

definition operands :: "vmmethod \<Rightarrow> vmframe \<Rightarrow> oop list" where
  "operands m f = take (unat (m_nargs m)) (f_stack f)"

lemma callee_sel [simp]: "cur_frame (called_state meth m f s) = hp s" "pc (called_state meth m f s) = 0"
  "hp (called_state meth m f s) = Suc (hp s)" "globals (called_state meth m f s) = globals s"
  "symcaches (called_state meth m f s) = symcaches s"
  by (simp_all add: called_state_def)

lemma callee_frames:
  assumes "call_site s f meth m"
  shows "frame_at (called_state meth m f s) (hp s) = Inr (callee_frame (cur_frame s) meth m (operands m f))"
    "frame_at (called_state meth m f s) (cur_frame s) = Inr (f\<lparr>f_bytecodeIndex := pc s\<rparr>)"
    "method_at (called_state meth m f s) meth = Inr m"
  using call_siteD[OF assms] by (simp_all add: called_state_def frame_at_def method_at_def operands_def)

lemma callee_heap: "a \<noteq> hp s \<Longrightarrow> a \<noteq> cur_frame s \<Longrightarrow> heap (called_state meth m f s) a = heap s a"
  by (simp add: called_state_def)

lemma operands_length: "call_site s f meth m \<Longrightarrow> length (operands m f) = unat (m_nargs m)"
  by (simp add: operands_def call_siteD)

lemma callee_argument:
  assumes "call_site s f meth m" "unat k < unat (m_nargs m)"
  shows "GetArgument_frame (called_state meth m f s) (hp s) k 0 = Inr (rev (operands m f) ! unat k)"
  using callee_frames(1)[OF assms(1)] assms(2) operands_length[OF assms(1)]
  by (simp add: GetArgument_frame_def callee_frame_def nth_slot_def)

lemma callee_self:
  assumes "call_site s f meth m"
  shows "GetSelf (called_state meth m f s) = Inr (rev (operands m f) ! 0)"
  using callee_frames(1)[OF assms] callee_argument[OF assms, of 0] call_siteD(4)[OF assms]
  by (simp add: GetSelf_def GetOuterContext_def callee_frame_def)

lemma callee_fields:
  assumes "call_site s f meth m" "v \<in> set (f_stack f)"
  shows "field_of_self (called_state meth m f s) v i = field_of_self s v i"
proof -
  have "v \<noteq> Ptr (hp s)" using call_siteD(3,7)[OF assms(1)] assms(2) by metis
  then show ?thesis
    using call_siteD(1)[OF assms(1)]
    by (cases v) (auto simp: field_of_self_def GetField_def heap_at_def called_state_def frame_at_Inr)
qed

lemma operands_stack: "call_site s f meth m \<Longrightarrow> i < unat (m_nargs m) \<Longrightarrow> rev (operands m f) ! i \<in> set (f_stack f)"
  using operands_length[of s f meth m] by (metis in_set_takeD length_rev nth_mem operands_def set_rev)

lemma call_site_invoke:
  "call_site s f meth m \<Longrightarrow> method_Invoke meth s = Inr (Some (hp s), called_state meth m f s)"
  using method_Invoke_state call_siteD by metis

lemma return_agrees:
  assumes "call_site s f meth m"
  shows "\<exists>s2. popFrameAndPushResult v ((called_state meth m f s)\<lparr>pc := p\<rparr>) = Inr s2 \<and>
    agrees (hp s) s2 (set_stack (cur_frame s) (v # drop (unat (m_nargs m)) (f_stack f)) s)"
proof -
  note cs = call_siteD[OF assms]
  let ?c = "called_state meth m f s" and ?st = "v # drop (unat (m_nargs m)) (f_stack f)"
  let ?g = "(callee_frame (cur_frame s) meth m (operands m f))\<lparr>f_bytecodeIndex := p, f_previous := None\<rparr>"
  let ?s2 = "?c\<lparr>pc := p, heap := (heap ?c)(hp s \<mapsto> VMFrm ?g,
        cur_frame s \<mapsto> VMFrm (f\<lparr>f_bytecodeIndex := pc s, f_stack := ?st\<rparr>)), cur_frame := cur_frame s, pc := pc s\<rparr>"
  have "popFrameAndPushResult v (?c\<lparr>pc := p\<rparr>) = Inr ?s2"
    by (subst return_state[where c = "cur_frame s" and f = "f\<lparr>f_bytecodeIndex := pc s\<rparr>" and m = m and n = "unat (m_nargs m)"])
      (use callee_frames[OF assms] cs in \<open>auto simp: callee_frame_def\<close>)
  moreover have "agrees (hp s) ?s2 (set_stack (cur_frame s) ?st s)"
    unfolding agrees_def
  proof (intro conjI exI[of _ "f\<lparr>f_stack := ?st\<rparr>"] exI[of _ "pc s"])
    show "frame_at ?s2 (cur_frame ?s2) = Inr (f\<lparr>f_stack := ?st\<rparr>\<lparr>f_bytecodeIndex := pc s\<rparr>)"
      by (simp add: frame_at_def)
    show "\<forall>a. a \<noteq> hp s \<longrightarrow> a \<noteq> cur_frame (set_stack (cur_frame s) ?st s) \<longrightarrow> heap ?s2 a = heap (set_stack (cur_frame s) ?st s) a"
      using cs by (simp add: callee_heap set_stack_called)
  qed (use cs in \<open>simp_all add: set_stack_frame\<close>)
  ultimately show ?thesis by blast
qed

subsection \<open>Trivial methods\<close>

lemma return_field_agrees:
  assumes cs: "call_site s f meth m" and n: "m_nargs m = 1"
  shows "case doReturnFieldWithIndex i ((called_state meth m f s)\<lparr>pc := p\<rparr>) of
      Inl e \<Rightarrow> getter_Invoke 1 (unat i) s = Inl e
    | Inr s2 \<Rightarrow> \<exists>s3. getter_Invoke 1 (unat i) s = Inr s3 \<and> agrees (hp s) s2 s3"
proof -
  let ?c = "cur_frame s"
  note d = call_siteD[OF cs]
  obtain self st where st: "f_stack f = self # st" using d(4,5) by (cases "f_stack f") auto
  have self: "GetSelf (called_state meth m f s) = Inr self"
    using callee_self[OF cs] n st by (simp add: operands_def)
  have fld: "field_of_self (called_state meth m f s) self (unat i) = field_of_self s self (unat i)"
    using callee_fields[OF cs] st by simp
  have pop: "PopN 1 ?c s = Inr ([self], set_stack ?c st s)" using PopN_stack[OF d(1), of 1] st by simp
  have f': "frame_at (set_stack ?c st s) ?c = Inr (f\<lparr>f_stack := st\<rparr>)" using d(1) by (simp add: frame_at_set_stack)
  have fld': "field_of_self (set_stack ?c st s) self (unat i) = field_of_self s self (unat i)"
    using field_of_self_set_stack[OF d(1)] .
  show ?thesis
  proof (cases "field_of_self s self (unat i)")
    case (Inl e)
    then show ?thesis using self fld pop fld' by (simp add: doReturnFieldWithIndex_def getter_Invoke_def)
  next
    case (Inr v)
    have "Push ?c v (set_stack ?c st s) = Inr (set_stack ?c (v # st) s)"
      using Push_room[OF f'] d(6) st by simp
    then have "getter_Invoke 1 (unat i) s = Inr (set_stack ?c (v # st) s)"
      using Inr pop fld' by (simp add: getter_Invoke_def)
    moreover obtain s2 where "popFrameAndPushResult v ((called_state meth m f s)\<lparr>pc := p\<rparr>) = Inr s2"
        "agrees (hp s) s2 (set_stack ?c (v # st) s)"
      using return_agrees[OF cs, of v p] n st by auto
    ultimately show ?thesis using self fld Inr by (simp add: doReturnFieldWithIndex_def)
  qed
qed

text \<open>The code of a method that is assembled as a getter.\<close>

lemma concat_wf_Nil: "list_all wf_instr js \<Longrightarrow> concat js = [] \<Longrightarrow> js = []"
  by (cases js) (auto simp: wf_instr_def)

lemma assemble_getter_cases:
  assumes "assembleTrivialMethod g = Inr (Some (VMGetter sig vars i))"
  shows "last4Bytecodes g ! 3 = BC_RETURN_LOCAL \<and> IsPushFieldBytecode (last4Bytecodes g ! 2) \<noteq> BC_INVALID \<and>
      assembleFieldGetter (last4Bytecodes g ! 2) g = Inr (Some (VMGetter sig vars i))
    \<or> IsReturnFieldBytecode (last4Bytecodes g ! 3) \<noteq> BC_INVALID \<and>
      assembleFieldGetterFromReturn (last4Bytecodes g ! 3) g = Inr (Some (VMGetter sig vars i))"
proof -
  have push: "IsPushFieldBytecode b \<noteq> BC_INVALID \<Longrightarrow> IsPushFieldBytecode b = b"
    and ret: "IsReturnFieldBytecode b \<noteq> BC_INVALID \<Longrightarrow> IsReturnFieldBytecode b = b" for b
    by (auto simp: IsPushFieldBytecode_def IsReturnFieldBytecode_def split: if_splits)
  have other: "assembleLiteralReturn b g \<noteq> Inr (Some (VMGetter sig vars i))"
    "assembleGlobalReturn g \<noteq> Inr (Some (VMGetter sig vars i))" "assembleFieldSetter g \<noteq> Inr (Some (VMGetter sig vars i))" for b
    by (auto simp: assembleLiteralReturn_def assembleGlobalReturn_def assembleFieldSetter_def Let_def
        split: list.splits literal.splits)
  show ?thesis
    using assms push[of "last4Bytecodes g ! 2"] ret[of "last4Bytecodes g ! 3"] other
    by (simp add: assembleTrivialMethod_def LastBytecodeIs_def lastBytecodeIsOneOf_def split: if_splits)
qed

lemma getter_code:
  assumes "parsed g is" "assembleTrivialMethod g = Inr (Some (VMGetter sig vars i))"
  obtains (push) p idx where "is = [p, [BC_RETURN_LOCAL]]" "push_field_index p = Some idx" "i = unat idx"
  | (return) idx where "is = [return_field_instr idx]" "unat idx \<le> 2" "i = unat idx"
  using assemble_getter_cases[OF assms(2)]
proof (elim disjE conjE)
  assume l3: "last4Bytecodes g ! 3 = BC_RETURN_LOCAL" and l2: "IsPushFieldBytecode (last4Bytecodes g ! 2) \<noteq> BC_INVALID"
    and get: "assembleFieldGetter (last4Bytecodes g ! 2) g = Inr (Some (VMGetter sig vars i))"
  have op: "last4Bytecodes g ! 2 = BC_PUSH_FIELD_0 \<or> last4Bytecodes g ! 2 = BC_PUSH_FIELD_1 \<or> last4Bytecodes g ! 2 = BC_PUSH_FIELD"
    using l2 by (auto simp: IsPushFieldBytecode_def split: if_splits)
  then have "last4Bytecodes g ! 3 \<noteq> BC_INVALID" "last4Bytecodes g ! 2 \<noteq> BC_INVALID" using l3 by auto
  then obtain js args args' where js: "is = js @ [last4Bytecodes g ! 2 # args', BC_RETURN_LOCAL # args]"
      "wf_instr (BC_RETURN_LOCAL # args)" "wf_instr (last4Bytecodes g ! 2 # args')" "list_all wf_instr js"
    using parsed_last2[OF assms(1)] l3 by metis
  have "length (bytecode g) = GetBytecodeLength (last4Bytecodes g ! 2) + 1"
    using get by (auto simp: assembleFieldGetter_def split: if_splits)
  moreover have "bytecode g = concat js @ (last4Bytecodes g ! 2 # args') @ [BC_RETURN_LOCAL]"
    using parsed_buffer(3)[OF assms(1)] js(1,2) by simp
  ultimately have "concat js = []" using js(3) by (simp add: wf_instr_length)
  then have is2: "is = [last4Bytecodes g ! 2 # args', [BC_RETURN_LOCAL]]" and bc: "bytecode g = (last4Bytecodes g ! 2 # args') @ [BC_RETURN_LOCAL]"
    using js concat_wf_Nil \<open>bytecode g = concat js @ _\<close> by auto
  from js(3) op show thesis
  proof (cases rule: push_field_cases)
    case 1
    then show thesis using push[OF is2, of 0] get by (auto simp: assembleFieldGetter_def split: if_splits)
  next
    case 2
    then show thesis using push[OF is2, of 1] get by (auto simp: assembleFieldGetter_def split: if_splits)
  next
    case (3 x)
    then show thesis using push[OF is2, of x] get bc by (auto simp: assembleFieldGetter_def split: if_splits)
  qed
next
  assume l3: "IsReturnFieldBytecode (last4Bytecodes g ! 3) \<noteq> BC_INVALID"
    and get: "assembleFieldGetterFromReturn (last4Bytecodes g ! 3) g = Inr (Some (VMGetter sig vars i))"
  have op: "last4Bytecodes g ! 3 \<in> {BC_RETURN_FIELD_0, BC_RETURN_FIELD_1, BC_RETURN_FIELD_2}"
    using l3 by (auto simp: IsReturnFieldBytecode_def split: if_splits)
  then have "last4Bytecodes g ! 3 \<noteq> BC_INVALID" by auto
  then obtain js args where js: "is = js @ [last4Bytecodes g ! 3 # args]" "wf_instr (last4Bytecodes g ! 3 # args)" "list_all wf_instr js"
    using parsed_last[OF assms(1)] by metis
  have "length (bytecode g) = GetBytecodeLength (last4Bytecodes g ! 3)"
    using get by (auto simp: assembleFieldGetterFromReturn_def split: if_splits)
  moreover have "bytecode g = concat js @ (last4Bytecodes g ! 3 # args)"
    using parsed_buffer(3)[OF assms(1)] js(1) by simp
  ultimately have "concat js = []" using js(2) by (simp add: wf_instr_length)
  then have is1: "is = [[last4Bytecodes g ! 3]]" using js op concat_wf_Nil by auto
  then show thesis using return[of 0] return[of 1] return[of 2] op get
    by (auto simp: assembleFieldGetterFromReturn_def return_field_instr_def split: if_splits)
qed

text \<open>An object with two fields, a method without arguments, and a frame that is about to send it.\<close>

definition sample_method :: vmmethod where
  "sample_method = \<lparr>m_signature = ''b'', m_holder = Ptr 30, m_nargs = 1, m_nlocals = 0, m_maxstack = 1,
     m_bytecodes = [BC_RETURN_FIELD_1], m_literals = []\<rparr>"

definition sample_frame :: vmframe where
  "sample_frame = \<lparr>f_previous = None, f_context = None, f_method = 40, f_args = [], f_locals = [],
     f_stack = [Ptr 41, nilObject], f_capacity = 3, f_bytecodeIndex = 0\<rparr>"

definition sample_call :: vmstate where
  "sample_call = \<lparr>heap = [0 \<mapsto> VMObj 10 [], 40 \<mapsto> VMInvok (RMethod sample_method), 41 \<mapsto> VMObj 30 [SmallInt 5, SmallInt 6],
     50 \<mapsto> VMFrm sample_frame], hp = 60, symcaches = (\<lambda>_. empty_symcache), globals = Map.empty, cur_frame = 50, pc = 12\<rparr>"

text \<open>An environment without primitives.\<close>

definition sample_env :: vmenv where
  "sample_env = \<lparr>unary_prim = (\<lambda>_ v s. Inr (v, s)), binary_prim = (\<lambda>_ v _ s. Inr (v, s)),
     ternary_prim = (\<lambda>_ v _ _ s. Inr (v, s)), frame_prim = (\<lambda>_. Inr), dbl_add = (+), dbl_sub = (-), dbl_gt = (>), native_depth = 8\<rparr>"

lemma sample_call_site: "call_site sample_call sample_frame 40 sample_method"
  by (auto simp: call_site_def sample_call_def sample_frame_def sample_method_def frame_at_def method_at_def nilObject_def)



text \<open>C4. A call and its return: the callee starts at its first bytecode with the receiver and the
  arguments of the caller's stack as its arguments, the receiver first; a local return from it
  takes them off the caller's stack, pushes the result there and resumes the caller where it was.\<close>

theorem call_and_return:
  assumes "call_site s f meth m"
    and "cur_frame s2 = hp s" "frame_at s2 (hp s) = Inr g" "f_previous g = Some (cur_frame s)" "f_method g = meth"
      "f_stack g = v # rest" "frame_at s2 (cur_frame s) = Inr (f\<lparr>f_bytecodeIndex := pc s\<rparr>)" "method_at s2 meth = Inr m"
  shows "\<exists>s1 s3. method_Invoke meth s = Inr (Some (hp s), s1) \<and> cur_frame s1 = hp s \<and> pc s1 = 0 \<and>
      frame_at s1 (hp s) = Inr (callee_frame (cur_frame s) meth m (take (unat (m_nargs m)) (f_stack f))) \<and>
      frame_at s1 (cur_frame s) = Inr (f\<lparr>f_bytecodeIndex := pc s\<rparr>) \<and>
      doReturnLocal s2 = Inr s3 \<and> cur_frame s3 = cur_frame s \<and> pc s3 = pc s \<and>
      frame_at s3 (cur_frame s) = Inr (f\<lparr>f_bytecodeIndex := pc s, f_stack := v # drop (unat (m_nargs m)) (f_stack f)\<rparr>)"
proof -
  note d = call_siteD[OF assms(1)]
  let ?s2 = "set_stack (hp s) rest s2"
  have g: "frame_at ?s2 (cur_frame ?s2) = Inr (g\<lparr>f_stack := rest\<rparr>)" "frame_at ?s2 (cur_frame s) = Inr (f\<lparr>f_bytecodeIndex := pc s\<rparr>)"
    using assms(2,3,7) d(8) by (simp_all add: frame_at_set_stack)
  have m: "method_at ?s2 meth = Inr m"
    using assms(3,8) by (auto simp: set_stack_frame method_at_set_frame)
  have "doReturnLocal s2 = popFrameAndPushResult v ?s2"
    using assms(2,3,6) by (simp add: doReturnLocal_def Pop_cons)
  also have "\<dots> = Inr (?s2\<lparr>heap := (heap ?s2)(hp s \<mapsto> VMFrm (g\<lparr>f_stack := rest, f_bytecodeIndex := pc s2, f_previous := None\<rparr>),
      cur_frame s \<mapsto> VMFrm (f\<lparr>f_bytecodeIndex := pc s, f_stack := v # drop (unat (m_nargs m)) (f_stack f)\<rparr>)),
      cur_frame := cur_frame s, pc := pc s\<rparr>)"
    by (subst return_state[where c = "cur_frame s" and m = m and n = "unat (m_nargs m)", OF g(1) _ g(2)])
      (use assms d m in auto)
  finally show ?thesis
    using call_site_invoke[OF assms(1)] callee_frames[OF assms(1)]
    by (auto simp: frame_at_def operands_def)
qed

theorem call_and_return_witness:
  "\<exists>s1 s3. method_Invoke 40 sample_call = Inr (Some 60, s1) \<and> cur_frame s1 = 60 \<and> pc s1 = 0 \<and>
      frame_at s1 60 = Inr (callee_frame 50 40 sample_method [Ptr 41]) \<and>
      doReturnLocal (set_stack 60 [SmallInt 6] (called_state 40 sample_method sample_frame sample_call)) = Inr s3 \<and>
      cur_frame s3 = 50 \<and> pc s3 = 12 \<and>
      frame_at s3 50 = Inr (sample_frame\<lparr>f_bytecodeIndex := 12, f_stack := [SmallInt 6, nilObject]\<rparr>)"
proof -
  let ?s1 = "called_state 40 sample_method sample_frame sample_call"
  have v: "hp sample_call = 60" "cur_frame sample_call = 50" "pc sample_call = 12" "m_nargs sample_method = 1"
    "f_stack sample_frame = [Ptr 41, nilObject]"
    by (simp_all add: sample_call_def sample_method_def sample_frame_def)
  note fr = callee_frames[OF sample_call_site, unfolded v]
  let ?g = "(callee_frame 50 40 sample_method (operands sample_method sample_frame))\<lparr>f_stack := [SmallInt 6]\<rparr>"
  have g: "frame_at (set_stack 60 [SmallInt 6] ?s1) 60 = Inr ?g"
    "frame_at (set_stack 60 [SmallInt 6] ?s1) 50 = Inr (sample_frame\<lparr>f_bytecodeIndex := 12\<rparr>)"
    using fr by (simp_all add: frame_at_set_stack)
  have "method_at (set_stack 60 [SmallInt 6] ?s1) 40 = Inr sample_method"
    using fr by (simp add: set_stack_frame method_at_set_frame)
  with call_and_return[OF sample_call_site, of "set_stack 60 [SmallInt 6] ?s1" ?g "SmallInt 6" "[]"] g v
  show ?thesis by (fastforce simp: callee_frame_def)
qed

end
