(* ===== verification/Jumps.thy ===== *)
theory Jumps
  imports Calls
begin

section \<open>Jumps and non-local returns\<close>

text \<open>
  The generator emits forward jumps with a dummy offset and patches them when it knows the target,
  widening the opcode when the offset needs two bytes; loops end with a backward jump. Here the
  interpreter executes the patched bytes: control arrives exactly where the generator meant it
  to. The second part is about the returns out of blocks.
\<close>

subsection \<open>Jump targets\<close>

lemma forward_jump_cases:
  assumes "BC_JUMP \<le> j" "j < BC_JUMP_BACKWARD"
  shows "j \<in> {BC_JUMP, BC_JUMP_ON_FALSE_POP, BC_JUMP_ON_TRUE_POP, BC_JUMP_ON_FALSE_TOP_NIL, BC_JUMP_ON_TRUE_TOP_NIL,
    BC_JUMP_ON_NOT_NIL_POP, BC_JUMP_ON_NIL_POP, BC_JUMP_ON_NOT_NIL_TOP_TOP, BC_JUMP_ON_NIL_TOP_TOP, BC_JUMP_IF_GREATER}"
proof -
  have "45 \<le> unat j" "unat j < 55" using assms by (auto simp: word_le_nat_alt word_less_nat_alt)
  then have "unat j = 45 \<or> unat j = 46 \<or> unat j = 47 \<or> unat j = 48 \<or> unat j = 49 \<or> unat j = 50 \<or> unat j = 51 \<or>
    unat j = 52 \<or> unat j = 53 \<or> unat j = 54" by presburger
  then have "unat j \<in> unat ` {45, 46, 47, 48, 49, 50, 51, 52, 53, 54 :: byte}" by simp
  then show ?thesis by (blast dest: unsigned_word_eqI)
qed

lemma exec_narrow_jump:
  assumes "BC_JUMP \<le> j" "j < BC_JUMP2"
  shows "exec env [j, x, y] s = exec_jump_by env j (unat x) s"
  using assms by (simp add: exec_def operand_def exec_jump_def not_le[symmetric])

lemma exec_wide_jump:
  assumes "BC_JUMP \<le> j" "j < BC_JUMP_BACKWARD"
  shows "exec env [wide_jump j, x, y] s = exec_jump_by env j (unat (ComputeOffset x y)) s"
  using forward_jump_cases[OF assms]
  by (elim insertE emptyE) (simp_all add: exec_def operand_def exec_jump2_def exec_jump_by_def wide_jump_def Let_def)



text \<open>C24. The backward jump emitted at the end of a loop takes the interpreter back to the first bytecode of
  the loop, whatever the distance up to 65535 bytes.\<close>

theorem backward_jump_lands:
  assumes "parsed m is" "loopBeginIdx \<le> length (bytecode m)" "length (bytecode m) - loopBeginIdx \<le> 65535"
  shows "\<exists>m' i. EmitBackwardsJumpOffsetToTarget loopBeginIdx m = Inr m' \<and> parsed m' (is @ [i]) \<and>
    (\<forall>env s. pc s = length (bytecode m) \<longrightarrow> exec env i s = Inr (s\<lparr>pc := loopBeginIdx\<rparr>))"
proof -
  define off where "off = length (bytecode m) - loopBeginIdx"
  let ?i = "[if off \<le> 255 then BC_JUMP_BACKWARD else BC_JUMP2_BACKWARD, of_nat (off mod 256), of_nat (off div 256)]"
  obtain m' where m': "EmitBackwardsJumpOffsetToTarget loopBeginIdx m = Inr m'" "parsed m' (is @ [?i])"
    using EmitBackwardsJump_parsed[OF assms] unfolding off_def by blast
  have off: "off \<le> length (bytecode m)" "length (bytecode m) - off = loopBeginIdx" "off \<le> 65535"
    using assms(2,3) by (auto simp: off_def)
  have "exec env ?i s = Inr (s\<lparr>pc := loopBeginIdx\<rparr>)" if "pc s = length (bytecode m)" for env s
  proof (cases "off \<le> 255")
    case True
    have "exec env [BC_JUMP_BACKWARD, b, c] s = jump_backward (unat b) s" for b c
      by (simp add: exec_def operand_def exec_jump_def exec_jump_by_def)
    then show ?thesis using that True off by (simp add: unsigned_of_nat take_bit_nat_eq_self jump_backward_def)
  next
    case False
    have "exec env [BC_JUMP2_BACKWARD, b, c] s = jump_backward (unat (ComputeOffset b c)) s" for b c
      by (simp add: exec_def operand_def exec_jump2_def Let_def)
    then show ?thesis using that False off ComputeOffset_bytes[of off] by (simp add: jump_backward_def)
  qed
  then show ?thesis using m' by (intro exI[of _ m'] exI[of _ ?i]) auto
qed

theorem backward_jump_lands_witness:
  "\<exists>m' i. EmitBackwardsJumpOffsetToTarget 0 (sample_gen [BC_DUP] [BC_INVALID, BC_INVALID, BC_INVALID, BC_DUP]) = Inr m' \<and>
    parsed m' ([[BC_DUP]] @ [i]) \<and> (\<forall>env s. pc s = 1 \<longrightarrow> exec env i s = Inr (s\<lparr>pc := 0\<rparr>))"
proof -
  have p: "parsed (sample_gen [BC_DUP] [BC_INVALID, BC_INVALID, BC_INVALID, BC_DUP]) [[BC_DUP]]"
    and l: "length (bytecode (sample_gen [BC_DUP] [BC_INVALID, BC_INVALID, BC_INVALID, BC_DUP])) = 1"
    by (simp_all add: parsed_def sample_gen_def NewMethodGenerationContext_def)
  from backward_jump_lands[OF p, of 0] l show ?thesis by simp
qed

subsection \<open>Non-local returns\<close>

text \<open>Following the previous frames from \<open>a\<close> leads through the frames \<open>ps\<close> to \<open>b\<close>.\<close>

inductive prev_chain :: "vmstate \<Rightarrow> addr \<Rightarrow> addr list \<Rightarrow> addr \<Rightarrow> bool" for s where
  chain_here: "prev_chain s b [] b"
| chain_prev: "frame_at s a = Inr f \<Longrightarrow> f_previous f = Some p \<Longrightarrow> a \<noteq> b \<Longrightarrow> prev_chain s p ps b \<Longrightarrow> prev_chain s a (a # ps) b"

inductive_cases prev_chain_ConsE: "prev_chain s a (x # ps) b"
inductive_cases prev_chain_NilE: "prev_chain s a [] b"

lemma prev_chain_not_target: "prev_chain s a ps b \<Longrightarrow> b \<notin> set ps"
  by (induction rule: prev_chain.induct) auto

lemma prev_chain_unique: "prev_chain s a ps b \<Longrightarrow> prev_chain s a qs b \<Longrightarrow> ps = qs"
proof (induction arbitrary: qs rule: prev_chain.induct)
  case (chain_here b)
  then show ?case by (cases rule: prev_chain.cases) auto
next
  case (chain_prev a f p b ps)
  note outer = chain_prev.hyps and IH = chain_prev.IH
  from chain_prev.prems show ?case
  proof (cases rule: prev_chain.cases)
    case chain_here
    then show ?thesis using outer(3) by simp
  next
    case (chain_prev f' p' ps')
    then have "p' = p" using outer(1,2) by simp
    then show ?thesis using IH[of ps'] chain_prev by simp
  qed
qed

lemma prev_chain_suffix: "prev_chain s a ps b \<Longrightarrow> x \<in> set ps \<Longrightarrow> \<exists>as qs. ps = as @ qs \<and> prev_chain s x qs b"
proof (induction rule: prev_chain.induct)
  case (chain_prev a f p b ps)
  then show ?case
    by (metis append_Cons append_Nil prev_chain.chain_prev set_ConsD)
qed simp

lemma prev_chain_distinct: "prev_chain s a ps b \<Longrightarrow> distinct ps"
proof (induction rule: prev_chain.induct)
  case (chain_prev a f p b ps)
  have whole: "prev_chain s a (a # ps) b" using chain_prev.hyps by (rule prev_chain.chain_prev)
  have "a \<notin> set ps"
  proof
    assume "a \<in> set ps"
    then obtain as qs where "ps = as @ qs" "prev_chain s a qs b"
      using prev_chain_suffix[OF chain_prev.hyps(4)] by blast
    then show False using prev_chain_unique[OF whole] by fastforce
  qed
  then show ?case using chain_prev.IH by simp
qed simp

lemma prev_chain_cong:
  assumes "prev_chain s a ps b" "\<And>x. x \<in> set ps \<Longrightarrow> heap s' x = heap s x"
  shows "prev_chain s' a ps b"
  using assms
proof (induction rule: prev_chain.induct)
  case (chain_prev a f p b ps)
  then have "frame_at s' a = Inr f" by (simp add: frame_at_def)
  then show ?case using chain_prev by (auto intro: prev_chain.chain_prev)
qed (auto intro: prev_chain.chain_here)

lemma prev_chain_head:
  "prev_chain s p ps b \<Longrightarrow> frame_at s b = Inr h \<Longrightarrow> \<exists>fp. frame_at s p = Inr fp \<and> (ps = [] \<longrightarrow> fp = h)"
  "prev_chain s p ps b \<Longrightarrow> p \<in> set ps \<or> p = b"
  by (induction rule: prev_chain.induct) auto

text \<open>Popping the frames of a chain disconnects each of them and changes nothing else.\<close>

lemma pop_frames_until_chain:
  assumes "prev_chain s a ps b" "cur_frame s = a" "frame_at s b = Inr h" "length ps < n"
  shows "\<exists>s'. pop_frames_until n b s = Inr s' \<and> cur_frame s' = b \<and> hp s' = hp s \<and>
    pc s' = (if ps = [] then pc s else f_bytecodeIndex h) \<and>
    (\<forall>x \<in> set ps. \<exists>g. frame_at s' x = Inr g \<and> f_previous g = None) \<and> (\<forall>x. x \<notin> set ps \<longrightarrow> heap s' x = heap s x)"
  using assms
proof (induction ps arbitrary: s a n)
  case Nil
  then have "a = b" by (auto elim: prev_chain_NilE)
  then show ?case using Nil by (cases n) auto
next
  case (Cons x ps)
  obtain k where n: "n = Suc k" "length ps < k" using Cons.prems(4) by (cases n) auto
  from Cons.prems(1) obtain f p where a: "x = a" "frame_at s a = Inr f" "f_previous f = Some p" "a \<noteq> b" "prev_chain s p ps b"
    by (auto elim: prev_chain_ConsE)
  have na: "a \<notin> set ps" "b \<notin> set ps"
    using prev_chain_distinct[OF Cons.prems(1)] prev_chain_not_target[OF Cons.prems(1)] a(1) by auto
  obtain fp where fp: "frame_at s p = Inr fp" "ps = [] \<Longrightarrow> fp = h"
    using prev_chain_head(1)[OF a(5) Cons.prems(3)] by blast
  have pa: "p \<noteq> a" using prev_chain_head(2)[OF a(5)] na(1) a(4) by blast
  let ?s1 = "s\<lparr>heap := (heap s)(a \<mapsto> VMFrm (f\<lparr>f_bytecodeIndex := pc s, f_previous := None\<rparr>)), cur_frame := p, pc := f_bytecodeIndex fp\<rparr>"
  have pop: "popFrame s = Inr (a, ?s1)"
    using a(2,3) fp(1) pa Cons.prems(2)
    by (simp add: popFrame_def SetFrame_def SetBytecodeIndex_def ClearPreviousFrame_def upd_frame_def frame_at_def set_heap_def Let_def)
  have "prev_chain ?s1 p ps b" using a(5) by (rule prev_chain_cong) (use na in auto)
  moreover have "frame_at ?s1 b = Inr h" using Cons.prems(3) a(4) by (simp add: frame_at_def)
  ultimately obtain s' where s': "pop_frames_until k b ?s1 = Inr s'" "cur_frame s' = b" "hp s' = hp s"
      "pc s' = (if ps = [] then pc ?s1 else f_bytecodeIndex h)"
      "\<forall>x \<in> set ps. \<exists>g. frame_at s' x = Inr g \<and> f_previous g = None" "\<forall>x. x \<notin> set ps \<longrightarrow> heap s' x = heap ?s1 x"
    using Cons.IH[of ?s1 p k] n(2) by auto
  have "frame_at s' a = Inr (f\<lparr>f_bytecodeIndex := pc s, f_previous := None\<rparr>)"
    using s'(6) na(1) by (simp add: frame_at_def)
  moreover have "pc s' = f_bytecodeIndex h"
    using s'(4) fp(2) by (cases "ps = []") simp_all
  ultimately show ?case
    using n(1) pop a(1,4) s' Cons.prems(2) by (intro exI[of _ s']) auto
qed

lemma prev_chain_length:
  assumes "prev_chain s a ps b" "set ps \<subseteq> {..<hp s}"
  shows "length ps \<le> hp s"
  using assms prev_chain_distinct by (metis card_lessThan card_mono distinct_card finite_lessThan)

text \<open>C5. A return out of a block whose home activation is still active: the frames between the block and
  the home are disconnected, the home is left, and its caller resumes with the result in place of
  the home method's receiver and arguments. Every abandoned frame has lost its previous frame, so
  a block that still refers to one of them is recognised as escaped.\<close>

theorem nonlocal_return:
  assumes "frame_at s (cur_frame s) = Inr g" "f_stack g = v # rest"
    and "GetOuterContext s (cur_frame s) = Inr home" "prev_chain s (cur_frame s) ps home" "ps \<noteq> []" "set ps \<subseteq> {..<hp s}"
    and "frame_at s home = Inr h" "f_previous h = Some c" "frame_at s c = Inr f" "c \<notin> set ps" "c \<noteq> home"
    and "method_at s (f_method h) = Inr m" "0 < unat (m_nargs m)" "unat (m_nargs m) \<le> length (f_stack f)"
      "length (f_stack f) \<le> f_capacity f"
  shows "\<exists>s'. doReturnNonLocal env s = Inr s' \<and> cur_frame s' = c \<and> pc s' = f_bytecodeIndex f \<and>
    frame_at s' c = Inr (f\<lparr>f_stack := v # drop (unat (m_nargs m)) (f_stack f)\<rparr>) \<and>
    (\<forall>x \<in> insert home (set ps). \<exists>k. frame_at s' x = Inr k \<and> f_previous k = None)"
proof -
  let ?c = "cur_frame s" and ?n = "unat (m_nargs m)"
  let ?s1 = "set_stack ?c rest s"
  have home: "home \<notin> set ps" "?c \<in> set ps"
    using prev_chain_not_target[OF assms(4)] assms(4,5) by (auto elim: prev_chain.cases)
  have heap1: "heap ?s1 x = heap s x" if "x \<noteq> ?c" for x using that assms(1) by (simp add: set_stack_frame)
  have chain: "prev_chain ?s1 ?c ps home"
  proof -
    obtain p qs where p: "ps = ?c # qs" "f_previous g = Some p" "?c \<noteq> home" "prev_chain s p qs home"
      using assms(1,4,5) by (auto elim: prev_chain.cases)
    have "?c \<notin> set qs" using prev_chain_distinct[OF assms(4)] p(1) by simp
    then have "prev_chain ?s1 p qs home" by (intro prev_chain_cong[OF p(4)] heap1) auto
    then show ?thesis using p assms(1) prev_chain.chain_prev[of ?s1 ?c "g\<lparr>f_stack := rest\<rparr>" p home qs]
      by (simp add: frame_at_set_stack)
  qed
  have h1: "frame_at ?s1 home = Inr h" using assms(1,7) home by (auto simp: frame_at_set_stack)
  obtain s2 where s2: "pop_frames_until (Suc (hp s)) home ?s1 = Inr s2" "cur_frame s2 = home" "pc s2 = f_bytecodeIndex h"
      "\<forall>x \<in> set ps. \<exists>k. frame_at s2 x = Inr k \<and> f_previous k = None" "\<forall>x. x \<notin> set ps \<longrightarrow> heap s2 x = heap ?s1 x"
    using pop_frames_until_chain[OF chain _ h1, of "Suc (hp s)"] prev_chain_length[OF assms(4,6)] assms(5) by auto
  have same: "heap s2 x = heap s x" if "x \<notin> set ps" for x using s2(5) heap1 that home(2) by metis
  have fr: "frame_at s2 home = Inr h" "frame_at s2 c = Inr f"
    using same assms(7,9,10) home(1) by (simp_all add: frame_at_def)
  have mh: "method_at s2 (f_method h) = Inr m"
  proof -
    have "f_method h \<notin> set ps"
    proof
      assume "f_method h \<in> set ps"
      then obtain k where "frame_at s2 (f_method h) = Inr k" using s2(4) by blast
      moreover obtain k' where "frame_at s (f_method h) = Inr k'"
        using prev_chain_suffix[OF assms(4) \<open>f_method h \<in> set ps\<close>] prev_chain_head(1)[OF _ assms(7)] by blast
      ultimately show False using assms(12) by (simp add: frame_at_Inr method_at_Inr)
    qed
    then show ?thesis using same assms(12) by (simp add: method_at_def)
  qed
  let ?s3 = "s2\<lparr>heap := (heap s2)(home \<mapsto> VMFrm (h\<lparr>f_bytecodeIndex := pc s2, f_previous := None\<rparr>),
      c \<mapsto> VMFrm (f\<lparr>f_stack := v # drop ?n (f_stack f)\<rparr>)), cur_frame := c, pc := f_bytecodeIndex f\<rparr>"
  have "popFrameAndPushResult v s2 = Inr ?s3"
    using return_state[where s = s2 and g = h and c = c and f = f and m = m and n = ?n and v = v]
      s2(2) fr mh assms(8,11,13-15) by simp
  moreover have "GetOuterContext ?s1 ?c = Inr home" using assms(3) by (simp add: GetOuterContext_def)
  ultimately have "doReturnNonLocal env s = Inr ?s3"
    using assms(1,2,8) s2(1) h1 by (simp add: doReturnNonLocal_def Pop_cons)
  moreover have "\<exists>k. frame_at ?s3 x = Inr k \<and> f_previous k = None" if "x \<in> insert home (set ps)" for x
    using that s2(4) assms(10,11) home(1) by (cases "x = home") (auto simp: frame_at_def)
  ultimately show ?thesis by (intro exI[of _ ?s3]) (auto simp: frame_at_def)
qed

text \<open>A block that runs on top of its home activation.\<close>

definition sample_home :: vmframe where
  "sample_home = \<lparr>f_previous = Some 50, f_context = None, f_method = 40, f_args = [Ptr 41], f_locals = [],
     f_stack = [nilObject], f_capacity = 1, f_bytecodeIndex = 4\<rparr>"

definition sample_block_frame :: vmframe where
  "sample_block_frame = \<lparr>f_previous = Some 51, f_context = Some 51, f_method = 40, f_args = [nilObject], f_locals = [],
     f_stack = [SmallInt 9], f_capacity = 1, f_bytecodeIndex = 0\<rparr>"

definition sample_return :: vmstate where
  "sample_return = sample_call\<lparr>heap := (heap sample_call)(51 \<mapsto> VMFrm sample_home, 52 \<mapsto> VMFrm sample_block_frame),
     cur_frame := 52\<rparr>"

theorem nonlocal_return_witness:
  "\<exists>s'. doReturnNonLocal sample_env sample_return = Inr s' \<and> cur_frame s' = 50 \<and> pc s' = 0 \<and>
    frame_at s' 50 = Inr (sample_frame\<lparr>f_stack := [SmallInt 9, nilObject]\<rparr>) \<and>
    (\<forall>x \<in> insert 51 (set [52]). \<exists>k. frame_at s' x = Inr k \<and> f_previous k = None)"
proof -
  have fr: "frame_at sample_return 52 = Inr sample_block_frame" "frame_at sample_return 51 = Inr sample_home"
    "frame_at sample_return 50 = Inr sample_frame" "method_at sample_return 40 = Inr sample_method"
    by (simp_all add: sample_return_def sample_call_def frame_at_def method_at_def)
  have v: "cur_frame sample_return = 52" "hp sample_return = 60" "f_stack sample_block_frame = [SmallInt 9]"
    "f_previous sample_block_frame = Some 51" "f_context sample_block_frame = Some 51" "f_previous sample_home = Some 50"
    "f_context sample_home = None" "f_method sample_home = 40" "f_stack sample_frame = [Ptr 41, nilObject]" "f_capacity sample_frame = 3"
    "m_nargs sample_method = 1" "f_bytecodeIndex sample_frame = 0"
    by (simp_all add: sample_return_def sample_call_def sample_block_frame_def sample_home_def sample_frame_def sample_method_def)
  have chain: "prev_chain sample_return 52 [52] 51"
    using fr v prev_chain.chain_prev[of sample_return 52 _ 51 51 "[]"] prev_chain.chain_here by simp
  have outer: "GetOuterContext sample_return 52 = Inr 51"
    using fr v by (simp add: GetOuterContext_def numeral_eq_Suc)
  show ?thesis
    using nonlocal_return[of sample_return sample_block_frame "SmallInt 9" "[]" 51 "[52]" sample_home 50 sample_frame sample_method sample_env]
      fr v chain outer by simp
qed

end
