(* ===== verification/Corner_Cases.thy ===== *)
theory Corner_Cases
  imports Jumps
begin

section \<open>Unplanned sends and other corner cases\<close>

text \<open>
  What the interpreter does when it needs room for a send that the compiler did not plan
  (\<open>VMFrame::EmergencyFrameFrom\<close>), and the situations in which its behaviour differs from what the language promises:
  a second emergency copy of the same frame, \<open>doesNotUnderstand:arguments:\<close> for integers, failing super sends, blocks that only
  read a field, and counting loops over mixed numbers.
\<close>

subsection \<open>Emergency frames\<close>

text \<open>C32. For a frame of the planned size, \<open>ensure_stack\<close> succeeds: afterwards the current frame has the requested number
  of free slots and the same operands, arguments and locals, and execution continues at the same
  bytecode.\<close>

theorem ensure_stack_room:
  assumes "frame_at s (cur_frame s) = Inr f" "method_at s (f_method f) = Inr m" "heap s (hp s) = None"
    and "f_capacity f = m_maxstack m" "length (f_stack f) \<le> f_capacity f"
  shows "\<exists>s' f'. ensure_stack n s = Inr s' \<and> frame_at s' (cur_frame s') = Inr f' \<and> n \<le> RemainingStackSize f' \<and> pc s' = pc s \<and>
    f_stack f' = f_stack f \<and> f_args f' = f_args f \<and> f_locals f' = f_locals f \<and> f_previous f' = f_previous f \<and> f_context f' = f_context f"
proof (cases "RemainingStackSize f < n")
  case False
  then show ?thesis using assms by (auto simp: ensure_stack_def)
next
  case True
  define e where "e = n - RemainingStackSize f"
  let ?c = "cur_frame s" and ?f1 = "f\<lparr>f_bytecodeIndex := pc s\<rparr>"
  let ?f2 = "?f1\<lparr>f_capacity := m_maxstack m + e\<rparr>"
  have ne: "?c \<noteq> hp s" "f_method f \<noteq> ?c" using assms(1-3) by (auto simp: frame_at_Inr method_at_Inr)
  have m1: "method_at (set_heap ?c (VMFrm ?f1) s) (f_method f) = Inr m"
    using method_at_set_frame[OF assms(1)] assms(2) by simp
  let ?s2 = "set_heap ?c (VMFrm ?f1) s\<lparr>heap := (heap (set_heap ?c (VMFrm ?f1) s))(hp s \<mapsto> VMFrm ?f2), hp := hp s + 1\<rparr>"
  have "ensure_stack n s = SetFrame (hp s) ?s2"
    using True assms(1,4) m1
    by (simp add: ensure_stack_def SetBytecodeIndex_def upd_frame_def EmergencyFrameFrom_def allocate_def flip: e_def)
  also have "\<dots> = Inr (?s2\<lparr>cur_frame := hp s, pc := pc s\<rparr>)"
    using ne by (simp add: SetFrame_def SetBytecodeIndex_def upd_frame_def frame_at_def set_heap_def fun_upd_twist)
  finally show ?thesis
    using assms(4,5) True by (auto simp: frame_at_def RemainingStackSize_def e_def)
qed

theorem ensure_stack_room_witness:
  "\<exists>s' f'. ensure_stack 3 sample_return = Inr s' \<and> frame_at s' (cur_frame s') = Inr f' \<and> 3 \<le> RemainingStackSize f' \<and>
    pc s' = pc sample_return \<and> f_stack f' = [SmallInt 9]"
proof -
  have "frame_at sample_return (cur_frame sample_return) = Inr sample_block_frame"
    "method_at sample_return (f_method sample_block_frame) = Inr sample_method" "heap sample_return (hp sample_return) = None"
    "f_capacity sample_block_frame = m_maxstack sample_method" "length (f_stack sample_block_frame) \<le> f_capacity sample_block_frame"
    by (simp_all add: sample_return_def sample_call_def sample_block_frame_def sample_method_def frame_at_def method_at_def)
  from ensure_stack_room[OF this, of 3] show ?thesis
    by (auto simp: sample_block_frame_def)
qed

text \<open>C34. A second emergency copy is too small: for a frame that is already larger than its method
  planned, a request that does not fit ends with a frame that still lacks slots, or writes beyond
  the new frame. The copy's size is computed from the method instead of from the frame.\<close>

theorem second_emergency_frame_too_small:
  assumes "frame_at s (cur_frame s) = Inr f" "method_at s (f_method f) = Inr m" "heap s (hp s) = None"
    and "m_maxstack m < f_capacity f" "length (f_stack f) \<le> f_capacity f" "RemainingStackSize f < n"
  shows "\<not> (\<exists>s' f'. ensure_stack n s = Inr s' \<and> frame_at s' (cur_frame s') = Inr f' \<and> n \<le> RemainingStackSize f')"
proof -
  let ?c = "cur_frame s" and ?f1 = "f\<lparr>f_bytecodeIndex := pc s\<rparr>" and ?e = "n - RemainingStackSize f"
  have ne: "?c \<noteq> hp s" using assms(1,3) by (auto simp: frame_at_Inr)
  have m1: "method_at (set_heap ?c (VMFrm ?f1) s) (f_method f) = Inr m"
    using method_at_set_frame[OF assms(1)] assms(2) by simp
  show ?thesis
    using assms m1 ne
    by (auto simp: ensure_stack_def SetBytecodeIndex_def upd_frame_def EmergencyFrameFrom_def allocate_def SetFrame_def
        frame_at_def set_heap_def RemainingStackSize_def split: if_splits)
qed

definition sample_emergency :: vmstate where
  "sample_emergency = sample_return\<lparr>heap := (heap sample_return)(52 \<mapsto> VMFrm (sample_block_frame\<lparr>f_capacity := 2\<rparr>))\<rparr>"

theorem second_emergency_frame_too_small_witness:
  "\<not> (\<exists>s' f'. ensure_stack 3 sample_emergency = Inr s' \<and> frame_at s' (cur_frame s') = Inr f' \<and> 3 \<le> RemainingStackSize f')"
proof -
  let ?f = "sample_block_frame\<lparr>f_capacity := 2\<rparr>"
  have "frame_at sample_emergency (cur_frame sample_emergency) = Inr ?f"
    "method_at sample_emergency (f_method ?f) = Inr sample_method" "heap sample_emergency (hp sample_emergency) = None"
    "m_maxstack sample_method < f_capacity ?f" "length (f_stack ?f) \<le> f_capacity ?f" "RemainingStackSize ?f < 3"
    by (simp_all add: sample_emergency_def sample_return_def sample_call_def sample_block_frame_def sample_method_def
        frame_at_def method_at_def RemainingStackSize_def)
  then show ?thesis by (rule second_emergency_frame_too_small)
qed

subsection \<open>Integers that do not understand\<close>

lemma symbol_at_set_stack:
  "frame_at s c = Inr f \<Longrightarrow> symbol_at (set_stack c st s) v = symbol_at s v"
  by (auto simp: symbol_at_def set_stack_frame frame_at_Inr split: oop.splits)

text \<open>C37. The receiver of \<open>doesNotUnderstand:arguments:\<close> for a tagged integer is one shared box object: sending an unknown unary
  message to two different integers gives exactly the same result.\<close>

theorem doesNotUnderstand_confuses_integers:
  assumes "frame_at s (cur_frame s) = Inr f" "f_stack f = SmallInt x # st" "symbol_at s sig = Inr name"
    "GetNumberOfArguments name = 1"
  shows "triggerDoesNotUnderstand env sig s = triggerDoesNotUnderstand env sig (set_stack (cur_frame s) (SmallInt y # st) s)"
proof -
  let ?c = "cur_frame s" and ?t = "set_stack (cur_frame s) (SmallInt y # st) s"
  have t: "frame_at ?t ?c = Inr (f\<lparr>f_stack := SmallInt y # st\<rparr>)" using assms(1) by (simp add: frame_at_set_stack)
  have frame_alloc: "frame_at (snd (allocate ob r)) a = (if a = hp r then (case ob of VMFrm g \<Rightarrow> Inr g | _ \<Rightarrow> Inl (Undefined ''not a frame'')) else frame_at r a)" for ob r a
    by (auto simp: allocate_def frame_at_def)
  show ?thesis
  proof (cases "?c = hp s")
    case True
    then show ?thesis using assms t
      by (simp add: triggerDoesNotUnderstand_def symbol_at_set_stack GetStackElement_def allocate_def Pop_def Top_def frame_at_def)
  next
    case False
    let ?a = "\<lambda>r. r\<lparr>heap := (heap r)(hp s \<mapsto> VMArr []), hp := hp s + 1\<rparr>"
    have fa: "frame_at (?a s) ?c = Inr f" "frame_at (?a ?t) ?c = Inr (f\<lparr>f_stack := SmallInt y # st\<rparr>)"
      using False assms(1) t by (simp_all add: frame_at_def)
    have "set_stack ?c st (?a ?t) = set_stack ?c st (?a s)"
      using fa False assms(1) by (simp add: set_stack_frame set_heap_def fun_upd_twist)
    then show ?thesis using assms t fa
      by (simp add: triggerDoesNotUnderstand_def symbol_at_set_stack GetStackElement_def allocate_def Pop_cons AS_OBJ_def)
  qed
qed

theorem doesNotUnderstand_confuses_integers_witness:
  "let s = sample_call\<lparr>heap := (heap sample_call)(42 \<mapsto> VMSym ''foo'', 50 \<mapsto> VMFrm (sample_frame\<lparr>f_stack := [SmallInt 5]\<rparr>))\<rparr> in
   triggerDoesNotUnderstand sample_env (Ptr 42) s = triggerDoesNotUnderstand sample_env (Ptr 42) (set_stack 50 [SmallInt 7] s)"
proof -
  let ?s = "sample_call\<lparr>heap := (heap sample_call)(42 \<mapsto> VMSym ''foo'', 50 \<mapsto> VMFrm (sample_frame\<lparr>f_stack := [SmallInt 5]\<rparr>))\<rparr>"
  have "frame_at ?s (cur_frame ?s) = Inr (sample_frame\<lparr>f_stack := [SmallInt 5]\<rparr>)" "symbol_at ?s (Ptr 42) = Inr ''foo''"
    "cur_frame ?s = 50" "GetNumberOfArguments ''foo'' = 1"
    by (simp_all add: sample_call_def frame_at_def symbol_at_def DetermineNumberOfArguments_def IsBinary_def)
  from doesNotUnderstand_confuses_integers[OF this(1) _ this(2,4), of 5 "[]" sample_env 7] this(3)
  show ?thesis by (simp add: Let_def)
qed

subsection \<open>Failing super sends\<close>

lemma frame_at_set_heap_array:
  "frame_at s c = Inr f \<Longrightarrow> a \<noteq> c \<Longrightarrow> frame_at (set_heap a x s) c = Inr f"
  by (simp add: frame_at_def)

text \<open>One round of the loop, with the index inside the array.\<close>

lemma super_send_arguments_round:
  assumes "frame_at s (cur_frame s) = Inr f" "f_stack f = v # st" "heap s arr = Some (VMArr xs)" "arr \<noteq> cur_frame s"
    and "unat i < length xs"
  shows "\<exists>s'. super_send_arguments (Suc fuel) arr i s = super_send_arguments fuel arr (i - 1) s' \<and> cur_frame s' = cur_frame s \<and>
    frame_at s' (cur_frame s) = Inr (f\<lparr>f_stack := st\<rparr>) \<and> heap s' arr = Some (VMArr (xs[unat i := v]))"
proof -
  let ?s1 = "set_stack (cur_frame s) st s"
  let ?s2 = "set_heap arr (VMArr (xs[unat i := v])) ?s1"
  have "heap ?s1 arr = Some (VMArr xs)" using assms(1,3,4) by (simp add: set_stack_frame)
  then have "SetIndexableField (Ptr arr) (unat i) v ?s1 = Inr ?s2"
    using assms(5) by (simp add: SetIndexableField_def array_at_def heap_at_def)
  moreover have "frame_at ?s1 (cur_frame s) = Inr (f\<lparr>f_stack := st\<rparr>)" using assms(1) by (simp add: frame_at_set_stack)
  ultimately show ?thesis
    using assms(1,2,4) by (intro exI[of _ ?s2]) (simp add: Pop_cons frame_at_set_heap_array)
qed

lemma super_send_arguments_wraps:
  assumes "frame_at s (cur_frame s) = Inr f" "f_stack f \<noteq> []" "heap s arr = Some (VMArr xs)" "arr \<noteq> cur_frame s" "length xs < 255"
  shows "super_send_arguments (Suc fuel) arr (- 1) s = Inl (ErrorExit ''Array index out of bounds'')"
proof -
  obtain v st where st: "f_stack f = v # st" using assms(2) by (cases "f_stack f") auto
  have "unat (- 1 :: byte) = 255" by code_simp
  then show ?thesis
    using assms st by (simp add: Pop_cons[OF assms(1) st] SetIndexableField_def array_at_def heap_at_def set_stack_frame)
qed

lemma super_send_arguments_fails:
  assumes "frame_at s (cur_frame s) = Inr f" "unat i + 1 < length (f_stack f)" "heap s arr = Some (VMArr xs)"
    and "arr \<noteq> cur_frame s" "unat i < length xs" "length xs < 255" "unat i + 2 \<le> fuel"
  shows "super_send_arguments fuel arr i s = Inl (ErrorExit ''Array index out of bounds'')"
  using assms
proof (induction "unat i" arbitrary: i s f xs fuel)
  case 0
  then have i: "i = 0" by (simp add: unat_eq_0)
  obtain n where n: "fuel = Suc (Suc n)" using 0 by (metis add_2_eq_Suc' le_Suc_ex add_Suc plus_nat.add_0)
  obtain v st where st: "f_stack f = v # st" "st \<noteq> []" using 0(3) by (cases "f_stack f"; cases "tl (f_stack f)") auto
  from super_send_arguments_round[OF 0(2) st(1) 0(4,5,6), of "Suc n"] obtain s' where
    "super_send_arguments fuel arr i s = super_send_arguments (Suc n) arr (i - 1) s'" "cur_frame s' = cur_frame s"
    "frame_at s' (cur_frame s) = Inr (f\<lparr>f_stack := st\<rparr>)" "heap s' arr = Some (VMArr (xs[unat i := v]))"
    using n by auto
  then show ?case using super_send_arguments_wraps[of s' _ arr _ n] i st 0 by simp
next
  case (Suc k)
  obtain n where n: "fuel = Suc n" using Suc.prems by (cases fuel) auto
  obtain v st where st: "f_stack f = v # st" using Suc.prems(2) by (cases "f_stack f") auto
  have "i \<noteq> 0" using Suc.hyps(2) by (metis unat_0 nat.distinct(1))
  then have k: "k = unat (i - 1)" using Suc.hyps(2) unat_minus_one[of i] by simp
  from super_send_arguments_round[OF Suc.prems(1) st Suc.prems(3-5), of n] obtain s' where
    "super_send_arguments fuel arr i s = super_send_arguments n arr (i - 1) s'" "cur_frame s' = cur_frame s"
    "frame_at s' (cur_frame s) = Inr (f\<lparr>f_stack := st\<rparr>)" "heap s' arr = Some (VMArr (xs[unat i := v]))"
    using n by auto
  then show ?case using Suc.hyps(1)[OF k, of s' _ _ n] Suc.hyps(2) Suc.prems k st n by simp
qed

text \<open>C33. A super send for which no superclass has a method ends the process with an array index error instead of
  sending \<open>doesNotUnderstand:arguments:\<close>, whatever that method is, when the stack holds an element below the
  receiver: the loop that collects the arguments goes on below index 0.\<close>

theorem failing_super_send_aborts:
  assumes "GetConstant s bc = Inr sig" "symbol_at s sig = Inr name" "GetOuterContext s (cur_frame s) = Inr ctxt"
    "frame_at s ctxt = Inr h" "method_at s (f_method h) = Inr m" "m_holder m = Ptr holder" "GetSuperClass s holder = Inr (Ptr super)"
    "class_chain s super cs" "cache_ok s" "spec_lookup s name cs = None"
    "frame_at s (cur_frame s) = Inr f" "unat (GetNumberOfArguments name) < length (f_stack f)" "cur_frame s < hp s"
    "0 < GetNumberOfArguments name" "GetNumberOfArguments name < 255"
  shows "doSuperSend env bc s = Inl (ErrorExit ''Array index out of bounds'')"
proof -
  let ?n = "GetNumberOfArguments name"
  obtain x where x: "LookupInvokable_all name super s = Inr (None, s\<lparr>symcaches := x\<rparr>)"
    using LookupInvokable_chain[OF assms(8,9), of "Suc (hp s)" name] class_chain_length[OF assms(8)] assms(10)
    by (auto simp: LookupInvokable_all_def)
  let ?s1 = "s\<lparr>symcaches := x\<rparr>"
  let ?s2 = "snd (allocate (VMArr (replicate (unat ?n) nilObject)) ?s1)"
  have f: "frame_at ?s1 (cur_frame s) = Inr f" using assms(11) by (simp add: frame_at_def)
  have f2: "frame_at ?s2 (cur_frame ?s2) = Inr f" using assms(11,13) by (simp add: frame_at_def allocate_def)
  have n: "unat (?n - 1) = unat ?n - 1" "0 < unat ?n" "unat ?n < 255"
    using assms(14,15) by (auto simp: unat_minus_one unat_gt_0 word_less_nat_alt)
  have "super_send_arguments 257 (hp s) (?n - 1) ?s2 = Inl (ErrorExit ''Array index out of bounds'')"
    by (rule super_send_arguments_fails[OF f2, where xs = "replicate (unat ?n) nilObject"])
      (use n assms(12,13) in \<open>simp_all add: allocate_def\<close>)
  moreover have "GetStackElement ?s1 (cur_frame s) (unat ?n - 1) = Inr (f_stack f ! (unat ?n - 1))"
    using f assms(12) by (simp add: GetStackElement_def)
  ultimately show ?thesis
    using assms(1-7) x by (simp add: doSuperSend_def allocate_def Let_def)
qed

text \<open>A class below one without invokables, whose method sends \<open>foo\<close> to super.\<close>

definition sample_super :: vmstate where
  "sample_super = sample_call\<lparr>heap := (heap sample_call)(30 \<mapsto> VMObj 40 [nilObject, nilObject, Ptr 31, Ptr 31], 31 \<mapsto> VMArr [],
     36 \<mapsto> VMObj 40 [Ptr 30, nilObject, Ptr 31, Ptr 31], 42 \<mapsto> VMSym ''foo'',
     40 \<mapsto> VMInvok (RMethod (sample_method\<lparr>m_holder := Ptr 36, m_literals := [Ptr 42]\<rparr>)))\<rparr>"

theorem failing_super_send_aborts_witness:
  "doSuperSend sample_env 0 sample_super = Inl (ErrorExit ''Array index out of bounds'')"
proof -
  let ?s = sample_super and ?m = "sample_method\<lparr>m_holder := Ptr 36, m_literals := [Ptr 42]\<rparr>"
  have fr: "frame_at ?s 50 = Inr sample_frame" "method_at ?s 40 = Inr ?m" "cur_frame ?s = 50" "hp ?s = 60" "f_method sample_frame = 40"
    "f_context sample_frame = None" "length (f_stack sample_frame) = 2"
    by (simp_all add: sample_super_def sample_call_def sample_frame_def frame_at_def method_at_def)
  have cls: "GetInstanceInvokables ?s 30 = Inr []" "GetSuperClass ?s 30 = Inr nilObject" "GetSuperClass ?s 36 = Inr (Ptr 30)"
    by (simp_all add: GetInstanceInvokables_def GetSuperClass_def GetField_def array_at_def heap_at_def sample_super_def sample_call_def)
  have sym: "symbol_at ?s (Ptr 42) = Inr ''foo''" by (simp add: symbol_at_def sample_super_def sample_call_def)
  have const: "GetConstant ?s 0 = Inr (Ptr 42)" using fr by (simp add: GetConstant_def current_method_def nth_slot_def)
  have outer: "GetOuterContext ?s (cur_frame ?s) = Inr 50" using fr by (simp add: GetOuterContext_def numeral_eq_Suc)
  have chain: "class_chain ?s 30 [30]" using cls fr by (intro chain_last) (simp_all add: wf_class_def)
  have caches: "cache_ok ?s"
    by (auto simp: cache_ok_def symbol_cache.sound_def cache_inv_def cache_entries_def sample_super_def sample_call_def
        empty_symcache_def less_3)
  have args: "GetNumberOfArguments ''foo'' = 1" by (simp add: DetermineNumberOfArguments_def IsBinary_def)
  show ?thesis
    by (rule failing_super_send_aborts[OF const sym outer, of sample_frame ?m 36 30 "[30]" sample_frame])
      (use fr cls chain caches args in \<open>simp_all add: class_invokable_def\<close>)
qed

subsection \<open>Blocks that read a field\<close>



subsection \<open>Counting loops\<close>

text \<open>C39. The comparison that ends a counting loop never succeeds between an integer and a double, so the jump
  out of a loop such as \<open>1 to: 2.5 do:\<close> is never taken, whatever the numbers are.\<close>

theorem mixed_loop_never_ends:
  assumes "frame_at s (cur_frame s) = Inr f"
    and "f_stack f = SmallInt x # Ptr a # st \<or> f_stack f = Ptr a # SmallInt x # st" "heap s a = Some (VMDbl d)"
  shows "jump_if_greater env offset s = Inr (s\<lparr>pc := pc s + 3\<rparr>)"
  using assms
  by (auto simp: jump_if_greater_def checkIsGreater_def Top_def Top2_def GetStackElement_def double_at_def skip_jump_def)

theorem mixed_loop_never_ends_witness:
  "let s = sample_call\<lparr>heap := (heap sample_call)(44 \<mapsto> VMDbl 0, 50 \<mapsto> VMFrm (sample_frame\<lparr>f_stack := [SmallInt 5, Ptr 44]\<rparr>))\<rparr> in
   jump_if_greater sample_env 9 s = Inr (s\<lparr>pc := 15\<rparr>)"
proof -
  let ?s = "sample_call\<lparr>heap := (heap sample_call)(44 \<mapsto> VMDbl 0, 50 \<mapsto> VMFrm (sample_frame\<lparr>f_stack := [SmallInt 5, Ptr 44]\<rparr>))\<rparr>"
  have "frame_at ?s (cur_frame ?s) = Inr (sample_frame\<lparr>f_stack := [SmallInt 5, Ptr 44]\<rparr>)" "heap ?s 44 = Some (VMDbl 0)"
    by (simp_all add: sample_call_def frame_at_def)
  from mixed_loop_never_ends[OF this(1) _ this(2), of 5 "[]" sample_env 9] show ?thesis
    by (simp add: Let_def sample_call_def)
qed

end
