(* ===== verification/Vectors.thy ===== *)
theory Vectors
  imports Objects
begin

text \<open>
  Arrays as the primitives of \<open>Array\<close> use them (\<open>vmobjects/VMArray\<close>, \<open>primitives/Array.cpp\<close>) and the vectors
  (\<open>vmobjects/VMVector\<close>, \<open>primitives/Vector.cpp\<close>). A vector is the record of its three fields; no operation gives its
  storage away, so the storage is the list of its elements. Where the code sends \<open>error:\<close> to the vector and
  answers what that leaves on the stack, the model answers \<open>SendError\<close> with what the message is made of. The refinement: a vector
  stands for the list of its elements, and its operations are the list operations.
\<close>

subsection \<open>Arrays\<close>

text \<open>An index is an \<open>int64_t\<close> turned into a \<open>size_t\<close>: a negative one becomes larger than any array.\<close>

definition arr_get :: "oop list \<Rightarrow> int \<Rightarrow> oop res" where
  "arr_get xs idx =
     (if idx < 0 \<or> idx > int (length xs) then Inl (ErrorExit ''Array index out of bounds'')
      else if nat idx < length xs then Inr (xs ! nat idx) else Inl (Undefined ''FIELDS[idx]''))"

definition arr_set :: "oop list \<Rightarrow> int \<Rightarrow> oop \<Rightarrow> oop list res" where
  "arr_set xs idx v =
     (if idx < 0 \<or> idx > int (length xs) then Inl (ErrorExit ''Array index out of bounds'')
      else if nat idx < length xs then Inr (xs[nat idx := v]) else Inl (Undefined ''FIELDS[idx]''))"

definition NewArray :: "nat \<Rightarrow> oop list" where
  "NewArray n = replicate n nilObject"

text \<open>The loop of \<open>CopyIndexableFieldsTo\<close> from index \<open>i\<close> on, with \<open>n\<close> elements left.\<close>

fun copy_fields :: "nat \<Rightarrow> nat \<Rightarrow> oop list \<Rightarrow> oop list \<Rightarrow> oop list res" where
  "copy_fields 0 i from to = Inr to"
| "copy_fields (Suc n) i from to =
     res_bind (arr_get from (int i)) (\<lambda>v.
     res_bind (arr_set to (int i) v) (\<lambda>to'. copy_fields n (Suc i) from to'))"

definition CopyIndexableFieldsTo :: "oop list \<Rightarrow> oop list \<Rightarrow> oop list res" where
  "CopyIndexableFieldsTo from to = copy_fields (length from) 0 from to"

definition CopyAndExtendWith :: "oop list \<Rightarrow> oop \<Rightarrow> oop list res" where
  "CopyAndExtendWith xs item =
     res_bind (CopyIndexableFieldsTo xs (NewArray (length xs + 1))) (\<lambda>result. arr_set result (int (length xs)) item)"

definition NewExpandedArrayFromArray :: "nat \<Rightarrow> oop list \<Rightarrow> oop list res" where
  "NewExpandedArrayFromArray n xs = CopyIndexableFieldsTo xs (NewArray n)"

definition arrAt :: "oop list \<Rightarrow> int \<Rightarrow> oop res" where
  "arrAt self idx = arr_get self (idx - 1)"

definition arrAtPut :: "oop list \<Rightarrow> int \<Rightarrow> oop \<Rightarrow> oop list res" where
  "arrAtPut self i v = arr_set self (i - 1) v"

subsection \<open>Vectors\<close>

record vec =
  v_first :: int
  v_last :: int
  v_storage :: "oop list"

datatype vec_error = IndexError u64 u64 | RemoveLastError | RemoveFirstError

datatype 'a outcome = Value 'a | SendError vec_error

definition NewVector :: "nat \<Rightarrow> vec" where
  "NewVector n = \<lparr>v_first = 1, v_last = 1, v_storage = NewArray n\<rparr>"

text \<open>The bound and the index of the message are converted to \<open>size_t\<close>.\<close>

definition IndexOutOfBounds :: "int \<Rightarrow> int \<Rightarrow> 'a outcome" where
  "IndexOutOfBounds maxSize indexAccessed = SendError (IndexError (word_of_int maxSize) (word_of_int indexAccessed))"

definition GetStorage :: "vec \<Rightarrow> int \<Rightarrow> oop outcome res" where
  "GetStorage v index =
     (if index < 1 \<or> index > v_last v - v_first v then Inr (IndexOutOfBounds (v_first v + v_last v - 1) index)
      else res_bind (arr_get (v_storage v) ((v_first v - 1) + (index - 1))) (\<lambda>x. Inr (Value x)))"

definition GetFirst :: "vec \<Rightarrow> oop outcome res" where
  "GetFirst v = GetStorage v 1"

definition GetLast :: "vec \<Rightarrow> oop outcome res" where
  "GetLast v = GetStorage v (v_last v - 1)"

definition SetStorage :: "int \<Rightarrow> oop \<Rightarrow> vec \<Rightarrow> (oop outcome \<times> vec) res" where
  "SetStorage index value v =
     (if index < 1 \<or> index > v_first v + v_last v then Inr (IndexOutOfBounds (v_first v + v_last v - 1) index, v)
      else res_bind (arr_get (v_storage v) (v_first v + index - 2)) (\<lambda>curVal.
           res_bind (arr_set (v_storage v) (v_first v + index - 2) value) (\<lambda>st.
             Inr (Value curVal, v\<lparr>v_storage := st\<rparr>))))"

definition AWFYGetStorage :: "vec \<Rightarrow> int \<Rightarrow> oop res" where
  "AWFYGetStorage v index =
     (if index < 0 \<or> index > int (length (v_storage v)) then Inr nilObject
      else arr_get (v_storage v) ((v_first v - 1) + (index - 1)))"

definition SetStorageAWFY :: "int \<Rightarrow> oop \<Rightarrow> vec \<Rightarrow> vec res" where
  "SetStorageAWFY index value v =
     (if index < 0 \<or> index > int (length (v_storage v)) then
        res_bind (NewExpandedArrayFromArray (length (v_storage v) * 2) (v_storage v)) (\<lambda>newStorage.
        res_bind (arr_set newStorage (index - 1) value) (\<lambda>st. Inr (v\<lparr>v_storage := st\<rparr>)))
      else res_bind (arr_set (v_storage v) (v_first v + index - 2) value) (\<lambda>st.
             Inr (v\<lparr>v_storage := st, v_last := v_last v + 1\<rparr>)))"

definition Append :: "oop \<Rightarrow> vec \<Rightarrow> vec res" where
  "Append value v =
     res_bind
       (if v_last v < 0 \<or> v_last v \<ge> int (length (v_storage v)) then
          res_bind (NewExpandedArrayFromArray (length (v_storage v) * 2) (v_storage v)) (\<lambda>newStorage.
          res_bind (CopyIndexableFieldsTo (v_storage v) newStorage) (\<lambda>newStorage'.
            arr_set newStorage' (v_last v - 1) value))
        else arr_set (v_storage v) (v_last v - 1) value)
       (\<lambda>st. Inr (v\<lparr>v_storage := st, v_last := v_last v + 1\<rparr>))"

text \<open>The loop of \<open>remove\<close>: \<open>n\<close> rounds from \<open>i\<close> on.\<close>

fun shift_left :: "nat \<Rightarrow> int \<Rightarrow> int \<Rightarrow> oop list \<Rightarrow> oop list res" where
  "shift_left 0 i fi st = Inr st"
| "shift_left (Suc n) i fi st =
     res_bind (arr_get st (fi + i)) (\<lambda>x.
     res_bind (arr_set st (fi + i - 1) x) (\<lambda>st'. shift_left n (i + 1) fi st'))"

definition remove_at :: "int \<Rightarrow> vec \<Rightarrow> (oop outcome \<times> vec) res" where
  "remove_at index v =
     res_bind (GetStorage v index) (\<lambda>itemToRemove.
     res_bind (shift_left (nat (v_last v - v_first v - index)) index (v_first v) (v_storage v)) (\<lambda>st.
       Inr (itemToRemove, v\<lparr>v_storage := st, v_last := v_last v - 1\<rparr>)))"

definition RemoveLast :: "vec \<Rightarrow> (oop outcome \<times> vec) res" where
  "RemoveLast v =
     (if v_last v = v_first v then Inr (SendError RemoveLastError, v)
      else remove_at (v_last v - v_first v) v)"

definition RemoveFirst :: "vec \<Rightarrow> (oop outcome \<times> vec) res" where
  "RemoveFirst v =
     (if v_first v \<ge> v_last v then Inr (SendError RemoveFirstError, v)
      else res_bind (GetStorage v 1) (\<lambda>itemToRemove. Inr (itemToRemove, v\<lparr>v_first := v_first v + 1\<rparr>)))"

text \<open>The search of \<open>RemoveObj\<close>: \<open>n\<close> rounds from the storage index \<open>i\<close> on.\<close>

fun find_obj :: "nat \<Rightarrow> int \<Rightarrow> oop \<Rightarrow> oop list \<Rightarrow> int option res" where
  "find_obj 0 i other st = Inr None"
| "find_obj (Suc n) i other st =
     res_bind (arr_get st i) (\<lambda>current. if current = other then Inr (Some i) else find_obj n (i + 1) other st)"

definition RemoveObj :: "oop \<Rightarrow> vec \<Rightarrow> (bool \<times> vec) res" where
  "RemoveObj other v =
     res_bind (find_obj (nat (v_last v - v_first v)) (v_first v - 1) other (v_storage v)) (\<lambda>found.
       case found of
         Some i \<Rightarrow> res_bind (remove_at (i - v_first v + 2) v) (\<lambda>(_, v'). Inr (True, v'))
       | None \<Rightarrow> Inr (False, v))"

definition RemoveAll :: "vec \<Rightarrow> vec" where
  "RemoveAll v = \<lparr>v_first = 1, v_last = 1, v_storage = NewArray (length (v_storage v))\<rparr>"

definition Size :: "vec \<Rightarrow> int" where
  "Size v = v_last v - v_first v"

definition Capacity :: "vec \<Rightarrow> nat" where
  "Capacity v = length (v_storage v)"

text \<open>The loop of \<open>copyStorageArray\<close>.\<close>

fun copy_range :: "nat \<Rightarrow> int \<Rightarrow> int \<Rightarrow> oop list \<Rightarrow> oop list \<Rightarrow> oop list res" where
  "copy_range 0 i fi st result = Inr result"
| "copy_range (Suc n) i fi st result =
     res_bind (arr_get st i) (\<lambda>x.
     res_bind (arr_set result (i - fi + 1) x) (\<lambda>result'. copy_range n (i + 1) fi st result'))"

definition copyStorageArray :: "vec \<Rightarrow> oop list res" where
  "copyStorageArray v =
     copy_range (nat (v_last v - v_first v)) (v_first v - 1) (v_first v) (v_storage v) (NewArray (nat (v_last v - v_first v)))"

subsection \<open>Array accesses within bounds\<close>

lemma arr_get_ok: "0 \<le> i \<Longrightarrow> i < int (length xs) \<Longrightarrow> arr_get xs i = Inr (xs ! nat i)"
  by (simp add: arr_get_def nat_less_iff)

lemma arr_set_ok: "0 \<le> i \<Longrightarrow> i < int (length xs) \<Longrightarrow> arr_set xs i v = Inr (xs[nat i := v])"
  by (simp add: arr_set_def nat_less_iff)

text \<open>The heap operations of arrays are the list operations at the array's address.\<close>

lemma GetIndexableField_arr: "GetIndexableField s v i = res_bind (array_at s v) (\<lambda>xs. arr_get xs (int i))"
  by (cases "array_at s v") (simp_all add: GetIndexableField_def arr_get_def)

lemma SetIndexableField_arr:
  "SetIndexableField (Ptr a) i x s = res_bind (array_at s (Ptr a)) (\<lambda>xs. res_bind (arr_set xs (int i) x) (\<lambda>ys. Inr (set_heap a (VMArr ys) s)))"
  by (cases "array_at s (Ptr a)") (simp_all add: SetIndexableField_def arr_set_def)

lemma take_Suc_update: "i < length xs \<Longrightarrow> take (Suc i) (xs[i := v]) = take i xs @ [v]"
  by (simp add: take_Suc_conv_app_nth)

lemma copy_fields_eq:
  "i + n \<le> length from \<Longrightarrow> i + n \<le> length to \<Longrightarrow>
    copy_fields n i from to = Inr (take i to @ take n (drop i from) @ drop (i + n) to)"
proof (induction n arbitrary: i to)
  case (Suc n)
  have "drop i from = from ! i # drop (Suc i) from" using Suc.prems by (simp add: Cons_nth_drop_Suc)
  then show ?case
    using Suc by (simp add: arr_get_ok arr_set_ok take_Suc_update)
qed simp

lemma CopyIndexableFieldsTo_eq:
  "length from \<le> length to \<Longrightarrow> CopyIndexableFieldsTo from to = Inr (from @ drop (length from) to)"
  by (simp add: CopyIndexableFieldsTo_def copy_fields_eq)

lemma NewExpandedArrayFromArray_eq:
  "length xs \<le> n \<Longrightarrow> NewExpandedArrayFromArray n xs = Inr (xs @ replicate (n - length xs) nilObject)"
  by (simp add: NewExpandedArrayFromArray_def CopyIndexableFieldsTo_eq NewArray_def)

lemma CopyAndExtendWith_eq: "CopyAndExtendWith xs item = Inr (xs @ [item])"
  by (simp add: CopyAndExtendWith_def CopyIndexableFieldsTo_eq NewArray_def arr_set_ok del: replicate_Suc) simp

subsection \<open>The list a vector stands for\<close>

definition vec_ok :: "vec \<Rightarrow> bool" where
  "vec_ok v \<longleftrightarrow> 1 \<le> v_first v \<and> v_first v \<le> v_last v \<and> v_last v \<le> int (length (v_storage v))"

definition vec_list :: "vec \<Rightarrow> oop list" where
  "vec_list v = take (nat (v_last v - v_first v)) (drop (nat (v_first v - 1)) (v_storage v))"

text \<open>The shape of a well-formed vector: unused slots, its elements, and at least one unused slot.\<close>

lemma vec_okE:
  assumes "vec_ok v"
  obtains as xs b bs where "v_storage v = as @ xs @ b # bs" "v_first v = int (length as) + 1"
    "v_last v = int (length as + length xs) + 1" "vec_list v = xs"
proof -
  let ?f = "nat (v_first v - 1)" and ?n = "nat (v_last v - v_first v)"
  have l: "?f + ?n < length (v_storage v)" "v_first v = int ?f + 1" "v_last v = int (?f + ?n) + 1"
    using assms by (auto simp: vec_ok_def)
  have "v_storage v = take ?f (v_storage v) @ take ?n (drop ?f (v_storage v)) @ drop (?f + ?n) (v_storage v)"
    by (metis append_take_drop_id drop_drop add.commute)
  moreover have "drop (?f + ?n) (v_storage v) = v_storage v ! (?f + ?n) # drop (Suc (?f + ?n)) (v_storage v)"
    using l(1) by (simp add: Cons_nth_drop_Suc)
  ultimately show thesis
    using l by (intro that[of "take ?f (v_storage v)" "vec_list v"]) (auto simp: vec_list_def)
qed

lemma vec_shape:
  assumes "v_storage v = as @ xs @ b # bs" "v_first v = int (length as) + 1" "v_last v = int (length as + length xs) + 1"
  shows "vec_ok v" "vec_list v = xs"
  using assms by (simp_all add: vec_ok_def vec_list_def)

subsection \<open>The operations on well-formed vectors\<close>

lemma NewVector_ok: "0 < n \<Longrightarrow> vec_ok (NewVector n) \<and> vec_list (NewVector n) = []"
  by (simp add: vec_ok_def vec_list_def NewVector_def NewArray_def)

lemma GetStorage_nth:
  assumes "vec_ok v" "i < length (vec_list v)"
  shows "GetStorage v (int i + 1) = Inr (Value (vec_list v ! i))"
  using assms(1)
proof (rule vec_okE)
  fix as xs b bs
  assume v: "v_storage v = as @ xs @ b # bs" "v_first v = int (length as) + 1"
    "v_last v = int (length as + length xs) + 1" "vec_list v = xs"
  have "nat (int (length as) + int i) = length as + i" by simp
  then show ?thesis using assms(2) v by (simp add: GetStorage_def arr_get_ok nth_append)
qed

lemma GetStorage_bounds:
  assumes "vec_ok v" "i < 1 \<or> int (length (vec_list v)) < i"
  shows "\<exists>m k. GetStorage v i = Inr (SendError (IndexError m k))"
  using assms(1) by (rule vec_okE) (use assms(2) in \<open>auto simp: GetStorage_def IndexOutOfBounds_def\<close>)

lemma Append_list:
  assumes "vec_ok v"
  shows "\<exists>v'. Append x v = Inr v' \<and> vec_ok v' \<and> vec_list v' = vec_list v @ [x]"
  using assms
proof (rule vec_okE)
  fix as xs b bs
  assume v: "v_storage v = as @ xs @ b # bs" "v_first v = int (length as) + 1"
    "v_last v = int (length as + length xs) + 1" "vec_list v = xs"
  have n: "nat (int (length as) + int (length xs)) = length (as @ xs)" by simp
  show ?thesis
  proof (cases bs)
    case Nil
    let ?n = "length as + length xs + 1"
    let ?v = "v\<lparr>v_storage := as @ (xs @ [x]) @ replicate ?n nilObject, v_last := v_last v + 1\<rparr>"
    have "Append x v = Inr ?v"
      using v Nil n by (simp add: Append_def NewExpandedArrayFromArray_eq CopyIndexableFieldsTo_eq arr_set_ok list_update_append)
    moreover have "vec_ok ?v" "vec_list ?v = xs @ [x]"
      using v by (intro vec_shape[of ?v as "xs @ [x]" nilObject "replicate (length as + length xs) nilObject"]; simp)+
    ultimately show ?thesis using v by simp
  next
    case (Cons c cs)
    let ?v = "v\<lparr>v_storage := as @ (xs @ [x]) @ c # cs, v_last := v_last v + 1\<rparr>"
    have "Append x v = Inr ?v"
      using v Cons n by (simp add: Append_def arr_set_ok list_update_append)
    moreover have "vec_ok ?v" "vec_list ?v = xs @ [x]"
      using v by (intro vec_shape[of ?v as "xs @ [x]" c cs]; simp)+
    ultimately show ?thesis using v by simp
  qed
qed

lemma RemoveFirst_list:
  assumes "vec_ok v" "vec_list v = x # xs"
  shows "\<exists>v'. RemoveFirst v = Inr (Value x, v') \<and> vec_ok v' \<and> vec_list v' = xs"
  using assms(1)
proof (rule vec_okE)
  fix as ys b bs
  assume v: "v_storage v = as @ ys @ b # bs" "v_first v = int (length as) + 1"
    "v_last v = int (length as + length ys) + 1" "vec_list v = ys"
  let ?v = "v\<lparr>v_first := v_first v + 1\<rparr>"
  have ys: "ys = x # xs" using v(4) assms(2) by simp
  have "RemoveFirst v = Inr (Value x, ?v)"
    using GetStorage_nth[OF assms(1), of 0] assms(2) v(2,3) ys by (simp add: RemoveFirst_def)
  moreover have "vec_ok ?v" "vec_list ?v = xs"
    using v(1-3) ys by (intro vec_shape[of ?v "as @ [x]" xs b bs]; simp)+
  ultimately show ?thesis by blast
qed

lemma shift_left_eq:
  "fi + i = int (length ps) + 1 \<Longrightarrow>
    shift_left (length ys) i fi (ps @ p # ys @ zs) = Inr (ps @ ys @ last (p # ys) # zs)"
proof (induction ys arbitrary: ps p i)
  case (Cons y ys)
  have g: "arr_get (ps @ p # (y # ys) @ zs) (fi + i) = Inr y"
    using Cons.prems by (simp add: arr_get_ok nth_append nat_add_distrib)
  have s: "arr_set (ps @ p # (y # ys) @ zs) (fi + i - 1) y = Inr ((ps @ [y]) @ y # ys @ zs)"
    using Cons.prems by (simp add: arr_set_ok)
  have "shift_left (length ys) (i + 1) fi ((ps @ [y]) @ y # ys @ zs) = Inr ((ps @ [y]) @ ys @ last (y # ys) # zs)"
    by (rule Cons.IH) (use Cons.prems in simp)
  then show ?case using g s by simp
qed simp

text \<open>What \<open>remove\<close> does to the list: the element after the removed one goes, or the last one when there is none.\<close>

lemma remove_at_list:
  assumes "vec_ok v" "vec_list v = xs @ y # ys"
  shows "\<exists>v'. remove_at (int (length xs) + 1) v = Inr (Value y, v') \<and> vec_ok v' \<and>
    vec_list v' = (if ys = [] then xs else xs @ y # tl ys)"
  using assms(1)
proof (rule vec_okE)
  fix as ws b bs
  assume v: "v_storage v = as @ ws @ b # bs" "v_first v = int (length as) + 1"
    "v_last v = int (length as + length ws) + 1" "vec_list v = ws"
  have ws: "ws = xs @ y # ys" using v(4) assms(2) by simp
  have get: "GetStorage v (int (length xs) + 1) = Inr (Value y)"
    using GetStorage_nth[OF assms(1), of "length xs"] assms(2) by simp
  have n: "nat (v_last v - v_first v - (int (length xs) + 1)) = length ys" using v(2,3) ws by simp
  have fi: "v_first v + (int (length xs) + 1) = int (length (as @ xs @ [y])) + 1" using v(2) by simp
  show ?thesis
  proof (cases ys)
    case Nil
    let ?v = "v\<lparr>v_last := v_last v - 1\<rparr>"
    have "remove_at (int (length xs) + 1) v = Inr (Value y, v\<lparr>v_storage := v_storage v, v_last := v_last v - 1\<rparr>)"
      using get n Nil by (simp add: remove_at_def)
    then have "remove_at (int (length xs) + 1) v = Inr (Value y, ?v)" by simp
    moreover have "vec_ok ?v" "vec_list ?v = xs"
      using v(1-3) ws Nil by (intro vec_shape[of ?v as xs y "b # bs"]; simp)+
    ultimately show ?thesis using Nil by simp
  next
    case (Cons z zs)
    let ?v = "v\<lparr>v_storage := as @ (xs @ y # zs) @ b # b # bs, v_last := v_last v - 1\<rparr>"
    have "shift_left (length (zs @ [b])) (int (length xs) + 1) (v_first v) ((as @ xs @ [y]) @ z # (zs @ [b]) @ bs) =
        Inr ((as @ xs @ [y]) @ (zs @ [b]) @ last (z # zs @ [b]) # bs)"
      by (rule shift_left_eq[OF fi])
    then have "remove_at (int (length xs) + 1) v = Inr (Value y, ?v)"
      using get n Cons v(1) ws by (simp add: remove_at_def)
    moreover have "vec_ok ?v" "vec_list ?v = xs @ y # zs"
      using v(1-3) ws Cons by (intro vec_shape[of ?v as "xs @ y # zs" b "b # bs"]; simp)+
    ultimately show ?thesis using Cons by simp
  qed
qed

lemma RemoveLast_list:
  assumes "vec_ok v" "vec_list v = xs @ [y]"
  shows "\<exists>v'. RemoveLast v = Inr (Value y, v') \<and> vec_ok v' \<and> vec_list v' = xs"
proof -
  have "v_last v - v_first v = int (length xs) + 1"
    using assms(1) by (rule vec_okE) (use assms(2) in auto)
  then show ?thesis using remove_at_list[OF assms(1), of xs y "[]"] assms(2) by (simp add: RemoveLast_def)
qed

lemma find_obj_eq:
  "\<forall>x \<in> set xs. x \<noteq> y \<Longrightarrow> n = length xs + Suc k \<Longrightarrow>
    find_obj n (int (length as)) y (as @ xs @ y # zs) = Inr (Some (int (length as + length xs)))"
proof (induction xs arbitrary: as n)
  case Nil
  then show ?case by (simp add: arr_get_ok)
next
  case (Cons x xs)
  from Cons.IH[of "length xs + Suc k" "as @ [x]"] Cons.prems show ?case by (simp add: arr_get_ok add.commute)
qed

lemma find_obj_none:
  "\<forall>x \<in> set xs. x \<noteq> y \<Longrightarrow> find_obj (length xs) (int (length as)) y (as @ xs @ zs) = Inr None"
proof (induction xs arbitrary: as)
  case (Cons x xs)
  from Cons.IH[of "as @ [x]"] Cons.prems show ?case by (simp add: arr_get_ok add.commute)
qed simp

lemma RemoveObj_list:
  assumes "vec_ok v" "vec_list v = xs @ y # ys" "\<forall>x \<in> set xs. x \<noteq> y"
  shows "\<exists>v'. RemoveObj y v = Inr (True, v') \<and> vec_ok v' \<and> vec_list v' = (if ys = [] then xs else xs @ y # tl ys)"
  using assms(1)
proof (rule vec_okE)
  fix as ws b bs
  assume v: "v_storage v = as @ ws @ b # bs" "v_first v = int (length as) + 1"
    "v_last v = int (length as + length ws) + 1" "vec_list v = ws"
  have ws: "ws = xs @ y # ys" using v(4) assms(2) by simp
  have "find_obj (nat (v_last v - v_first v)) (v_first v - 1) y (v_storage v) = Inr (Some (int (length as + length xs)))"
    using find_obj_eq[OF assms(3), of "length xs + Suc (length ys)" "length ys" as "ys @ b # bs"] v(1-3) ws
    by (simp add: nat_add_distrib)
  moreover have "int (length as + length xs) - v_first v + 2 = int (length xs) + 1" using v(2) by simp
  moreover obtain v' where "remove_at (int (length xs) + 1) v = Inr (Value y, v')" "vec_ok v'"
    "vec_list v' = (if ys = [] then xs else xs @ y # tl ys)"
    using remove_at_list[OF assms(1,2)] by blast
  ultimately show ?thesis by (simp only: RemoveObj_def res_bind_Inr option.case prod.case) blast
qed

lemma RemoveObj_absent:
  assumes "vec_ok v" "y \<notin> set (vec_list v)"
  shows "RemoveObj y v = Inr (False, v)"
  using assms(1)
proof (rule vec_okE)
  fix as ws b bs
  assume v: "v_storage v = as @ ws @ b # bs" "v_first v = int (length as) + 1"
    "v_last v = int (length as + length ws) + 1" "vec_list v = ws"
  then have "find_obj (nat (v_last v - v_first v)) (v_first v - 1) y (v_storage v) = Inr None"
    using find_obj_none[of ws y as "b # bs"] assms(2) by (auto simp: nat_add_distrib)
  then show ?thesis by (simp add: RemoveObj_def)
qed

lemma copy_range_eq:
  "copy_range (length xs) (int (length as)) (int k + 1) (as @ xs @ zs) (rs @ replicate (length xs) nilObject) = Inr (rs @ xs)"
  if "length as = k + length rs"
  using that
proof (induction xs arbitrary: as rs)
  case (Cons x xs)
  have "arr_set (rs @ replicate (length (x # xs)) nilObject) (int (length as) - (int k + 1) + 1) x =
      Inr ((rs @ [x]) @ replicate (length xs) nilObject)"
    using Cons.prems by (simp add: arr_set_ok)
  moreover have "arr_get (as @ (x # xs) @ zs) (int (length as)) = Inr x" by (simp add: arr_get_ok)
  moreover have "copy_range (length xs) (int (length as) + 1) (int k + 1) (as @ (x # xs) @ zs)
      ((rs @ [x]) @ replicate (length xs) nilObject) = Inr (rs @ x # xs)"
    using Cons.IH[of "as @ [x]" "rs @ [x]"] Cons.prems by (simp add: add.commute)
  ultimately show ?case by (simp del: append.simps replicate_Suc)
qed simp

lemma copyStorageArray_list:
  assumes "vec_ok v"
  shows "copyStorageArray v = Inr (vec_list v)"
  using assms
proof (rule vec_okE)
  fix as ws b bs
  assume v: "v_storage v = as @ ws @ b # bs" "v_first v = int (length as) + 1"
    "v_last v = int (length as + length ws) + 1" "vec_list v = ws"
  then show ?thesis
    using copy_range_eq[of as "length as" "[]" ws "b # bs"] by (simp add: copyStorageArray_def NewArray_def nat_add_distrib)
qed

lemma SetStorage_list:
  assumes "vec_ok v" "i < length (vec_list v)"
  shows "\<exists>v'. SetStorage (int i + 1) x v = Inr (Value (vec_list v ! i), v') \<and> vec_ok v' \<and> vec_list v' = (vec_list v)[i := x]"
  using assms(1)
proof (rule vec_okE)
  fix as ws b bs
  assume v: "v_storage v = as @ ws @ b # bs" "v_first v = int (length as) + 1"
    "v_last v = int (length as + length ws) + 1" "vec_list v = ws"
  let ?v = "v\<lparr>v_storage := as @ ws[i := x] @ b # bs\<rparr>"
  have i: "i < length ws" using assms(2) v(4) by simp
  have n: "nat (int (length as) + int i) = length as + i" by simp
  have "SetStorage (int i + 1) x v = Inr (Value (ws ! i), ?v)"
    using v(1-3) i n by (simp add: SetStorage_def arr_get_ok arr_set_ok nth_append list_update_append)
  moreover have "vec_ok ?v" "vec_list ?v = ws[i := x]"
    using v(1-3) by (intro vec_shape[of ?v as "ws[i := x]" b bs]; simp)+
  ultimately show ?thesis using v(4) by simp
qed

lemma GetLast_list:
  assumes "vec_ok v" "vec_list v = xs @ [y]"
  shows "GetLast v = (if v_first v = 1 then Inr (Value y) else Inr (IndexOutOfBounds (v_first v + v_last v - 1) (v_last v - 1)))"
  using assms(1)
proof (rule vec_okE)
  fix as ws b bs
  assume v: "v_storage v = as @ ws @ b # bs" "v_first v = int (length as) + 1"
    "v_last v = int (length as + length ws) + 1" "vec_list v = ws"
  then have ws: "ws = xs @ [y]" using assms(2) by simp
  show ?thesis
    using GetStorage_nth[OF assms(1), of "length xs"] assms(2) v(2,3) ws by (auto simp: GetLast_def GetStorage_def)
qed

subsection \<open>Sequences\<close>

text \<open>The contract of a sequence that grows at its end and shrinks at its front, and what a client may rely on.\<close>

fun res_fold :: "('a \<Rightarrow> 's \<Rightarrow> 's res) \<Rightarrow> 'a list \<Rightarrow> 's \<Rightarrow> 's res" where
  "res_fold f [] s = Inr s"
| "res_fold f (x # xs) s = res_bind (f x s) (res_fold f xs)"

fun res_repeat :: "('s \<Rightarrow> ('a \<times> 's) res) \<Rightarrow> nat \<Rightarrow> 's \<Rightarrow> ('a list \<times> 's) res" where
  "res_repeat f 0 s = Inr ([], s)"
| "res_repeat f (Suc n) s =
     res_bind (f s) (\<lambda>(x, s1). res_bind (res_repeat f n s1) (\<lambda>(xs, s2). Inr (x # xs, s2)))"

locale sequence =
  fixes ok :: "'s \<Rightarrow> bool" and elems :: "'s \<Rightarrow> 'a list"
    and add_last :: "'a \<Rightarrow> 's \<Rightarrow> 's res" and take_first :: "'s \<Rightarrow> ('b \<times> 's) res" and answer :: "'a \<Rightarrow> 'b"
  assumes add_last: "ok s \<Longrightarrow> \<exists>s'. add_last x s = Inr s' \<and> ok s' \<and> elems s' = elems s @ [x]"
    and take_first: "ok s \<Longrightarrow> elems s = x # xs \<Longrightarrow> \<exists>s'. take_first s = Inr (answer x, s') \<and> ok s' \<and> elems s' = xs"
begin

lemma add_all: "ok s \<Longrightarrow> \<exists>s'. res_fold add_last xs s = Inr s' \<and> ok s' \<and> elems s' = elems s @ xs"
proof (induction xs arbitrary: s)
  case (Cons x xs)
  obtain s1 where s1: "add_last x s = Inr s1" "ok s1" "elems s1 = elems s @ [x]" using add_last[OF Cons.prems] by blast
  with Cons.IH[OF s1(2)] show ?case by simp
qed simp

lemma take_all:
  "ok s \<Longrightarrow> elems s = xs @ ys \<Longrightarrow> \<exists>s'. res_repeat take_first (length xs) s = Inr (map answer xs, s') \<and> ok s' \<and> elems s' = ys"
proof (induction xs arbitrary: s)
  case (Cons x xs)
  obtain s1 where s1: "take_first s = Inr (answer x, s1)" "ok s1" "elems s1 = xs @ ys"
    using take_first[OF Cons.prems(1), of x "xs @ ys"] Cons.prems(2) by auto
  with Cons.IH[OF s1(2,3)] show ?case by auto
qed simp

lemma first_in_first_out:
  assumes "ok s" "elems s = []"
  shows "\<exists>s1 s2. res_fold add_last xs s = Inr s1 \<and> res_repeat take_first (length xs) s1 = Inr (map answer xs, s2) \<and> elems s2 = []"
proof -
  obtain s1 where s1: "res_fold add_last xs s = Inr s1" "ok s1" "elems s1 = xs @ []" using add_all[OF assms(1), of xs] assms(2) by auto
  with take_all[OF s1(2,3)] show ?thesis by blast
qed

end

interpretation vector: sequence vec_ok vec_list Append RemoveFirst Value
  by unfold_locales (use Append_list RemoveFirst_list in blast)+

subsection \<open>Properties\<close>

text \<open>C6. A well-formed vector stands for a list, and its operations are those of the list: append adds at the end,
  doubling the storage when needed, the removals of the first and the last element, reading and writing by
  index and the copy to an array do what their names say, keep the vector well-formed and never fail;
  reading outside of the list sends \<open>error:\<close>.\<close>

theorem vector_refines_list:
  assumes "vec_ok v"
  shows "(\<exists>v'. Append x v = Inr v' \<and> vec_ok v' \<and> vec_list v' = vec_list v @ [x])
    \<and> (\<forall>y ys. vec_list v = y # ys \<longrightarrow> (\<exists>v'. RemoveFirst v = Inr (Value y, v') \<and> vec_ok v' \<and> vec_list v' = ys))
    \<and> (\<forall>y ys. vec_list v = ys @ [y] \<longrightarrow> (\<exists>v'. RemoveLast v = Inr (Value y, v') \<and> vec_ok v' \<and> vec_list v' = ys))
    \<and> (\<forall>i < length (vec_list v). GetStorage v (int i + 1) = Inr (Value (vec_list v ! i))
         \<and> (\<exists>v'. SetStorage (int i + 1) x v = Inr (Value (vec_list v ! i), v') \<and> vec_ok v' \<and> vec_list v' = (vec_list v)[i := x]))
    \<and> (\<forall>i. i < 1 \<or> int (length (vec_list v)) < i \<longrightarrow> (\<exists>m k. GetStorage v i = Inr (SendError (IndexError m k))))
    \<and> copyStorageArray v = Inr (vec_list v)"
  using Append_list[OF assms] RemoveFirst_list[OF assms] RemoveLast_list[OF assms] GetStorage_nth[OF assms]
    SetStorage_list[OF assms] GetStorage_bounds[OF assms] copyStorageArray_list[OF assms]
  by blast

text \<open>A vector from which the first element has been removed.\<close>

definition sample_vec :: vec where
  "sample_vec = \<lparr>v_first = 2, v_last = 4, v_storage = [SmallInt 1, SmallInt 2, SmallInt 3, nilObject]\<rparr>"

lemma sample_vec: "vec_ok sample_vec" "vec_list sample_vec = [SmallInt 2, SmallInt 3]"
  by (simp_all add: sample_vec_def vec_ok_def vec_list_def numeral_2_eq_2)

theorem vector_refines_list_witness:
  "vec_ok sample_vec \<and> (\<exists>v'. RemoveFirst sample_vec = Inr (Value (SmallInt 2), v') \<and> vec_list v' = [SmallInt 3])
    \<and> copyStorageArray sample_vec = Inr [SmallInt 2, SmallInt 3]"
  using vector_refines_list[OF sample_vec(1)] sample_vec by fastforce

text \<open>C31. Whatever is appended to a new vector with a storage comes out again in the same order, one removal of
  the first element at a time, and leaves it empty.\<close>

theorem vector_fifo:
  assumes "0 < n"
  shows "\<exists>v1 v2. res_fold Append xs (NewVector n) = Inr v1 \<and> res_repeat RemoveFirst (length xs) v1 = Inr (map Value xs, v2)
    \<and> vec_list v2 = []"
  using vector.first_in_first_out[of "NewVector n" xs] NewVector_ok[OF assms] by blast

theorem vector_fifo_witness:
  "\<exists>v1 v2. res_fold Append [SmallInt 4, SmallInt 5] (NewVector 1) = Inr v1
    \<and> res_repeat RemoveFirst 2 v1 = Inr ([Value (SmallInt 4), Value (SmallInt 5)], v2) \<and> vec_list v2 = []"
  using vector_fifo[of 1 "[SmallInt 4, SmallInt 5]"] by (simp add: numeral_2_eq_2)

text \<open>C36. Removing an object by value loses another one: unless it is the last element, the object stays in the
  vector and the element after it is gone.\<close>

theorem RemoveObj_removes_next:
  assumes "vec_ok v" "vec_list v = xs @ y # z # zs" "\<forall>x \<in> set xs. x \<noteq> y"
  shows "\<exists>v'. RemoveObj y v = Inr (True, v') \<and> vec_list v' = xs @ y # zs"
  using RemoveObj_list[OF assms] by auto

theorem RemoveObj_removes_next_witness:
  "\<exists>v'. RemoveObj (SmallInt 2) sample_vec = Inr (True, v') \<and> vec_list v' = [SmallInt 2]"
  using RemoveObj_removes_next[OF sample_vec(1), of "[]" "SmallInt 2" "SmallInt 3" "[]"] sample_vec(2) by simp

text \<open>The last element can be read as long as nothing has been removed at the front; after that, \<open>last\<close> sends
  \<open>error:\<close> although the vector is not empty.\<close>

lemma GetLast_after_removal:
  assumes "vec_ok v" "vec_list v = xs @ [y]"
  shows "GetLast v = (if v_first v = 1 then Inr (Value y) else Inr (IndexOutOfBounds (v_first v + v_last v - 1) (v_last v - 1)))"
  using GetLast_list[OF assms] .

lemma GetLast_sample: "GetLast sample_vec = Inr (IndexOutOfBounds 5 3)"
  using GetLast_after_removal[OF sample_vec(1), of "[SmallInt 2]" "SmallInt 3"] sample_vec(2) by (simp add: sample_vec_def)

text \<open>Appending to a vector that was created with size 0 writes beyond its storage: twice nothing is nothing.\<close>

lemma Append_without_storage: "Append x (NewVector 0) = Inl (Undefined ''FIELDS[idx]'')"
  by (simp add: Append_def NewVector_def NewArray_def NewExpandedArrayFromArray_def CopyIndexableFieldsTo_def arr_set_def)

end
