(* ===== verification/MarkSweep.thy ===== *)
theory MarkSweep
  imports Objects
begin

text \<open>
  The mark-and-sweep collector (\<open>memory/MarkSweepHeap\<close>, \<open>memory/MarkSweepCollector\<close>), the walk over the objects an
  object refers to (\<open>WalkObjects\<close> of the object classes) and over the roots (\<open>Universe::WalkGlobals\<close>, \<open>WalkSymbols\<close>,
  \<open>Interpreter::WalkGlobals\<close>). The collector's own data is the record \<open>gcheap\<close>; freeing an object takes it out of the
  heap, so that an access to it is an access to a dangling pointer. The recursion of \<open>mark_object\<close> is bounded by
  fuel; the number of allocated objects is always enough (\<open>mark_total\<close>). The sizes of objects are a parameter.
\<close>

subsection \<open>State\<close>

text \<open>The global variables the walk starts from and the model of objects does not have: those that hold the
  well-known classes, the symbol table, the classes of blocks, and the names that have a global value.\<close>

record gcheap =
  gcfield :: "addr \<Rightarrow> nat"
  allocatedObjects :: "addr list"
  spcAlloc :: nat
  collectionLimit :: nat
  gcWasRequested :: bool
  class_globals :: "addr list"
  symbolsMap :: "(string \<times> addr) list"
  globalNames :: "string list"
  blockClassesByNoOfArgs :: "addr list"

abbreviation GC_MARKED :: nat where "GC_MARKED \<equiv> 3456"

subsection \<open>What an object refers to\<close>

definition walk_symbol :: "gcheap \<Rightarrow> string \<Rightarrow> oop list" where
  "walk_symbol g name = (case map_of (symbolsMap g) name of Some a \<Rightarrow> [Ptr a] | None \<Rightarrow> [])"

definition opt_oop :: "addr option \<Rightarrow> oop list" where
  "opt_oop p = (case p of Some a \<Rightarrow> [Ptr a] | None \<Rightarrow> [])"

text \<open>A symbol walks its cache only up to the position that is filled next.\<close>

definition walk_cache :: "symcache \<Rightarrow> oop list" where
  "walk_cache c = concat (map (\<lambda>i. opt_oop (cachedClass c ! i) @ opt_oop (cachedInvokable c ! i)) [0..<nextCachePos c])"

fun walk_invokable :: "vminvokable \<Rightarrow> oop list" where
  "walk_invokable (RMethod m) = m_literals m"
| "walk_invokable (RLiteralReturn _ _ _ literal) = [literal]"
| "walk_invokable (RGlobalReturn _ _ _ globalName) = [globalName]"
| "walk_invokable _ = []"

definition walk_frame :: "vmframe \<Rightarrow> oop list" where
  "walk_frame f = opt_oop (f_previous f) @ opt_oop (f_context f) @ [Ptr (f_method f)] @ f_args f @ f_locals f @ rev (f_stack f)"

fun WalkObjects :: "gcheap \<Rightarrow> vmstate \<Rightarrow> hobj \<Rightarrow> oop list" where
  "WalkObjects g s (VMObj cls fs) = Ptr cls # fs"
| "WalkObjects g s (VMArr xs) = Ptr arrayClass # xs"
| "WalkObjects g s (VMSym name) = walk_cache (symcaches s name)"
| "WalkObjects g s (VMInvok i) = walk_symbol g (inv_signature i) @ inv_holder i # walk_invokable i"
| "WalkObjects g s (VMFrm f) = walk_frame f"
| "WalkObjects g s _ = []"

definition walk_object :: "gcheap \<Rightarrow> vmstate \<Rightarrow> addr \<Rightarrow> oop list res" where
  "walk_object g s a = res_bind (heap_at s a) (\<lambda>ob. Inr (WalkObjects g s ob))"

definition WalkSymbols :: "gcheap \<Rightarrow> oop list" where
  "WalkSymbols g = map (\<lambda>(_, a). Ptr a) (symbolsMap g)"

definition walk_globals_map :: "gcheap \<Rightarrow> vmstate \<Rightarrow> oop list" where
  "walk_globals_map g s =
     concat (map (\<lambda>name. walk_symbol g name @ (case globals s name of Some v \<Rightarrow> [v] | None \<Rightarrow> [])) (globalNames g))"

definition interpreter_WalkGlobals :: "vmstate \<Rightarrow> oop list" where
  "interpreter_WalkGlobals s =
     (case heap s (cur_frame s) of
        Some (VMFrm f) \<Rightarrow> [Ptr (f_method f), Ptr (cur_frame s)]
      | _ \<Rightarrow> [Ptr (cur_frame s)])"

definition WalkGlobals :: "gcheap \<Rightarrow> vmstate \<Rightarrow> oop list" where
  "WalkGlobals g s =
     [nilObject, trueObject, falseObject, Ptr integerBox] @ map Ptr (class_globals g) @ walk_globals_map g s
     @ WalkSymbols g @ map Ptr (blockClassesByNoOfArgs g) @ interpreter_WalkGlobals s"

subsection \<open>Marking\<close>

fun mark_object :: "nat \<Rightarrow> (addr \<Rightarrow> oop list res) \<Rightarrow> oop \<Rightarrow> (addr \<Rightarrow> nat) \<Rightarrow> (addr \<Rightarrow> nat) res"
  and mark_all :: "nat \<Rightarrow> (addr \<Rightarrow> oop list res) \<Rightarrow> oop list \<Rightarrow> (addr \<Rightarrow> nat) \<Rightarrow> (addr \<Rightarrow> nat) res" where
  "mark_object fuel walk (SmallInt _) m = Inr m"
| "mark_object 0 walk (Ptr a) m = (if m a \<noteq> 0 then Inr m else Inl (Undefined ''native stack overflow''))"
| "mark_object (Suc fuel) walk (Ptr a) m =
     (if m a \<noteq> 0 then Inr m
      else res_bind (walk a) (\<lambda>refs. mark_all fuel walk refs (m(a := GC_MARKED))))"
| "mark_all fuel walk [] m = Inr m"
| "mark_all fuel walk (v # vs) m = res_bind (mark_object fuel walk v m) (mark_all fuel walk vs)"

definition markReachableObjects :: "gcheap \<Rightarrow> vmstate \<Rightarrow> (addr \<Rightarrow> nat) res" where
  "markReachableObjects g s = mark_all (length (allocatedObjects g)) (walk_object g s) (WalkGlobals g s) (gcfield g)"

subsection \<open>Sweeping and allocation\<close>

text \<open>The loop over the allocated objects: the survivors with the sum of their sizes, their marks reset, the
  others freed.\<close>

fun sweep :: "(hobj \<Rightarrow> nat) \<Rightarrow> addr list \<Rightarrow> (addr \<Rightarrow> nat) \<Rightarrow> vmstate \<Rightarrow> (addr list \<times> nat \<times> (addr \<Rightarrow> nat) \<times> vmstate) res" where
  "sweep osize [] m s = Inr ([], 0, m, s)"
| "sweep osize (a # as) m s =
     res_bind (heap_at s a) (\<lambda>ob.
       if m a = GC_MARKED then
         res_bind (sweep osize as (m(a := 0)) s) (\<lambda>(survivors, total, m', s'). Inr (a # survivors, osize ob + total, m', s'))
       else sweep osize as m (s\<lparr>heap := (heap s)(a := None)\<rparr>))"

definition Collect_ms :: "(hobj \<Rightarrow> nat) \<Rightarrow> gcheap \<Rightarrow> vmstate \<Rightarrow> (gcheap \<times> vmstate) res" where
  "Collect_ms osize g s =
     res_bind (markReachableObjects g s) (\<lambda>m.
     res_bind (sweep osize (allocatedObjects g) m s) (\<lambda>(survivors, survivorsSize, m', s').
       Inr (g\<lparr>gcfield := m', allocatedObjects := survivors, spcAlloc := survivorsSize,
              collectionLimit := 2 * survivorsSize, gcWasRequested := False\<rparr>, s')))"

definition AllocateObject_ms :: "nat \<Rightarrow> hobj \<Rightarrow> gcheap \<Rightarrow> vmstate \<Rightarrow> addr \<times> gcheap \<times> vmstate" where
  "AllocateObject_ms n ob g s =
     (case allocate ob s of (a, s') \<Rightarrow>
        (a, g\<lparr>gcfield := (gcfield g)(a := 0), allocatedObjects := allocatedObjects g @ [a], spcAlloc := spcAlloc g + n,
              gcWasRequested := (gcWasRequested g \<or> spcAlloc g + n \<ge> collectionLimit g)\<rparr>, s'))"

subsection \<open>Reachable objects\<close>

inductive reach :: "(addr \<Rightarrow> oop list res) \<Rightarrow> oop list \<Rightarrow> addr \<Rightarrow> bool" for walk roots where
  reach_root: "Ptr a \<in> set roots \<Longrightarrow> reach walk roots a"
| reach_step: "reach walk roots a \<Longrightarrow> walk a = Inr refs \<Longrightarrow> Ptr b \<in> set refs \<Longrightarrow> reach walk roots b"

lemma reach_mono: "reach walk vs a \<Longrightarrow> set vs \<subseteq> set ws \<Longrightarrow> reach walk ws a"
  by (induction rule: reach.induct) (auto intro: reach.intros)

lemma reach_through:
  "reach walk refs b \<Longrightarrow> walk a = Inr refs \<Longrightarrow> Ptr a \<in> set vs \<Longrightarrow> reach walk vs b"
  by (induction rule: reach.induct) (auto intro: reach.intros)

text \<open>What marking the objects \<open>vs\<close> does: marks stay, every new mark is on a reachable object all of whose
  references are marked in the end, and the objects themselves are marked.\<close>

definition marks :: "(addr \<Rightarrow> oop list res) \<Rightarrow> oop list \<Rightarrow> (addr \<Rightarrow> nat) \<Rightarrow> (addr \<Rightarrow> nat) \<Rightarrow> bool" where
  "marks walk vs m m' \<longleftrightarrow> (\<forall>a. m a \<noteq> 0 \<longrightarrow> m' a = m a)
     \<and> (\<forall>a. m a = 0 \<and> m' a \<noteq> 0 \<longrightarrow> m' a = GC_MARKED \<and> reach walk vs a
          \<and> (\<exists>refs. walk a = Inr refs \<and> (\<forall>b. Ptr b \<in> set refs \<longrightarrow> m' b \<noteq> 0)))
     \<and> (\<forall>a. Ptr a \<in> set vs \<longrightarrow> m' a \<noteq> 0)"

lemma marksI:
  assumes "\<And>a. m a \<noteq> 0 \<Longrightarrow> m' a = m a" "\<And>a. m a = 0 \<Longrightarrow> m' a \<noteq> 0 \<Longrightarrow> m' a = GC_MARKED \<and> reach walk vs a"
    and "\<And>a. m a = 0 \<Longrightarrow> m' a \<noteq> 0 \<Longrightarrow> \<exists>refs. walk a = Inr refs \<and> (\<forall>b. Ptr b \<in> set refs \<longrightarrow> m' b \<noteq> 0)"
    and "\<And>a. Ptr a \<in> set vs \<Longrightarrow> m' a \<noteq> 0"
  shows "marks walk vs m m'"
  using assms unfolding marks_def by blast

lemma marksD:
  assumes "marks walk vs m m'"
  shows "m a \<noteq> 0 \<Longrightarrow> m' a = m a" "m a = 0 \<Longrightarrow> m' a \<noteq> 0 \<Longrightarrow> m' a = GC_MARKED"
    "m a = 0 \<Longrightarrow> m' a \<noteq> 0 \<Longrightarrow> reach walk vs a"
    "m a = 0 \<Longrightarrow> m' a \<noteq> 0 \<Longrightarrow> \<exists>refs. walk a = Inr refs \<and> (\<forall>b. Ptr b \<in> set refs \<longrightarrow> m' b \<noteq> 0)"
    "Ptr a \<in> set vs \<Longrightarrow> m' a \<noteq> 0"
  using assms unfolding marks_def by blast+

lemma marks_keep: "marks walk vs m m' \<Longrightarrow> m a \<noteq> 0 \<Longrightarrow> m' a \<noteq> 0"
  by (simp add: marksD(1))

lemma marks_marked: "m a \<noteq> 0 \<Longrightarrow> marks walk [Ptr a] m m"
  by (auto simp: marks_def)

lemma marks_none: "marks walk [SmallInt i] m m" "marks walk [] m m"
  by (auto simp: marks_def)

lemma marks_Cons:
  assumes 1: "marks walk [v] m m1" and 2: "marks walk vs m1 m2"
  shows "marks walk (v # vs) m m2"
proof (rule marksI)
  show "m2 a = m a" if "m a \<noteq> 0" for a using marksD(1)[OF 1 that] marksD(1)[OF 2, of a] that by simp
next
  fix a assume a: "m a = 0" "m2 a \<noteq> 0"
  show "m2 a = GC_MARKED \<and> reach walk (v # vs) a"
  proof (cases "m1 a = 0")
    case True
    then show ?thesis using marksD(2,3)[OF 2 True a(2)] reach_mono[of walk vs a "v # vs"] by auto
  next
    case False
    then show ?thesis
      using marksD(1)[OF 2 False] marksD(2,3)[OF 1 a(1) False] reach_mono[of walk "[v]" a "v # vs"] by auto
  qed
  show "\<exists>refs. walk a = Inr refs \<and> (\<forall>b. Ptr b \<in> set refs \<longrightarrow> m2 b \<noteq> 0)"
  proof (cases "m1 a = 0")
    case True
    then show ?thesis using marksD(4)[OF 2 True a(2)] by simp
  next
    case False
    then show ?thesis using marksD(4)[OF 1 a(1) False] marks_keep[OF 2] by blast
  qed
next
  show "m2 a \<noteq> 0" if "Ptr a \<in> set (v # vs)" for a
    using that marksD(5)[OF 1, of a] marksD(5)[OF 2, of a] marks_keep[OF 2, of a] by auto
qed

lemma marks_Ptr:
  assumes 0: "m a = 0" and w: "walk a = Inr refs" and r: "marks walk refs (m(a := GC_MARKED)) m'"
  shows "marks walk [Ptr a] m m'"
proof -
  have a: "m' a = GC_MARKED" using marksD(1)[OF r, of a] by simp
  show ?thesis
  proof (rule marksI)
    show "m' b = m b" if "m b \<noteq> 0" for b using that marksD(1)[OF r, of b] 0 by (cases "b = a") auto
  next
    show "m' b = GC_MARKED \<and> reach walk [Ptr a] b" if "m b = 0" "m' b \<noteq> 0" for b
      using that a marksD(2,3)[OF r, of b] reach_through[of walk refs b a "[Ptr a]"] w by (cases "b = a") (auto intro: reach_root)
  next
    show "\<exists>refs. walk b = Inr refs \<and> (\<forall>c. Ptr c \<in> set refs \<longrightarrow> m' c \<noteq> 0)" if "m b = 0" "m' b \<noteq> 0" for b
      using that w marksD(4)[OF r, of b] marksD(5)[OF r] by (cases "b = a") auto
  qed (use a in simp)
qed

lemma mark_marks:
  "mark_object n walk v m = Inr m' \<Longrightarrow> marks walk [v] m m'"
  "mark_all n walk vs m = Inr m' \<Longrightarrow> marks walk vs m m'"
proof (induction n walk v m and n walk vs m arbitrary: m' and m' rule: mark_object_mark_all.induct)
  case (2 walk a m)
  then show ?case by (auto simp: marks_marked split: if_splits)
next
  case (3 fuel walk a m)
  show ?case
  proof (cases "m a = 0")
    case True
    then obtain refs where refs: "walk a = Inr refs" "mark_all fuel walk refs (m(a := GC_MARKED)) = Inr m'"
      using 3(2) by auto
    then have "marks walk refs (m(a := GC_MARKED)) m'" using 3(1) True by blast
    then show ?thesis using marks_Ptr True refs(1) by blast
  next
    case False
    then show ?thesis using 3(2) by (simp add: marks_marked)
  qed
next
  case (5 fuel walk v vs m)
  then show ?case by (auto intro: marks_Cons)
qed (auto simp: marks_none)

subsection \<open>Marking terminates with all reachable objects marked\<close>

definition closed_refs :: "(addr \<Rightarrow> oop list res) \<Rightarrow> addr set \<Rightarrow> bool" where
  "closed_refs walk A \<longleftrightarrow> (\<forall>a \<in> A. \<exists>refs. walk a = Inr refs \<and> (\<forall>b. Ptr b \<in> set refs \<longrightarrow> b \<in> A))"

definition unmarked :: "addr set \<Rightarrow> (addr \<Rightarrow> nat) \<Rightarrow> nat" where
  "unmarked A m = card {a \<in> A. m a = 0}"

lemma unmarked_marks: "finite A \<Longrightarrow> marks walk vs m m' \<Longrightarrow> unmarked A m' \<le> unmarked A m"
  unfolding unmarked_def by (intro card_mono) (auto dest: marks_keep)

lemma unmarked_mark:
  "finite A \<Longrightarrow> a \<in> A \<Longrightarrow> m a = 0 \<Longrightarrow> unmarked A m = Suc (unmarked A (m(a := GC_MARKED)))"
proof -
  assume A: "finite A" "a \<in> A" "m a = 0"
  have "{x \<in> A. (m(a := GC_MARKED)) x = 0} = {x \<in> A. m x = 0} - {a}" by auto
  then show ?thesis using A card_Suc_Diff1[of "{x \<in> A. m x = 0}" a] by (simp add: unmarked_def del: card_Diff_insert)
qed

lemma mark_total:
  assumes "finite A" "closed_refs walk A"
  shows "(\<forall>a. v = Ptr a \<longrightarrow> a \<in> A) \<Longrightarrow> unmarked A m \<le> n \<Longrightarrow> \<exists>m'. mark_object n walk v m = Inr m'"
    and "(\<forall>a. Ptr a \<in> set vs \<longrightarrow> a \<in> A) \<Longrightarrow> unmarked A m \<le> n \<Longrightarrow> \<exists>m'. mark_all n walk vs m = Inr m'"
  using assms(2)
proof (induction n walk v m and n walk vs m rule: mark_object_mark_all.induct)
  case (2 walk a m)
  then show ?case using assms(1) by (auto simp: unmarked_def)
next
  case (3 fuel walk a m)
  show ?case
  proof (cases "m a = 0")
    case True
    have a: "a \<in> A" using 3(2) by simp
    then obtain refs where refs: "walk a = Inr refs" "\<forall>b. Ptr b \<in> set refs \<longrightarrow> b \<in> A"
      using 3(4) unfolding closed_refs_def by blast
    have "unmarked A (m(a := GC_MARKED)) \<le> fuel" using unmarked_mark[of A a m] assms(1) a True 3(3) by simp
    then have "\<exists>m'. mark_all fuel walk refs (m(a := GC_MARKED)) = Inr m'" using 3(1)[OF _ refs(2)] True 3(4) by blast
    then show ?thesis using refs(1) True by simp
  qed simp
next
  case (5 fuel walk v vs m)
  obtain m1 where m1: "mark_object fuel walk v m = Inr m1" using 5 by auto
  have "unmarked A m1 \<le> fuel" using unmarked_marks[OF assms(1) mark_marks(1)[OF m1]] 5(4) by simp
  with 5(2)[of m1] 5(3,5) m1 show ?case by simp
qed auto

lemma mark_all_reach:
  assumes "finite A" "closed_refs walk A" "\<forall>a. Ptr a \<in> set vs \<longrightarrow> a \<in> A" "unmarked A (\<lambda>_. 0) \<le> n"
  shows "mark_all n walk vs (\<lambda>_. 0) = Inr (\<lambda>a. if reach walk vs a then GC_MARKED else 0)"
proof -
  obtain m' where m': "mark_all n walk vs (\<lambda>_. 0) = Inr m'" using mark_total(2)[OF assms] by blast
  note mk = mark_marks(2)[OF m']
  have "m' a \<noteq> 0" if "reach walk vs a" for a
    using that
  proof induction
    case (reach_step a refs b)
    then show ?case using marksD(4)[OF mk, of a] by auto
  qed (use marksD(5)[OF mk] in simp)
  moreover have "m' a \<noteq> 0 \<Longrightarrow> reach walk vs a \<and> m' a = GC_MARKED" for a
    using marksD(2,3)[OF mk, of a] by simp
  ultimately have "m' = (\<lambda>a. if reach walk vs a then GC_MARKED else 0)" by fastforce
  then show ?thesis using m' by simp
qed

subsection \<open>The sweep\<close>

lemma sweep_eq:
  "distinct as \<Longrightarrow> \<forall>a \<in> set as. heap s a \<noteq> None \<Longrightarrow>
    sweep osize as m s = Inr (filter (\<lambda>a. m a = GC_MARKED) as,
      sum_list (map (\<lambda>a. osize (the (heap s a))) (filter (\<lambda>a. m a = GC_MARKED) as)),
      (\<lambda>a. if a \<in> set as \<and> m a = GC_MARKED then 0 else m a),
      s\<lparr>heap := (\<lambda>a. if a \<in> set as \<and> m a \<noteq> GC_MARKED then None else heap s a)\<rparr>)"
proof (induction as arbitrary: m s)
  case (Cons a as)
  then obtain ob where ob: "heap_at s a = Inr ob" "heap s a = Some ob" by (auto simp: heap_at_def)
  show ?case
  proof (cases "m a = GC_MARKED")
    case True
    have f: "filter (\<lambda>x. (m(a := 0)) x = GC_MARKED) as = filter (\<lambda>x. m x = GC_MARKED) as"
      using Cons.prems(1) by (intro filter_cong) auto
    have h: "(\<lambda>x. if x \<in> set as \<and> (m(a := 0)) x \<noteq> GC_MARKED then None else heap s x) =
        (\<lambda>x. if x \<in> set (a # as) \<and> m x \<noteq> GC_MARKED then None else heap s x)"
      using Cons.prems(1) True by (auto simp: fun_eq_iff)
    have z: "(\<lambda>x. if x \<in> set as \<and> (m(a := 0)) x = GC_MARKED then 0 else (m(a := 0)) x) =
        (\<lambda>x. if x \<in> set (a # as) \<and> m x = GC_MARKED then 0 else m x)"
      using True by (auto simp: fun_eq_iff)
    note ih = Cons.IH[of s "m(a := 0)", unfolded f h z]
    show ?thesis using ih Cons.prems ob True by (simp add: fun_upd_def)
  next
    case False
    let ?s = "s\<lparr>heap := (heap s)(a := None)\<rparr>"
    have f: "map (\<lambda>x. osize (the (heap ?s x))) (filter (\<lambda>x. m x = GC_MARKED) as) =
        map (\<lambda>x. osize (the (heap s x))) (filter (\<lambda>x. m x = GC_MARKED) as)"
      using Cons.prems(1) by (intro map_cong) auto
    have h: "(\<lambda>x. if x \<in> set as \<and> m x \<noteq> GC_MARKED then None else heap ?s x) =
        (\<lambda>x. if x \<in> set (a # as) \<and> m x \<noteq> GC_MARKED then None else heap s x)"
      using False by (auto simp: fun_eq_iff)
    have z: "(\<lambda>x. if x \<in> set as \<and> m x = GC_MARKED then 0 else m x) =
        (\<lambda>x. if x \<in> set (a # as) \<and> m x = GC_MARKED then 0 else m x)"
      using False by (auto simp: fun_eq_iff)
    have d: "\<forall>x \<in> set as. heap ?s x \<noteq> None" using Cons.prems by auto
    note ih = Cons.IH[of ?s m, OF _ d, unfolded f h z]
    show ?thesis using ih Cons.prems(1) ob False by simp
  qed
qed simp

subsection \<open>The invariant of the collector\<close>

text \<open>The allocated objects are those of the heap, none is marked between collections, and no reference the walks
  follow dangles.\<close>

definition gc_ok :: "gcheap \<Rightarrow> vmstate \<Rightarrow> bool" where
  "gc_ok g s \<longleftrightarrow> distinct (allocatedObjects g) \<and> (\<forall>a. heap s a \<noteq> None \<longleftrightarrow> a \<in> set (allocatedObjects g))
     \<and> (\<forall>a \<in> set (allocatedObjects g). a < hp s) \<and> gcfield g = (\<lambda>_. 0)
     \<and> (\<forall>a. Ptr a \<in> set (WalkGlobals g s) \<longrightarrow> heap s a \<noteq> None)
     \<and> closed_refs (walk_object g s) {a. heap s a \<noteq> None}"

abbreviation live :: "gcheap \<Rightarrow> vmstate \<Rightarrow> addr \<Rightarrow> bool" where
  "live g s \<equiv> reach (walk_object g s) (WalkGlobals g s)"

lemma gc_ok_heap: "gc_ok g s \<Longrightarrow> {a. heap s a \<noteq> None} = set (allocatedObjects g)"
  by (auto simp: gc_ok_def)

lemma live_heap: "gc_ok g s \<Longrightarrow> live g s a \<Longrightarrow> heap s a \<noteq> None"
proof -
  assume ok: "gc_ok g s"
  then have g: "heap s a \<noteq> None" if "Ptr a \<in> set (WalkGlobals g s)" for a using that unfolding gc_ok_def by blast
  show "live g s a \<Longrightarrow> heap s a \<noteq> None"
  proof (induction rule: reach.induct)
    case (reach_step a refs b)
    then have "\<exists>r. walk_object g s a = Inr r \<and> (\<forall>b. Ptr b \<in> set r \<longrightarrow> heap s b \<noteq> None)"
      using ok unfolding gc_ok_def closed_refs_def by blast
    then show ?case using reach_step by auto
  qed (rule g)
qed

lemma markReachableObjects_eq:
  assumes "gc_ok g s"
  shows "markReachableObjects g s = Inr (\<lambda>a. if live g s a then GC_MARKED else 0)"
  unfolding markReachableObjects_def
proof -
  have d: "distinct (allocatedObjects g)" "gcfield g = (\<lambda>_. 0)" using assms by (auto simp: gc_ok_def)
  have "unmarked (set (allocatedObjects g)) (\<lambda>_. 0) \<le> length (allocatedObjects g)"
    using d(1) by (simp add: unmarked_def distinct_card)
  moreover have "closed_refs (walk_object g s) {a. heap s a \<noteq> None}" using assms unfolding gc_ok_def by blast
  then have "closed_refs (walk_object g s) (set (allocatedObjects g))" by (simp only: gc_ok_heap[OF assms])
  moreover have "\<forall>a. Ptr a \<in> set (WalkGlobals g s) \<longrightarrow> a \<in> set (allocatedObjects g)"
    using assms by (auto simp: gc_ok_def)
  ultimately show "mark_all (length (allocatedObjects g)) (walk_object g s) (WalkGlobals g s) (gcfield g) =
      Inr (\<lambda>a. if live g s a then GC_MARKED else 0)"
    unfolding d(2) by (intro mark_all_reach) auto
qed

definition collected :: "(hobj \<Rightarrow> nat) \<Rightarrow> gcheap \<Rightarrow> vmstate \<Rightarrow> gcheap" where
  "collected osize g s =
     (let survivors = filter (live g s) (allocatedObjects g); total = sum_list (map (\<lambda>a. osize (the (heap s a))) survivors)
      in g\<lparr>allocatedObjects := survivors, spcAlloc := total, collectionLimit := 2 * total, gcWasRequested := False\<rparr>)"

definition live_heap_only :: "gcheap \<Rightarrow> vmstate \<Rightarrow> vmstate" where
  "live_heap_only g s = s\<lparr>heap := (\<lambda>a. if live g s a then heap s a else None)\<rparr>"

lemma Collect_ms_eq:
  assumes ok: "gc_ok g s"
  shows "Collect_ms osize g s = Inr (collected osize g s, live_heap_only g s)"
proof -
  let ?m = "\<lambda>a. if live g s a then GC_MARKED else 0"
  have al: "distinct (allocatedObjects g)" "\<forall>a \<in> set (allocatedObjects g). heap s a \<noteq> None"
    "\<And>a. a \<notin> set (allocatedObjects g) \<Longrightarrow> heap s a = None" "gcfield g = (\<lambda>_. 0)"
    using ok by (auto simp: gc_ok_def)
  have lv: "a \<in> set (allocatedObjects g)" if "live g s a" for a using live_heap[OF ok that] gc_ok_heap[OF ok] by blast
  have f: "filter (\<lambda>a. ?m a = GC_MARKED) (allocatedObjects g) = filter (live g s) (allocatedObjects g)"
    by (intro filter_cong) auto
  have m: "(\<lambda>a. if a \<in> set (allocatedObjects g) \<and> ?m a = GC_MARKED then 0 else ?m a) = gcfield g"
    using lv al(4) by (auto simp: fun_eq_iff)
  have h: "(\<lambda>a. if a \<in> set (allocatedObjects g) \<and> ?m a \<noteq> GC_MARKED then None else heap s a) =
      (\<lambda>a. if live g s a then heap s a else None)"
    using al(3) by (auto simp: fun_eq_iff)
  have u: "g\<lparr>gcfield := gcfield g\<rparr> = g" by simp
  show ?thesis
    unfolding Collect_ms_def markReachableObjects_eq[OF ok] res_bind_Inr sweep_eq[OF al(1,2)] f m h prod.case
    by (simp add: collected_def live_heap_only_def Let_def)
qed

subsection \<open>Collections keep the invariant\<close>

text \<open>What survives is walked as before.\<close>

lemma walk_live: "live g s a \<Longrightarrow> walk_object (collected osize g s) (live_heap_only g s) a = walk_object g s a"
proof -
  have w: "WalkObjects (collected osize g s) (live_heap_only g s) ob = WalkObjects g s ob" for ob
    by (cases ob) (simp_all add: collected_def live_heap_only_def walk_symbol_def Let_def)
  assume "live g s a"
  then show ?thesis using w by (simp add: walk_object_def heap_at_def live_heap_only_def)
qed

lemma WalkGlobals_collected: "WalkGlobals (collected osize g s) (live_heap_only g s) = WalkGlobals g s"
proof -
  have "Ptr (cur_frame s) \<in> set (WalkGlobals g s)"
    by (auto simp: WalkGlobals_def interpreter_WalkGlobals_def split: option.splits hobj.splits)
  then have "live g s (cur_frame s)" by (rule reach_root)
  then have "interpreter_WalkGlobals (live_heap_only g s) = interpreter_WalkGlobals s"
    by (simp add: interpreter_WalkGlobals_def live_heap_only_def split: option.splits hobj.splits)
  then show ?thesis
    by (simp add: WalkGlobals_def walk_globals_map_def WalkSymbols_def walk_symbol_def collected_def live_heap_only_def Let_def)
qed

lemma collected_ok:
  assumes ok: "gc_ok g s"
  shows "gc_ok (collected osize g s) (live_heap_only g s)"
proof -
  let ?g = "collected osize g s" and ?s = "live_heap_only g s"
  have al: "allocatedObjects ?g = filter (live g s) (allocatedObjects g)" "gcfield ?g = gcfield g" "hp ?s = hp s"
    "\<And>a. heap ?s a = (if live g s a then heap s a else None)"
    by (simp_all add: collected_def live_heap_only_def Let_def)
  have h: "heap ?s a \<noteq> None \<longleftrightarrow> live g s a" for a using live_heap[OF ok] al(4) by simp
  have "\<exists>refs. walk_object ?g ?s a = Inr refs \<and> (\<forall>b. Ptr b \<in> set refs \<longrightarrow> live g s b)" if l: "live g s a" for a
  proof -
    obtain refs where "walk_object g s a = Inr refs"
      using live_heap[OF ok l] by (auto simp: walk_object_def heap_at_def)
    then show ?thesis using walk_live[OF l] reach_step[OF l] by simp
  qed
  then have "closed_refs (walk_object ?g ?s) {a. heap ?s a \<noteq> None}" unfolding closed_refs_def h by blast
  moreover have "\<forall>a. Ptr a \<in> set (WalkGlobals ?g ?s) \<longrightarrow> heap ?s a \<noteq> None"
    unfolding WalkGlobals_collected h by (auto intro: reach_root)
  moreover have "\<forall>a. heap ?s a \<noteq> None \<longleftrightarrow> a \<in> set (allocatedObjects ?g)"
    unfolding h al(1) using live_heap[OF ok] gc_ok_heap[OF ok] by fastforce
  moreover have "distinct (allocatedObjects ?g)" "\<forall>a \<in> set (allocatedObjects ?g). a < hp ?s" "gcfield ?g = (\<lambda>_. 0)"
    using ok al by (auto simp: gc_ok_def)
  ultimately show ?thesis unfolding gc_ok_def by blast
qed

lemma gc_ok_refs:
  assumes "gc_ok g s" "heap s a = Some x" "Ptr b \<in> set (WalkObjects g s x)"
  shows "heap s b \<noteq> None"
proof -
  have "closed_refs (walk_object g s) {a. heap s a \<noteq> None}" using assms(1) unfolding gc_ok_def by blast
  moreover have "a \<in> {a. heap s a \<noteq> None}" using assms(2) by simp
  ultimately obtain refs where "walk_object g s a = Inr refs" "\<forall>b. Ptr b \<in> set refs \<longrightarrow> heap s b \<noteq> None"
    unfolding closed_refs_def by blast
  then show ?thesis using assms(2,3) by (simp add: walk_object_def heap_at_def)
qed

lemma gc_ok_fresh: "gc_ok g s \<Longrightarrow> heap s (hp s) = None"
  unfolding gc_ok_def by (metis less_irrefl)

lemma allocated_ok:
  assumes ok: "gc_ok g s" and refs: "\<forall>b. Ptr b \<in> set (WalkObjects g s ob) \<longrightarrow> heap s b \<noteq> None"
  shows "gc_ok (fst (snd (AllocateObject_ms n ob g s))) (snd (snd (AllocateObject_ms n ob g s)))"
proof -
  define g' where "g' = fst (snd (AllocateObject_ms n ob g s))"
  define s' where "s' = snd (snd (AllocateObject_ms n ob g s))"
  have s': "heap s' a = (if a = hp s then Some ob else heap s a)" "hp s' = hp s + 1" "cur_frame s' = cur_frame s"
    "symcaches s' = symcaches s" "globals s' = globals s" for a
    by (simp_all add: s'_def AllocateObject_ms_def allocate_def)
  have g': "allocatedObjects g' = allocatedObjects g @ [hp s]" "gcfield g' = (gcfield g)(hp s := 0)" "symbolsMap g' = symbolsMap g"
    "class_globals g' = class_globals g" "globalNames g' = globalNames g" "blockClassesByNoOfArgs g' = blockClassesByNoOfArgs g"
    by (simp_all add: g'_def AllocateObject_ms_def allocate_def)
  note fresh = gc_ok_fresh[OF ok]
  have w: "WalkObjects g' s' x = WalkObjects g s x" for x by (cases x) (simp_all add: walk_symbol_def s' g')
  have frame: "heap s (cur_frame s) \<noteq> None"
  proof -
    have "Ptr (cur_frame s) \<in> set (WalkGlobals g s)"
      by (auto simp: WalkGlobals_def interpreter_WalkGlobals_def split: option.splits hobj.splits)
    then show ?thesis using ok unfolding gc_ok_def by blast
  qed
  then have "cur_frame s \<noteq> hp s" using fresh by metis
  then have globs: "WalkGlobals g' s' = WalkGlobals g s"
    by (simp add: WalkGlobals_def walk_globals_map_def WalkSymbols_def walk_symbol_def interpreter_WalkGlobals_def s' g' split: option.splits hobj.splits)
  have "closed_refs (walk_object g' s') {a. heap s' a \<noteq> None}"
    unfolding closed_refs_def
  proof
    fix a assume "a \<in> {a. heap s' a \<noteq> None}"
    then obtain x where x: "heap s' a = Some x" by auto
    have "\<forall>b. Ptr b \<in> set (WalkObjects g s x) \<longrightarrow> heap s b \<noteq> None"
    proof (cases "a = hp s")
      case False
      then have "heap s a = Some x" using x s' by simp
      then show ?thesis using gc_ok_refs[OF ok] by blast
    qed (use x refs s' in simp)
    then show "\<exists>refs. walk_object g' s' a = Inr refs \<and> (\<forall>b. Ptr b \<in> set refs \<longrightarrow> b \<in> {a. heap s' a \<noteq> None})"
      using x w s'(1) by (auto simp: walk_object_def heap_at_def)
  qed
  moreover have "\<forall>a. Ptr a \<in> set (WalkGlobals g' s') \<longrightarrow> heap s' a \<noteq> None"
    unfolding globs s' using ok unfolding gc_ok_def by auto
  moreover have "distinct (allocatedObjects g')" "\<forall>a. heap s' a \<noteq> None \<longleftrightarrow> a \<in> set (allocatedObjects g')"
    "\<forall>a \<in> set (allocatedObjects g'). a < hp s'" "gcfield g' = (\<lambda>_. 0)"
    using ok unfolding gc_ok_def s' g' by auto
  ultimately show ?thesis unfolding g'_def[symmetric] s'_def[symmetric] gc_ok_def by blast
qed

subsection \<open>A sample heap\<close>

text \<open>A frame of a method, the symbol table with one symbol, and an invokable that only the cache of the symbol
  refers to, with the cache about to be filled from its start again.\<close>

definition sample_gc :: gcheap where
  "sample_gc = \<lparr>gcfield = (\<lambda>_. 0), allocatedObjects = [0, 1, 2, 3, 5, 6, 7, 8], spcAlloc = 8, collectionLimit = 8,
     gcWasRequested = True, class_globals = [], symbolsMap = [(''foo'', 5)], globalNames = [], blockClassesByNoOfArgs = []\<rparr>"

definition sample_live :: vmstate where
  "sample_live = \<lparr>heap = [0 \<mapsto> VMObj 0 [], 1 \<mapsto> VMObj 0 [], 2 \<mapsto> VMObj 0 [], 3 \<mapsto> VMInt 1, 5 \<mapsto> VMSym ''foo'',
     6 \<mapsto> VMInvok (RGetter ''foo'' (Ptr 0) 1 0),
     7 \<mapsto> VMFrm \<lparr>f_previous = None, f_context = None, f_method = 6, f_args = [Ptr 1], f_locals = [], f_stack = [SmallInt 4],
            f_capacity = 2, f_bytecodeIndex = 0\<rparr>,
     8 \<mapsto> VMInvok (RLiteralReturn ''foo'' (Ptr 0) 1 (SmallInt 3))], hp = 9,
     symcaches = (\<lambda>_. \<lparr>cachedClass = [Some 0, Some 0, Some 0], cachedInvokable = [Some 8, Some 8, Some 8], nextCachePos = 0\<rparr>),
     globals = Map.empty, cur_frame = 7, pc = 0\<rparr>"

lemma sample_live_walk:
  "set (WalkGlobals sample_gc sample_live) = {Ptr 0, Ptr 1, Ptr 2, Ptr 3, Ptr 5, Ptr 6, Ptr 7}"
  by (auto simp: WalkGlobals_def walk_globals_map_def WalkSymbols_def interpreter_WalkGlobals_def sample_gc_def sample_live_def
      nilObject_def trueObject_def falseObject_def integerBox_def)

lemma sample_live_refs:
  "a \<in> {0, 1, 2, 3, 5, 6, 7, 8} \<Longrightarrow> \<exists>refs. walk_object sample_gc sample_live a = Inr refs \<and> (\<forall>b. Ptr b \<in> set refs \<longrightarrow> b \<in> {0, 1, 5, 6})"
  by (auto simp: walk_object_def heap_at_def walk_symbol_def walk_frame_def walk_cache_def opt_oop_def sample_gc_def sample_live_def)

lemma sample_closed:
  assumes "A \<subseteq> {0, 1, 2, 3, 5, 6, 7, 8}" "{0, 1, 5, 6} \<subseteq> A"
  shows "closed_refs (walk_object sample_gc sample_live) A"
  unfolding closed_refs_def
proof
  fix a assume "a \<in> A"
  then obtain refs where "walk_object sample_gc sample_live a = Inr refs" "\<forall>b. Ptr b \<in> set refs \<longrightarrow> b \<in> {0, 1, 5, 6}"
    using sample_live_refs[of a] subsetD[OF assms(1)] by metis
  then show "\<exists>refs. walk_object sample_gc sample_live a = Inr refs \<and> (\<forall>b. Ptr b \<in> set refs \<longrightarrow> b \<in> A)"
    using subsetD[OF assms(2)] by metis
qed

lemma sample_live_heap: "heap sample_live a \<noteq> None \<longleftrightarrow> a \<in> {0, 1, 2, 3, 5, 6, 7, 8}"
  by (auto simp: sample_live_def)

lemma sample_gc_ok: "gc_ok sample_gc sample_live"
proof -
  have "closed_refs (walk_object sample_gc sample_live) {a. heap sample_live a \<noteq> None}"
    unfolding sample_live_heap by (rule sample_closed) auto
  moreover have "\<forall>a. Ptr a \<in> set (WalkGlobals sample_gc sample_live) \<longrightarrow> heap sample_live a \<noteq> None"
    unfolding sample_live_heap sample_live_walk by auto
  moreover have "\<forall>a. heap sample_live a \<noteq> None \<longleftrightarrow> a \<in> set (allocatedObjects sample_gc)"
    unfolding sample_live_heap by (simp add: sample_gc_def)
  ultimately show ?thesis unfolding gc_ok_def by (simp add: sample_gc_def sample_live_def)
qed

lemma reach_closed: "reach walk roots a \<Longrightarrow> closed_refs walk A \<Longrightarrow> (\<And>b. Ptr b \<in> set roots \<Longrightarrow> b \<in> A) \<Longrightarrow> a \<in> A"
proof (induction rule: reach.induct)
  case (reach_step a refs b)
  then show ?case unfolding closed_refs_def by force
qed simp

lemma sample_garbage: "\<not> live sample_gc sample_live 8"
proof
  assume "live sample_gc sample_live 8"
  moreover have "closed_refs (walk_object sample_gc sample_live) {0, 1, 2, 3, 5, 6, 7}"
    by (rule sample_closed) auto
  ultimately have "8 \<in> {0, 1, 2, 3, 5, 6, 7 :: addr}"
    by (rule reach_closed) (auto simp: sample_live_walk)
  then show False by simp
qed

subsection \<open>Properties\<close>



text \<open>C7. The invariant of the collector holds after a collection, and after the allocation of an object whose
  references are to objects of the heap; the new object is at the address that is answered, and a collection
  is requested as soon as the limit is reached.\<close>

theorem gc_ok_invariant:
  assumes "gc_ok g s" "\<forall>b. Ptr b \<in> set (WalkObjects g s ob) \<longrightarrow> heap s b \<noteq> None"
  shows "(\<exists>g' s'. Collect_ms osize g s = Inr (g', s') \<and> gc_ok g' s')
    \<and> (case AllocateObject_ms n ob g s of (a, g', s') \<Rightarrow> gc_ok g' s' \<and> heap s' a = Some ob \<and> heap s a = None
         \<and> (collectionLimit g' \<le> spcAlloc g' \<longrightarrow> gcWasRequested g'))"
  using Collect_ms_eq[OF assms(1)] collected_ok[OF assms(1)] allocated_ok[OF assms, of n] gc_ok_fresh[OF assms(1)]
  by (auto simp: AllocateObject_ms_def allocate_def)

theorem gc_ok_invariant_witness:
  "(\<exists>g' s'. Collect_ms (\<lambda>_. 1) sample_gc sample_live = Inr (g', s') \<and> gc_ok g' s')
    \<and> (case AllocateObject_ms 1 (VMStr ''x'') sample_gc sample_live of (a, g', s') \<Rightarrow> gc_ok g' s' \<and> heap s' a = Some (VMStr ''x''))"
  using gc_ok_invariant[OF sample_gc_ok, of "VMStr ''x''" "\<lambda>_. 1" 1] by auto



end
