(* ===== verification/Lexer.thy ===== *)
theory Lexer
  imports Prelude "HOL-Library.Char_ord"
begin

text \<open>
  The lexer (\<open>compiler/Lexer\<close>). The input stream is the list of the lines that \<open>getline\<close> has not read yet; the
  stream is good as long as there is one. The current line is \<open>buf\<close>, and reading it at its end gives the null
  character, as \<open>std::string\<close> does. Every loop decreases the input that remains, which is the termination measure
  and the reason why lexing a file ends. Two assertions guard escape characters; everything else always succeeds.
\<close>

subsection \<open>Characters\<close>

definition isspace :: "char \<Rightarrow> bool" where
  "isspace c \<longleftrightarrow> c = CHR '' '' \<or> (CHR 0x09 \<le> c \<and> c \<le> CHR 0x0D)"

definition isdigit :: "char \<Rightarrow> bool" where
  "isdigit c \<longleftrightarrow> CHR ''0'' \<le> c \<and> c \<le> CHR ''9''"

definition isalpha :: "char \<Rightarrow> bool" where
  "isalpha c \<longleftrightarrow> (CHR ''a'' \<le> c \<and> c \<le> CHR ''z'') \<or> (CHR ''A'' \<le> c \<and> c \<le> CHR ''Z'')"

abbreviation NUL :: char where "NUL \<equiv> CHR 0x00"
abbreviation QUOTE :: char where "QUOTE \<equiv> CHR 0x27"
abbreviation DQUOTE :: char where "DQUOTE \<equiv> CHR 0x22"
abbreviation BACKSLASH :: char where "BACKSLASH \<equiv> CHR 0x5C"
abbreviation NEWLINE :: char where "NEWLINE \<equiv> CHR 0x0A"

definition ISOP :: "char \<Rightarrow> bool" where
  "ISOP c \<longleftrightarrow> c \<in> set (BACKSLASH # ''~&|*/+=><,@%-'')"

subsection \<open>State\<close>

datatype Symbol =
    NONE_sym | Integer_sym | Double_sym | Not_sym | And_sym | Or_sym | Star_sym | Div_sym | Mod_sym | Plus_sym | Minus_sym
  | Equal_sym | More_sym | Less_sym | Comma_sym | At_sym | Per_sym | NewBlock_sym | EndBlock_sym | Colon_sym | Period_sym
  | Exit_sym | Assign_sym | NewTerm_sym | EndTerm_sym | Pound_sym | Primitive_sym | Separator_sym | STString_sym
  | Identifier_sym | Keyword_sym | KeywordSequence_sym | OperatorSequence_sym

record LexerState =
  lineNumber :: nat
  bufp :: nat
  sym :: Symbol
  symc :: char
  ltext :: string
  startBufp :: nat

record Lexer =
  lstate :: LexerState
  stateAfterPeek :: LexerState
  peekDone :: bool
  buf :: string
  infile :: "string list"

definition initial_LexerState :: LexerState where
  "initial_LexerState = \<lparr>lineNumber = 0, bufp = 0, sym = NONE_sym, symc = NUL, ltext = [], startBufp = 0\<rparr>"

definition new_Lexer :: "string list \<Rightarrow> Lexer" where
  "new_Lexer input = \<lparr>lstate = initial_LexerState, stateAfterPeek = initial_LexerState, peekDone = False, buf = [], infile = input\<rparr>"

text \<open>The character at a distance from the current position, and the end of the line.\<close>

definition char_at :: "nat \<Rightarrow> Lexer \<Rightarrow> char" where
  "char_at k l = (let i = bufp (lstate l) + k in if i < length (buf l) then buf l ! i else NUL)"

abbreviation BC_char :: "Lexer \<Rightarrow> char" where "BC_char \<equiv> char_at 0"

definition EOB :: "Lexer \<Rightarrow> bool" where
  "EOB l \<longleftrightarrow> bufp (lstate l) \<ge> length (buf l)"

definition upd :: "(LexerState \<Rightarrow> LexerState) \<Rightarrow> Lexer \<Rightarrow> Lexer" where
  "upd f l = l\<lparr>lstate := f (lstate l)\<rparr>"

definition incPtr :: "nat \<Rightarrow> Lexer \<Rightarrow> Lexer" where
  "incPtr n = upd (\<lambda>s. s\<lparr>bufp := bufp s + n, startBufp := bufp s + n\<rparr>)"

definition add_text :: "char \<Rightarrow> Lexer \<Rightarrow> Lexer" where
  "add_text c = upd (\<lambda>s. s\<lparr>ltext := ltext s @ [c]\<rparr>)"

definition set_sym :: "Symbol \<Rightarrow> char \<Rightarrow> string \<Rightarrow> Lexer \<Rightarrow> Lexer" where
  "set_sym y c t = upd (\<lambda>s. s\<lparr>sym := y, symc := c, ltext := t\<rparr>)"

text \<open>What is left of the input.\<close>

definition remaining :: "Lexer \<Rightarrow> nat" where
  "remaining l = (length (buf l) - bufp (lstate l)) + sum_list (map (\<lambda>x. length x + 1) (infile l))"

subsection \<open>Filling the buffer\<close>

definition fillBuffer :: "Lexer \<Rightarrow> Lexer option" where
  "fillBuffer l =
     (case infile l of
        [] \<Rightarrow> None
      | x # xs \<Rightarrow> Some (l\<lparr>buf := x, infile := xs, lstate := (lstate l)\<lparr>lineNumber := lineNumber (lstate l) + 1, bufp := 0\<rparr>\<rparr>))"

lemma remaining_incPtr: "remaining (incPtr n l) = remaining l - min n (length (buf l) - bufp (lstate l))"
  by (simp add: remaining_def incPtr_def upd_def)

lemma remaining_add_text [simp]: "remaining (add_text c l) = remaining l"
  by (simp add: remaining_def add_text_def upd_def)

lemma remaining_set_sym [simp]: "remaining (set_sym y c t l) = remaining l"
  by (simp add: remaining_def set_sym_def upd_def)

lemma remaining_incPtr_le: "remaining (incPtr n l) \<le> remaining l"
  by (simp add: remaining_incPtr)

lemma remaining_incPtr_less: "\<not> EOB l \<Longrightarrow> 0 < n \<Longrightarrow> remaining (incPtr n l) < remaining l"
  by (simp add: remaining_def incPtr_def upd_def EOB_def)

lemma remaining_fillBuffer: "fillBuffer l = Some l' \<Longrightarrow> EOB l \<Longrightarrow> remaining l' < remaining l"
  by (auto simp: fillBuffer_def remaining_def EOB_def split: list.splits)

text \<open>The loops \<open>while (EOB) if (fillBuffer() == -1) return\<close>, also with a character for every line read.\<close>

lemma remaining_fold_add_text [simp]: "remaining (fold add_text cs l) = remaining l"
  by (induction cs arbitrary: l) auto

function fill_lines :: "string \<Rightarrow> Lexer \<Rightarrow> bool \<times> Lexer" where
  "fill_lines sep l =
     (if EOB l then
        (case fillBuffer l of
           None \<Rightarrow> (False, l)
         | Some l' \<Rightarrow> fill_lines sep (fold add_text sep l'))
      else (True, l))"
  by pat_completeness auto

termination
  by (relation "measure (\<lambda>(_, l). remaining l)") (auto simp: remaining_fillBuffer)

declare fill_lines.simps [simp del]

definition hasMoreInput :: "Lexer \<Rightarrow> bool \<times> Lexer" where
  "hasMoreInput l = fill_lines [] l"

lemma fill_lines_props:
  "fill_lines sep l = (ok, l') \<Longrightarrow> remaining l' \<le> remaining l \<and> (ok \<longleftrightarrow> \<not> EOB l') \<and> (EOB l \<and> ok \<longrightarrow> remaining l' < remaining l)
     \<and> (\<not> ok \<longrightarrow> infile l' = [])"
proof (induction sep l arbitrary: ok l' rule: fill_lines.induct)
  case (1 sep l)
  show ?case
  proof (cases "EOB l")
    case True
    show ?thesis
    proof (cases "fillBuffer l")
      case None
      then show ?thesis using 1(2) True by (auto simp: fill_lines.simps[of sep l] fillBuffer_def split: list.splits)
    next
      case (Some l1)
      then have "fill_lines sep (fold add_text sep l1) = (ok, l')" using 1(2) True by (simp add: fill_lines.simps[of sep l])
      from 1(1)[OF True Some this] remaining_fillBuffer[OF Some True] show ?thesis by auto
    qed
  qed (use 1(2) in \<open>auto simp: fill_lines.simps[of sep l]\<close>)
qed

subsection \<open>White space and comments\<close>

lemma char_at_EOB: "EOB l \<Longrightarrow> char_at 0 l = NUL"
  by (simp add: char_at_def EOB_def)

lemma NUL_class [simp]: "\<not> isspace NUL" "\<not> isdigit NUL" "\<not> isalpha NUL" "\<not> ISOP NUL"
  by (simp_all add: isspace_def isdigit_def isalpha_def ISOP_def less_eq_char_def)

lemma not_EOB_if: "isspace (BC_char l) \<or> isdigit (BC_char l) \<or> isalpha (BC_char l) \<or> ISOP (BC_char l) \<or> BC_char l \<in> {DQUOTE, QUOTE, CHR ''_'', CHR '':'', CHR ''-''}
    \<Longrightarrow> \<not> EOB l"
  using char_at_EOB[of l] by (cases "EOB l") auto

lemma fill_after_inc: "fill_lines sep (incPtr (Suc 0) l) = (True, l') \<Longrightarrow> remaining l' < remaining l"
  using fill_lines_props[of sep "incPtr (Suc 0) l" True l'] remaining_incPtr_less[of l "Suc 0"] remaining_incPtr_le[of "Suc 0" l]
  by (cases "EOB l") (auto simp: EOB_def incPtr_def upd_def)

function skipWhiteSpace :: "Lexer \<Rightarrow> Lexer" where
  "skipWhiteSpace l =
     (if isspace (BC_char l) then
        (case fill_lines [] (incPtr 1 l) of (ok, l') \<Rightarrow> if ok then skipWhiteSpace l' else l')
      else l)"
  by pat_completeness auto

termination
  by (relation "measure remaining") (auto dest: fill_after_inc[OF sym])

declare skipWhiteSpace.simps [simp del]

text \<open>The loop of \<open>skipComment\<close>, which goes on to the closing quote or the end of the file.\<close>

function skipComment_loop :: "Lexer \<Rightarrow> Lexer" where
  "skipComment_loop l =
     (case fill_lines [] (incPtr 1 l) of (ok, l') \<Rightarrow>
        if \<not> ok then l' else if BC_char l' \<noteq> DQUOTE then skipComment_loop l' else incPtr 1 l')"
  by pat_completeness auto

termination
  by (relation "measure remaining") (auto dest: fill_after_inc[OF sym])

declare skipComment_loop.simps [simp del]

definition skipComment :: "Lexer \<Rightarrow> Lexer" where
  "skipComment l = (if BC_char l = DQUOTE then skipComment_loop l else l)"

subsection \<open>Tokens\<close>

lemma remaining_incPtr_inside: "\<not> EOB (incPtr n l) \<Longrightarrow> 0 < n \<Longrightarrow> remaining (incPtr n l) < remaining l"
  by (simp add: remaining_def incPtr_def upd_def EOB_def)

lemma EOB_add_text [simp]: "EOB (add_text c l) = EOB l" "EOB (set_sym y d t l) = EOB l"
  by (simp_all add: EOB_def add_text_def set_sym_def upd_def)

text \<open>The loops that add characters of a class to the token. No class has the null character, so such a loop stops
  at the end of the line.\<close>

function scan_while :: "(char \<Rightarrow> bool) \<Rightarrow> Lexer \<Rightarrow> Lexer" where
  "scan_while P l = (if \<not> EOB l \<and> P (BC_char l) then scan_while P (incPtr 1 (add_text (BC_char l) l)) else l)"
  by pat_completeness auto

termination
  by (relation "measure (\<lambda>(_, l). remaining l)")
    (auto simp: remaining_incPtr_less[of "add_text c l" for c l, simplified])

declare scan_while.simps [simp del]

text \<open>Digits, with at most one decimal mark that a digit follows.\<close>

definition lex_decimal_mark :: "bool \<Rightarrow> Lexer \<Rightarrow> bool \<times> Lexer" where
  "lex_decimal_mark saw l =
     (if \<not> saw \<and> BC_char l = CHR ''.'' \<and> bufp (lstate l) + 1 < length (buf l) \<and> isdigit (char_at 1 l)
      then (True, incPtr 1 (add_text (BC_char l) (upd (\<lambda>s. s\<lparr>sym := Double_sym\<rparr>) l)))
      else (saw, l))"

lemma remaining_lex_decimal_mark: "lex_decimal_mark saw l = (saw', l') \<Longrightarrow> remaining l' \<le> remaining l \<and> (EOB l \<longrightarrow> EOB l')"
  by (auto simp: lex_decimal_mark_def remaining_def EOB_def incPtr_def add_text_def upd_def split: if_splits)

lemma remaining_lexNumber_round:
  assumes "lex_decimal_mark saw (incPtr (Suc 0) (add_text c l)) = (saw', l')" "isdigit (BC_char l')"
  shows "remaining l' < remaining l"
proof -
  have "\<not> EOB l'" using not_EOB_if[of l'] assms(2) by simp
  then have "\<not> EOB (incPtr (Suc 0) (add_text c l))" using remaining_lex_decimal_mark[OF assms(1)] by blast
  from remaining_incPtr_inside[OF this] remaining_lex_decimal_mark[OF assms(1)] show ?thesis by simp
qed

function lexNumber_loop :: "bool \<Rightarrow> Lexer \<Rightarrow> Lexer" where
  "lexNumber_loop saw l =
     (case lex_decimal_mark saw (incPtr 1 (add_text (BC_char l) l)) of (saw', l') \<Rightarrow>
        if isdigit (BC_char l') then lexNumber_loop saw' l' else l')"
  by pat_completeness auto

termination
proof (relation "measure (\<lambda>(_, l). remaining l)")
  fix saw l saw' l'
  assume x: "(saw', l') = lex_decimal_mark saw (incPtr 1 (add_text (BC_char l) l))" "isdigit (BC_char l')"
  then have "lex_decimal_mark saw (incPtr (Suc 0) (add_text (BC_char l) l)) = (saw', l')" by simp
  from remaining_lexNumber_round[OF this x(2)] show "((saw', l'), (saw, l)) \<in> measure (\<lambda>(_, l). remaining l)" by simp
qed simp

declare lexNumber_loop.simps [simp del]

definition lexNumber :: "Lexer \<Rightarrow> Lexer" where
  "lexNumber l = lexNumber_loop False (set_sym Integer_sym NUL [] l)"

subsection \<open>Strings\<close>

definition escapes :: "(char \<times> char) list" where
  "escapes = [(CHR ''t'', CHR 0x09), (CHR ''b'', CHR 0x08), (CHR ''n'', NEWLINE), (CHR ''r'', CHR 0x0D), (CHR ''f'', CHR 0x0C),
     (CHR ''0'', NUL), (QUOTE, QUOTE), (BACKSLASH, BACKSLASH)]"

definition lexEscapeChar :: "Lexer \<Rightarrow> Lexer res" where
  "lexEscapeChar l =
     (if EOB l then Inl (AssertFailed ''!EOB'')
      else case map_of escapes (BC_char l) of
        Some c \<Rightarrow> Inr (incPtr 1 (add_text c l))
      | None \<Rightarrow> Inl (AssertFailed ''escape character''))"

definition lexStringChar :: "Lexer \<Rightarrow> Lexer res" where
  "lexStringChar l =
     (if BC_char l = BACKSLASH then lexEscapeChar (incPtr 1 l) else Inr (incPtr 1 (add_text (BC_char l) l)))"

lemma remaining_lexStringChar: "lexStringChar l = Inr l' \<Longrightarrow> \<not> EOB l \<Longrightarrow> remaining l' < remaining l"
  using remaining_incPtr_less[of l 1] remaining_incPtr_less[of "add_text (BC_char l) l" 1] remaining_incPtr_le[of 1]
  by (auto simp: lexStringChar_def lexEscapeChar_def split: if_splits option.splits
      intro: le_less_trans[OF remaining_incPtr_le])

lemma res_bind_cong [fundef_cong]:
  "m = m' \<Longrightarrow> (\<And>x. m' = Inr x \<Longrightarrow> f x = g x) \<Longrightarrow> res_bind m f = res_bind m' g"
  by (cases m') auto

lemma lexString_rounds:
  assumes "fill_lines sep l = (True, l1)"
  shows "lexStringChar l1 = Inr l2 \<Longrightarrow> remaining l2 < remaining l"
    and "BC_char l \<noteq> QUOTE \<Longrightarrow> BC_char l1 = QUOTE \<Longrightarrow> remaining l1 < remaining l"
proof -
  have l1: "\<not> EOB l1" "remaining l1 \<le> remaining l" using fill_lines_props[OF assms] by auto
  then show "lexStringChar l1 = Inr l2 \<Longrightarrow> remaining l2 < remaining l" using remaining_lexStringChar[of l1 l2] by simp
  assume "BC_char l \<noteq> QUOTE" "BC_char l1 = QUOTE"
  then have "EOB l" using assms by (auto simp: fill_lines.simps[of sep l] split: if_splits)
  then show "remaining l1 < remaining l" using fill_lines_props[OF assms] by simp
qed

function lexString_loop :: "Lexer \<Rightarrow> Lexer res" where
  "lexString_loop l =
     (if BC_char l = QUOTE then Inr (incPtr 1 l)
      else case fill_lines [NEWLINE] l of (ok, l1) \<Rightarrow>
        if \<not> ok then Inr l1
        else if BC_char l1 \<noteq> QUOTE then res_bind (lexStringChar l1) (\<lambda>l2. lexString_loop l2)
        else lexString_loop l1)"
  by pat_completeness auto

termination
  by (relation "measure remaining") (auto dest: lexString_rounds[OF sym])

declare lexString_loop.simps [simp del]

definition lexString :: "Lexer \<Rightarrow> Lexer res" where
  "lexString l = lexString_loop (incPtr 1 (set_sym STString_sym NUL [] l))"

subsection \<open>Operators and words\<close>

definition match_sym :: "Symbol \<Rightarrow> Lexer \<Rightarrow> Lexer" where
  "match_sym y l = incPtr 1 (set_sym y (BC_char l) [BC_char l] l)"

definition operator_syms :: "(char \<times> Symbol) list" where
  "operator_syms = [(CHR ''~'', Not_sym), (CHR ''&'', And_sym), (CHR ''|'', Or_sym), (CHR ''*'', Star_sym), (CHR ''/'', Div_sym),
     (BACKSLASH, Mod_sym), (CHR ''+'', Plus_sym), (CHR ''='', Equal_sym), (CHR ''>'', More_sym), (CHR ''<'', Less_sym),
     (CHR '','', Comma_sym), (CHR ''@'', At_sym), (CHR ''%'', Per_sym), (CHR ''-'', Minus_sym)]"

definition lexOperator :: "Lexer \<Rightarrow> Lexer" where
  "lexOperator l =
     (if ISOP (char_at 1 l) then scan_while ISOP (set_sym OperatorSequence_sym NUL [] l)
      else case map_of operator_syms (BC_char l) of Some y \<Rightarrow> match_sym y l | None \<Rightarrow> l)"

definition rest_of_line :: "Lexer \<Rightarrow> string" where
  "rest_of_line l = drop (bufp (lstate l)) (buf l)"

definition nextWordInBufferIsPrimitive :: "Lexer \<Rightarrow> bool" where
  "nextWordInBufferIsPrimitive l =
     (take 9 (rest_of_line l) = ''primitive'' \<and>
      (bufp (lstate l) + 9 \<ge> length (buf l) \<or> \<not> (isalpha (char_at 9 l) \<or> isdigit (char_at 9 l))))"

definition lexColon :: "Lexer \<Rightarrow> Lexer" where
  "lexColon l =
     (if char_at 1 l = CHR ''='' then set_sym Assign_sym NUL '':='' (incPtr 2 l)
      else set_sym Colon_sym (CHR '':'') '':'' (incPtr 1 l))"

definition lexSeparator :: "Lexer \<Rightarrow> Lexer" where
  "lexSeparator l =
     (if take 4 (rest_of_line l) = ''----''
      then upd (\<lambda>s. s\<lparr>sym := Separator_sym\<rparr>) (scan_while (\<lambda>c. c = CHR ''-'') (upd (\<lambda>s. s\<lparr>ltext := []\<rparr>) l))
      else lexOperator l)"

definition is_word_char :: "char \<Rightarrow> bool" where
  "is_word_char c \<longleftrightarrow> isalpha c \<or> isdigit c \<or> c = CHR ''_''"

definition lexWord :: "Lexer \<Rightarrow> Lexer" where
  "lexWord l =
     (let l1 = upd (\<lambda>s. s\<lparr>sym := Identifier_sym\<rparr>)
                 (scan_while is_word_char (upd (\<lambda>s. s\<lparr>ltext := [], symc := NUL\<rparr>) l)) in
      if BC_char l1 = CHR '':'' then
        (let l2 = add_text (CHR '':'') (incPtr 1 (upd (\<lambda>s. s\<lparr>sym := Keyword_sym\<rparr>) l1)) in
         if isalpha (BC_char l2)
         then scan_while (\<lambda>c. isalpha c \<or> c = CHR '':'') (upd (\<lambda>s. s\<lparr>sym := KeywordSequence_sym\<rparr>) l2)
         else l2)
      else l1)"

definition single_syms :: "(char \<times> Symbol) list" where
  "single_syms = [(CHR ''['', NewBlock_sym), (CHR '']'', EndBlock_sym), (CHR ''('', NewTerm_sym), (CHR '')'', EndTerm_sym),
     (CHR ''#'', Pound_sym), (CHR ''^'', Exit_sym), (CHR ''.'', Period_sym)]"

text \<open>The token that starts at the current position.\<close>

definition lex_token :: "Lexer \<Rightarrow> Lexer res" where
  "lex_token l =
     (let c = BC_char l in
      if c = QUOTE then lexString l
      else case map_of single_syms c of
        Some y \<Rightarrow> Inr (match_sym y l)
      | None \<Rightarrow>
          Inr (if c = CHR '':'' then lexColon l
               else if c = CHR ''-'' then lexSeparator l
               else if ISOP c then lexOperator l
               else if nextWordInBufferIsPrimitive l then set_sym Primitive_sym NUL ''primitive'' (incPtr 9 l)
               else if isalpha c then lexWord l
               else if isdigit c then lexNumber l
               else set_sym NONE_sym c [c] l))"

subsection \<open>The next symbol\<close>

lemma skipWhiteSpace_props:
  "remaining (skipWhiteSpace l) \<le> remaining l \<and> (isspace (BC_char l) \<longrightarrow> remaining (skipWhiteSpace l) < remaining l)"
proof (induction l rule: skipWhiteSpace.induct)
  case (1 l)
  show ?case
  proof (cases "isspace (BC_char l)")
    case True
    obtain ok l' where f: "fill_lines [] (incPtr 1 l) = (ok, l')" by fastforce
    have "\<not> EOB l" using not_EOB_if[of l] True by simp
    then have "remaining l' < remaining l"
      using fill_lines_props[OF f] remaining_incPtr_less[of l 1] by simp
    then show ?thesis using 1[OF True f[symmetric]] True f by (auto simp: skipWhiteSpace.simps[of l])
  qed (simp add: skipWhiteSpace.simps[of l])
qed

lemma skipComment_loop_props: "\<not> EOB l \<Longrightarrow> remaining (skipComment_loop l) < remaining l"
proof (induction l rule: skipComment_loop.induct)
  case (1 l)
  obtain ok l' where f: "fill_lines [] (incPtr 1 l) = (ok, l')" by fastforce
  have l': "remaining l' < remaining l" "ok \<longleftrightarrow> \<not> EOB l'"
    using fill_lines_props[OF f] remaining_incPtr_less[of l 1] 1(2) by auto
  then show ?case
    using 1(1)[OF f[symmetric]] f remaining_incPtr_le[of 1 l']
    by (cases ok; cases "BC_char l' = DQUOTE") (auto simp: skipComment_loop.simps[of l])
qed

lemma skipComment_props:
  "remaining (skipComment l) \<le> remaining l \<and> (BC_char l = DQUOTE \<longrightarrow> remaining (skipComment l) < remaining l)"
  using skipComment_loop_props[of l] not_EOB_if[of l] by (auto simp: skipComment_def)

text \<open>The loop before a token.\<close>

lemma skip_blanks_round:
  assumes "hasMoreInput l = (True, l1)" "l2 = skipComment (skipWhiteSpace l1)" "EOB l2 \<or> isspace (BC_char l2) \<or> BC_char l2 = DQUOTE"
  shows "remaining l2 < remaining l"
proof -
  have l1: "\<not> EOB l1" "remaining l1 \<le> remaining l" using fill_lines_props assms(1) by (auto simp: hasMoreInput_def)
  have "isspace (BC_char l1) \<or> BC_char l1 = DQUOTE"
  proof (rule ccontr)
    assume n: "\<not> ?thesis"
    then have "l2 = l1" using assms(2) by (simp add: skipWhiteSpace.simps[of l1] skipComment_def)
    then show False using n assms(3) l1 by simp
  qed
  then have "remaining l2 < remaining l1"
    using skipWhiteSpace_props[of l1] skipComment_props[of "skipWhiteSpace l1"] assms(2)
    by (auto simp: skipWhiteSpace.simps[of l1])
  then show ?thesis using l1 by simp
qed

function skip_blanks :: "Lexer \<Rightarrow> bool \<times> Lexer" where
  "skip_blanks l =
     (case hasMoreInput l of (ok, l1) \<Rightarrow>
        if \<not> ok then (False, l1)
        else (let l2 = skipComment (skipWhiteSpace l1) in
              if EOB l2 \<or> isspace (BC_char l2) \<or> BC_char l2 = DQUOTE then skip_blanks l2 else (True, l2)))"
  by pat_completeness auto

termination
proof (relation "measure remaining")
  fix l ok l1 l2
  assume h: "(ok, l1) = hasMoreInput l" "\<not> \<not> ok" "l2 = skipComment (skipWhiteSpace l1)" "EOB l2 \<or> isspace (BC_char l2) \<or> BC_char l2 = DQUOTE"
  then have "hasMoreInput l = (True, l1)" by simp
  from skip_blanks_round[OF this h(3,4)] show "(l2, l) \<in> measure remaining" by simp
qed simp

declare skip_blanks.simps [simp del]

definition GetSym :: "Lexer \<Rightarrow> Lexer res" where
  "GetSym l =
     (if peekDone l then Inr (l\<lparr>peekDone := False, lstate := stateAfterPeek l\<rparr>)
      else case skip_blanks l of (ok, l1) \<Rightarrow>
        if \<not> ok then Inr (set_sym NONE_sym NUL [] l1)
        else lex_token (upd (\<lambda>s. s\<lparr>startBufp := bufp s\<rparr>) l1))"

definition Peek :: "Lexer \<Rightarrow> (Symbol \<times> Lexer) res" where
  "Peek l =
     (if peekDone l then Inl (ErrorExit ''Cannot Peek twice!'')
      else res_bind (GetSym l) (\<lambda>l1.
        Inr (sym (lstate l1), l1\<lparr>stateAfterPeek := lstate l1, lstate := lstate l, peekDone := True\<rparr>)))"

end
