(* ===== verification/Lexer_Props.thy ===== *)
theory Lexer_Props
  imports Lexer
begin

text \<open>
  What the lexer guarantees: every symbol consumes input, so that lexing a file ends; peeking is invisible to
  the symbols read afterwards; words, numbers and strings are read as they were written.
\<close>

subsection \<open>Reading along a line\<close>

lemma rest_Cons: "rest_of_line l = c # r \<Longrightarrow> \<not> EOB l \<and> BC_char l = c \<and> rest_of_line (incPtr 1 l) = r"
proof -
  assume h: "rest_of_line l = c # r"
  then have "bufp (lstate l) < length (buf l)" unfolding rest_of_line_def by (metis drop_all list.distinct(1) not_less)
  moreover from this have "drop (bufp (lstate l)) (buf l) = buf l ! bufp (lstate l) # drop (Suc (bufp (lstate l))) (buf l)"
    by (simp add: Cons_nth_drop_Suc)
  ultimately show ?thesis using h by (simp add: rest_of_line_def EOB_def char_at_def incPtr_def upd_def)
qed

lemma rest_Nil: "rest_of_line l = [] \<longleftrightarrow> EOB l"
  by (auto simp: rest_of_line_def EOB_def)

lemma char_at_rest: "char_at k l = (if k < length (rest_of_line l) then rest_of_line l ! k else NUL)"
  by (auto simp: char_at_def rest_of_line_def Let_def)

lemma rest_upd [simp]: "rest_of_line (add_text c l) = rest_of_line l" "rest_of_line (set_sym y d t l) = rest_of_line l"
  by (simp_all add: rest_of_line_def add_text_def set_sym_def upd_def)

lemma rest_incPtr [simp]: "rest_of_line (incPtr n l) = drop n (rest_of_line l)"
  by (simp add: rest_of_line_def incPtr_def upd_def add.commute)

text \<open>The text and the symbol of the current state.\<close>

abbreviation text_of :: "Lexer \<Rightarrow> string" where "text_of l \<equiv> ltext (lstate l)"
abbreviation sym_of :: "Lexer \<Rightarrow> Symbol" where "sym_of l \<equiv> sym (lstate l)"

lemma state_simps [simp]:
  "text_of (add_text c l) = text_of l @ [c]" "text_of (incPtr n l) = text_of l" "text_of (set_sym y d t l) = t"
  "sym_of (add_text c l) = sym_of l" "sym_of (incPtr n l) = sym_of l" "sym_of (set_sym y d t l) = y"
  by (simp_all add: add_text_def incPtr_def set_sym_def upd_def)

lemma sym_upd [simp]:
  "text_of (upd (\<lambda>s. s\<lparr>sym := y\<rparr>) l) = text_of l" "sym_of (upd (\<lambda>s. s\<lparr>sym := y\<rparr>) l) = y"
  "rest_of_line (upd (\<lambda>s. s\<lparr>sym := y\<rparr>) l) = rest_of_line l" "remaining (upd (\<lambda>s. s\<lparr>sym := y\<rparr>) l) = remaining l"
  "rest_of_line (upd (\<lambda>s. s\<lparr>ltext := t\<rparr>) l) = rest_of_line l" "remaining (upd (\<lambda>s. s\<lparr>ltext := t\<rparr>) l) = remaining l"
  "rest_of_line (upd (\<lambda>s. s\<lparr>ltext := t, symc := d\<rparr>) l) = rest_of_line l" "remaining (upd (\<lambda>s. s\<lparr>ltext := t, symc := d\<rparr>) l) = remaining l"
  "text_of (upd (\<lambda>s. s\<lparr>ltext := t, symc := d\<rparr>) l) = t"
  "rest_of_line (upd (\<lambda>s. s\<lparr>startBufp := bufp s\<rparr>) l) = rest_of_line l" "remaining (upd (\<lambda>s. s\<lparr>startBufp := bufp s\<rparr>) l) = remaining l"
  by (simp_all add: upd_def rest_of_line_def remaining_def)

lemma scan_while_step:
  "rest_of_line l = c # r \<Longrightarrow> P c \<Longrightarrow> scan_while P l = scan_while P (incPtr 1 (add_text c l))"
  using rest_Cons[of l c r] by (simp add: scan_while.simps[of P l])

lemma scan_while_stop: "rest_of_line l = [] \<or> \<not> P (hd (rest_of_line l)) \<Longrightarrow> scan_while P l = l"
  using rest_Nil[of l] by (auto simp: scan_while.simps[of P l] char_at_rest hd_conv_nth)

lemma scan_while_word:
  "rest_of_line l = w @ r \<Longrightarrow> \<forall>c \<in> set w. P c \<Longrightarrow> r = [] \<or> \<not> P (hd r) \<Longrightarrow>
    text_of (scan_while P l) = text_of l @ w \<and> sym_of (scan_while P l) = sym_of l \<and> rest_of_line (scan_while P l) = r
    \<and> infile (scan_while P l) = infile l"
proof (induction w arbitrary: l)
  case Nil
  then show ?case using scan_while_stop[of l P] by simp
next
  case (Cons c w)
  have "scan_while P l = scan_while P (incPtr 1 (add_text c l))" using Cons.prems by (intro scan_while_step) auto
  moreover have "infile (incPtr 1 (add_text c l)) = infile l" by (simp add: incPtr_def add_text_def upd_def)
  ultimately show ?case using Cons.IH[of "incPtr 1 (add_text c l)"] Cons.prems by simp
qed

lemma scan_while_le: "remaining (scan_while P l) \<le> remaining l"
proof (induction P l rule: scan_while.induct)
  case (1 P l)
  show ?case
  proof (cases "\<not> EOB l \<and> P (BC_char l)")
    case True
    have "remaining (incPtr 1 (add_text (BC_char l) l)) \<le> remaining l"
      using remaining_incPtr_le[of 1 "add_text (BC_char l) l"] by simp
    then show ?thesis using 1[OF True] True by (simp add: scan_while.simps[of P l])
  qed (auto simp: scan_while.simps[of P l])
qed

lemma scan_while_less: "\<not> EOB l \<Longrightarrow> P (BC_char l) \<Longrightarrow> remaining (scan_while P l) < remaining l"
  using scan_while_le[of P "incPtr 1 (add_text (BC_char l) l)"] remaining_incPtr_less[of "add_text (BC_char l) l" 1]
  by (simp add: scan_while.simps[of P l])

subsection \<open>Every symbol consumes input\<close>

lemma EOB_upd [simp]:
  "EOB (upd (\<lambda>s. s\<lparr>ltext := t\<rparr>) l) = EOB l" "EOB (upd (\<lambda>s. s\<lparr>ltext := t, symc := d\<rparr>) l) = EOB l"
  "BC_char (upd (\<lambda>s. s\<lparr>ltext := t\<rparr>) l) = BC_char l" "BC_char (upd (\<lambda>s. s\<lparr>ltext := t, symc := d\<rparr>) l) = BC_char l"
  "BC_char (set_sym y d t l) = BC_char l"
  by (simp_all add: EOB_def char_at_def upd_def set_sym_def Let_def)

lemma lexNumber_loop_le: "remaining (lexNumber_loop saw l) \<le> remaining (incPtr 1 l)"
proof (induction saw l rule: lexNumber_loop.induct)
  case (1 saw l)
  obtain saw' l' where m: "lex_decimal_mark saw (incPtr 1 (add_text (BC_char l) l)) = (saw', l')" by fastforce
  have "remaining l' \<le> remaining (incPtr 1 l)"
    using remaining_lex_decimal_mark[OF m] by (simp add: remaining_def incPtr_def add_text_def upd_def)
  then show ?case
    using 1[OF m[symmetric]] m remaining_incPtr_le[of 1 l'] by (auto simp: lexNumber_loop.simps[of saw l])
qed

lemma lexString_loop_le: "lexString_loop l = Inr l' \<Longrightarrow> remaining l' \<le> remaining l"
proof (induction l arbitrary: l' rule: lexString_loop.induct)
  case (1 l)
  obtain ok l1 where f: "fill_lines [NEWLINE] l = (ok, l1)" by fastforce
  consider "BC_char l = QUOTE" | "BC_char l \<noteq> QUOTE" "\<not> ok" | "BC_char l \<noteq> QUOTE" "ok" "BC_char l1 \<noteq> QUOTE"
    | "BC_char l \<noteq> QUOTE" "ok" "BC_char l1 = QUOTE" by blast
  then show ?case
  proof cases
    case 1
    then show ?thesis using "1.prems" remaining_incPtr_le[of 1 l] by (simp add: lexString_loop.simps[of l])
  next
    case 2
    then show ?thesis using "1.prems" f fill_lines_props[OF f] by (simp add: lexString_loop.simps[of l])
  next
    case 3
    then obtain l2 where l2: "lexStringChar l1 = Inr l2" "lexString_loop l2 = Inr l'"
      using "1.prems" f by (auto simp: lexString_loop.simps[of l])
    then show ?thesis using "1.IH"(1)[OF _ f[symmetric] _ _ l2(1) l2(2)] lexString_rounds(1)[of "[NEWLINE]" l l1 l2] 3 f by simp
  next
    case 4
    then have "lexString_loop l1 = Inr l'" using "1.prems" f by (simp add: lexString_loop.simps[of l])
    then show ?thesis using "1.IH"(2)[OF _ f[symmetric]] fill_lines_props[OF f] 4 by fastforce
  qed
qed

lemma match_sym_less: "\<not> EOB l \<Longrightarrow> remaining (match_sym y l) < remaining l"
  using remaining_incPtr_less[of "set_sym y (BC_char l) [BC_char l] l" 1] by (simp add: match_sym_def)

lemma ISOP_operator: "ISOP c \<Longrightarrow> \<exists>y. map_of operator_syms c = Some y"
  by (auto simp: ISOP_def operator_syms_def)

lemma lexOperator_less: "ISOP (BC_char l) \<Longrightarrow> remaining (lexOperator l) < remaining l"
proof -
  assume op: "ISOP (BC_char l)"
  then have e: "\<not> EOB l" using not_EOB_if[of l] by simp
  have "remaining (scan_while ISOP (set_sym OperatorSequence_sym NUL [] l)) < remaining l"
    using scan_while_less[of "set_sym OperatorSequence_sym NUL [] l" ISOP] e op by simp
  then show ?thesis using ISOP_operator[OF op] match_sym_less[OF e] by (auto simp: lexOperator_def)
qed

lemma lexSeparator_less: "BC_char l = CHR ''-'' \<Longrightarrow> remaining (lexSeparator l) < remaining l"
proof -
  assume c: "BC_char l = CHR ''-''"
  then have "\<not> EOB l" "ISOP (BC_char l)" using not_EOB_if[of l] by (simp_all add: ISOP_def)
  then show ?thesis
    using scan_while_less[of "upd (\<lambda>s. s\<lparr>ltext := []\<rparr>) l" "\<lambda>c. c = CHR ''-''"] c lexOperator_less by (simp add: lexSeparator_def)
qed

lemma lexWord_less: "isalpha (BC_char l) \<Longrightarrow> remaining (lexWord l) < remaining l"
proof -
  assume a: "isalpha (BC_char l)"
  define l1 where "l1 = upd (\<lambda>s. s\<lparr>sym := Identifier_sym\<rparr>) (scan_while is_word_char (upd (\<lambda>s. s\<lparr>ltext := [], symc := NUL\<rparr>) l))"
  define l2 where "l2 = add_text (CHR '':'') (incPtr 1 (upd (\<lambda>s. s\<lparr>sym := Keyword_sym\<rparr>) l1))"
  have "\<not> EOB l" using not_EOB_if[of l] a by simp
  then have "remaining l1 < remaining l"
    using scan_while_less[of "upd (\<lambda>s. s\<lparr>ltext := [], symc := NUL\<rparr>) l" is_word_char] a by (simp add: l1_def is_word_char_def)
  moreover have "remaining l2 \<le> remaining l1"
    using remaining_incPtr_le[of 1 "upd (\<lambda>s. s\<lparr>sym := Keyword_sym\<rparr>) l1"] by (simp add: l2_def)
  moreover have "remaining (scan_while P (upd (\<lambda>s. s\<lparr>sym := KeywordSequence_sym\<rparr>) l2)) \<le> remaining l2" for P
    using scan_while_le[of P "upd (\<lambda>s. s\<lparr>sym := KeywordSequence_sym\<rparr>) l2"] by simp
  moreover have "lexWord l = (if BC_char l1 = CHR '':'' then (if isalpha (BC_char l2)
      then scan_while (\<lambda>c. isalpha c \<or> c = CHR '':'') (upd (\<lambda>s. s\<lparr>sym := KeywordSequence_sym\<rparr>) l2) else l2) else l1)"
    by (simp only: lexWord_def Let_def l1_def l2_def)
  ultimately show ?thesis by (auto intro: le_less_trans)
qed

lemma lex_token_less:
  assumes "lex_token l = Inr l'" "\<not> EOB l" "sym_of l' \<noteq> NONE_sym"
  shows "remaining l' < remaining l"
proof -
  let ?c = "BC_char l"
  consider "?c = QUOTE" | y where "?c \<noteq> QUOTE" "map_of single_syms ?c = Some y" | "?c \<noteq> QUOTE" "map_of single_syms ?c = None"
    by (cases "map_of single_syms ?c") auto
  then show ?thesis
  proof cases
    case 1
    then show ?thesis
      using assms lexString_loop_le[of "incPtr 1 (set_sym STString_sym NUL [] l)" l'] remaining_incPtr_less[of "set_sym STString_sym NUL [] l" 1]
      by (simp add: lex_token_def lexString_def)
  next
    case 2
    then show ?thesis using assms match_sym_less[OF assms(2)] by (auto simp: lex_token_def Let_def)
  next
    case 3
    have colon: "remaining (lexColon l) < remaining l"
      using remaining_incPtr_less[OF assms(2)] by (simp add: lexColon_def)
    have num: "remaining (lexNumber l) < remaining l"
      using lexNumber_loop_le[of False "set_sym Integer_sym NUL [] l"] remaining_incPtr_less[of "set_sym Integer_sym NUL [] l" 1] assms(2)
      by (simp add: lexNumber_def)
    have prim: "remaining (set_sym Primitive_sym NUL ''primitive'' (incPtr 9 l)) < remaining l"
      using remaining_incPtr_less[OF assms(2), of 9] by simp
    have "l' = (if ?c = CHR '':'' then lexColon l else if ?c = CHR ''-'' then lexSeparator l else if ISOP ?c then lexOperator l
      else if nextWordInBufferIsPrimitive l then set_sym Primitive_sym NUL ''primitive'' (incPtr 9 l)
      else if isalpha ?c then lexWord l else if isdigit ?c then lexNumber l else set_sym NONE_sym ?c [?c] l)"
      using assms(1) 3 by (simp add: lex_token_def Let_def)
    then show ?thesis
      using assms(3) colon num prim lexSeparator_less[of l] lexOperator_less[of l] lexWord_less[of l] by (auto split: if_splits)
  qed
qed

lemma skip_blanks_props: "skip_blanks l = (ok, l') \<Longrightarrow> remaining l' \<le> remaining l \<and> (ok \<longrightarrow> \<not> EOB l')"
proof (induction l arbitrary: ok l' rule: skip_blanks.induct)
  case (1 l)
  obtain ok1 l1 where h: "hasMoreInput l = (ok1, l1)" by fastforce
  let ?l2 = "skipComment (skipWhiteSpace l1)"
  have l1: "remaining l1 \<le> remaining l" using fill_lines_props h by (auto simp: hasMoreInput_def)
  have l2: "remaining ?l2 \<le> remaining l1"
    using skipWhiteSpace_props[of l1] skipComment_props[of "skipWhiteSpace l1"] by simp
  show ?case
  proof (cases "ok1 \<and> (EOB ?l2 \<or> isspace (BC_char ?l2) \<or> BC_char ?l2 = DQUOTE)")
    case True
    then have "skip_blanks ?l2 = (ok, l')" using 1(2) h by (auto simp: skip_blanks.simps[of l] Let_def)
    then show ?thesis using 1(1)[OF h[symmetric] _ refl] True l1 l2 by fastforce
  next
    case False
    then show ?thesis using 1(2) h l1 l2 by (auto simp: skip_blanks.simps[of l] Let_def split: if_splits)
  qed
qed

lemma GetSym_less:
  assumes "GetSym l = Inr l'" "\<not> peekDone l" "sym_of l' \<noteq> NONE_sym"
  shows "remaining l' < remaining l"
proof -
  obtain ok l1 where b: "skip_blanks l = (ok, l1)" by fastforce
  let ?l1 = "upd (\<lambda>s. s\<lparr>startBufp := bufp s\<rparr>) l1"
  have "ok" using assms b by (auto simp: GetSym_def split: if_splits)
  moreover have "EOB ?l1 = EOB l1" by (simp add: EOB_def upd_def)
  ultimately show ?thesis
    using assms b skip_blanks_props[OF b] lex_token_less[of ?l1 l'] by (simp add: GetSym_def)
qed

subsection \<open>Lexing does not touch the flag of a peek\<close>

lemma peekDone_ops [simp]:
  "peekDone (upd f l) = peekDone l" "peekDone (incPtr n l) = peekDone l" "peekDone (add_text c l) = peekDone l"
  "peekDone (set_sym y d t l) = peekDone l" "peekDone (match_sym y l) = peekDone l" "peekDone (lexColon l) = peekDone l"
  by (simp_all add: upd_def incPtr_def add_text_def set_sym_def match_sym_def lexColon_def)

lemma peekDone_fold [simp]: "peekDone (fold add_text cs l) = peekDone l"
  by (induction cs arbitrary: l) auto

lemma peekDone_fill: "fill_lines sep l = (ok, l') \<Longrightarrow> peekDone l' = peekDone l"
proof (induction sep l arbitrary: ok l' rule: fill_lines.induct)
  case (1 sep l)
  show ?case
  proof (cases "EOB l \<and> fillBuffer l \<noteq> None")
    case True
    then obtain l1 where l1: "fillBuffer l = Some l1" by auto
    have "peekDone l1 = peekDone l" using l1 by (auto simp: fillBuffer_def split: list.splits)
    moreover have "fill_lines sep (fold add_text sep l1) = (ok, l')" using 1(2) True l1 by (simp add: fill_lines.simps[of sep l])
    ultimately show ?thesis using 1(1)[OF _ l1] True by simp
  qed (use 1(2) in \<open>auto simp: fill_lines.simps[of sep l] split: if_splits\<close>)
qed

lemma peekDone_skipWhiteSpace [simp]: "peekDone (skipWhiteSpace l) = peekDone l"
proof (induction l rule: skipWhiteSpace.induct)
  case (1 l)
  obtain ok l' where f: "fill_lines [] (incPtr 1 l) = (ok, l')" by fastforce
  show ?case using 1[OF _ f[symmetric]] f peekDone_fill[OF f] by (auto simp: skipWhiteSpace.simps[of l])
qed

lemma peekDone_skipComment_loop [simp]: "peekDone (skipComment_loop l) = peekDone l"
proof (induction l rule: skipComment_loop.induct)
  case (1 l)
  obtain ok l' where f: "fill_lines [] (incPtr 1 l) = (ok, l')" by fastforce
  show ?case using 1[OF f[symmetric]] f peekDone_fill[OF f] by (auto simp: skipComment_loop.simps[of l])
qed

lemma peekDone_skip_blanks: "skip_blanks l = (ok, l') \<Longrightarrow> peekDone l' = peekDone l"
proof (induction l arbitrary: ok l' rule: skip_blanks.induct)
  case (1 l)
  obtain ok1 l1 where h: "hasMoreInput l = (ok1, l1)" by fastforce
  let ?l2 = "skipComment (skipWhiteSpace l1)"
  have "peekDone l1 = peekDone l" "peekDone ?l2 = peekDone l1"
    using peekDone_fill h by (auto simp: hasMoreInput_def skipComment_def)
  then show ?case
    using 1(2) 1(1)[OF h[symmetric] _ refl, of ok l'] h by (auto simp: skip_blanks.simps[of l] Let_def split: if_splits)
qed

lemma peekDone_scan_while [simp]: "peekDone (scan_while P l) = peekDone l"
proof (induction P l rule: scan_while.induct)
  case (1 P l)
  then show ?case by (cases "\<not> EOB l \<and> P (BC_char l)") (auto simp: scan_while.simps[of P l])
qed

lemma peekDone_lexNumber_loop [simp]: "peekDone (lexNumber_loop saw l) = peekDone l"
proof (induction saw l rule: lexNumber_loop.induct)
  case (1 saw l)
  obtain saw' l' where m: "lex_decimal_mark saw (incPtr 1 (add_text (BC_char l) l)) = (saw', l')" by fastforce
  then have "peekDone l' = peekDone l" by (auto simp: lex_decimal_mark_def split: if_splits)
  then show ?case using 1[OF m[symmetric]] m by (auto simp: lexNumber_loop.simps[of saw l])
qed

lemma peekDone_lexStringChar: "lexStringChar l = Inr l' \<Longrightarrow> peekDone l' = peekDone l"
  by (auto simp: lexStringChar_def lexEscapeChar_def split: if_splits option.splits)

lemma peekDone_lexString_loop: "lexString_loop l = Inr l' \<Longrightarrow> peekDone l' = peekDone l"
proof (induction l arbitrary: l' rule: lexString_loop.induct)
  case (1 l)
  obtain ok l1 where f: "fill_lines [NEWLINE] l = (ok, l1)" by fastforce
  show ?case
  proof (cases "BC_char l \<noteq> QUOTE \<and> ok \<and> BC_char l1 \<noteq> QUOTE")
    case True
    then obtain l2 where l2: "lexStringChar l1 = Inr l2" "lexString_loop l2 = Inr l'"
      using 1(3) f by (auto simp: lexString_loop.simps[of l])
    then show ?thesis using 1(1)[OF _ f[symmetric] _ _ l2] True peekDone_fill[OF f] peekDone_lexStringChar[OF l2(1)] by simp
  next
    case False
    then show ?thesis
      using 1(3) 1(2)[OF _ f[symmetric]] f peekDone_fill[OF f] by (auto simp: lexString_loop.simps[of l] split: if_splits)
  qed
qed

lemma peekDone_lexOperator [simp]: "peekDone (lexOperator l) = peekDone l"
  by (simp add: lexOperator_def split: option.splits)

lemma peekDone_lex_token: "lex_token l = Inr l' \<Longrightarrow> peekDone l' = peekDone l"
  using peekDone_lexString_loop[of "incPtr 1 (set_sym STString_sym NUL [] l)" l']
  by (auto simp: lex_token_def Let_def lexString_def lexSeparator_def lexWord_def lexNumber_def split: if_splits option.splits)

lemma GetSym_peekDone: "GetSym l = Inr l' \<Longrightarrow> \<not> peekDone l'"
proof -
  assume g: "GetSym l = Inr l'"
  obtain ok l1 where b: "skip_blanks l = (ok, l1)" by fastforce
  show ?thesis
    using g b peekDone_skip_blanks[OF b] peekDone_lex_token[of "upd (\<lambda>s. s\<lparr>startBufp := bufp s\<rparr>) l1" l']
    by (auto simp: GetSym_def split: if_splits)
qed

subsection \<open>Errors\<close>

lemma lexString_loop_error: "lexString_loop l = Inl e \<Longrightarrow> \<exists>m. e = AssertFailed m"
proof (induction l rule: lexString_loop.induct)
  case (1 l)
  obtain ok l1 where f: "fill_lines [NEWLINE] l = (ok, l1)" by fastforce
  show ?case
  proof (cases "BC_char l \<noteq> QUOTE \<and> ok \<and> BC_char l1 \<noteq> QUOTE")
    case True
    show ?thesis
    proof (cases "lexStringChar l1")
      case (Inl e')
      then show ?thesis
        using 1(3) f True by (auto simp: lexString_loop.simps[of l] lexStringChar_def lexEscapeChar_def split: if_splits option.splits)
    next
      case (Inr l2)
      then show ?thesis using 1(3) 1(1)[OF _ f[symmetric] _ _ Inr] f True by (simp add: lexString_loop.simps[of l])
    qed
  next
    case False
    then show ?thesis using 1(3) 1(2)[OF _ f[symmetric]] f by (auto simp: lexString_loop.simps[of l] split: if_splits)
  qed
qed

lemma GetSym_error: "GetSym l = Inl e \<Longrightarrow> \<exists>m. e = AssertFailed m"
  by (auto simp: GetSym_def lex_token_def Let_def lexString_def dest: lexString_loop_error split: if_splits option.splits prod.splits)

subsection \<open>Symbols at the current position\<close>

lemma GetSym_token:
  assumes "\<not> peekDone l" "rest_of_line l = c # r" "\<not> isspace c" "c \<noteq> DQUOTE"
  shows "GetSym l = lex_token (upd (\<lambda>s. s\<lparr>startBufp := bufp s\<rparr>) l)"
proof -
  have l: "\<not> EOB l" "BC_char l = c" using rest_Cons[OF assms(2)] by auto
  then have "hasMoreInput l = (True, l)" by (simp add: hasMoreInput_def fill_lines.simps[of "[]" l])
  moreover have "skipComment (skipWhiteSpace l) = l"
    using l assms(3,4) by (simp add: skipWhiteSpace.simps[of l] skipComment_def)
  ultimately have "skip_blanks l = (True, l)" using l assms(3,4) by (simp add: skip_blanks.simps[of l])
  then show ?thesis using assms(1) by (simp add: GetSym_def)
qed

lemma specials: "list_all (\<lambda>c. \<not> isalpha c \<and> \<not> isdigit c) (QUOTE # DQUOTE # BACKSLASH # ''[]()#^.:-~&|*/+=><,@% '')"
  by (simp add: isalpha_def isdigit_def less_eq_char_def)

lemma special_class:
  "c \<in> set (QUOTE # DQUOTE # BACKSLASH # ''[]()#^.:-~&|*/+=><,@% '') \<Longrightarrow> \<not> isalpha c \<and> \<not> isdigit c"
  using specials unfolding list_all_iff by blast

lemma class_ranges:
  "isspace c \<Longrightarrow> \<not> isalpha c \<and> \<not> isdigit c" "isdigit c \<Longrightarrow> \<not> isalpha c"
  by (auto simp: isspace_def isalpha_def isdigit_def less_eq_char_def)

lemma no_special:
  assumes "isalpha c \<or> isdigit c"
  shows "c \<noteq> DQUOTE" "c \<noteq> QUOTE" "map_of single_syms c = None" "c \<noteq> CHR '':''" "c \<noteq> CHR ''-''" "\<not> ISOP c" "c \<noteq> CHR ''.''"
    "\<not> isspace c"
proof -
  have n: "c \<notin> set (QUOTE # DQUOTE # BACKSLASH # ''[]()#^.:-~&|*/+=><,@% '')" using special_class[of c] assms by blast
  show "c \<noteq> DQUOTE" "c \<noteq> QUOTE" "c \<noteq> CHR '':''" "c \<noteq> CHR ''-''" "c \<noteq> CHR ''.''" using n by simp_all
  have "fst ` set single_syms \<subseteq> set (QUOTE # DQUOTE # BACKSLASH # ''[]()#^.:-~&|*/+=><,@% '')"
    by (simp add: single_syms_def)
  then show "map_of single_syms c = None" using n by (auto simp: map_of_eq_None_iff)
  show "\<not> ISOP c" using n by (simp add: ISOP_def)
  show "\<not> isspace c" using class_ranges(1)[of c] assms by blast
qed

lemma char_at_upd [simp]: "char_at k (upd (\<lambda>s. s\<lparr>startBufp := bufp s\<rparr>) l) = char_at k l"
  by (simp add: char_at_rest)

lemma primitive_upd [simp]:
  "nextWordInBufferIsPrimitive (upd (\<lambda>s. s\<lparr>startBufp := bufp s\<rparr>) l) = nextWordInBufferIsPrimitive l"
  by (simp add: nextWordInBufferIsPrimitive_def) (simp add: upd_def)

lemma GetSym_lexWord:
  assumes "\<not> peekDone l" "rest_of_line l = c # r" "isalpha c" "\<not> nextWordInBufferIsPrimitive l"
  shows "GetSym l = Inr (lexWord (upd (\<lambda>s. s\<lparr>startBufp := bufp s\<rparr>) l))"
  using GetSym_token[OF assms(1,2)] no_special[of c] rest_Cons[OF assms(2)] assms(3,4)
  by (simp add: lex_token_def Let_def)

text \<open>The lexer after the first word, and after a colon that follows it.\<close>

definition word_end :: "Lexer \<Rightarrow> Lexer" where
  "word_end l = upd (\<lambda>s. s\<lparr>sym := Identifier_sym\<rparr>) (scan_while is_word_char (upd (\<lambda>s. s\<lparr>ltext := [], symc := NUL\<rparr>) l))"

definition colon_end :: "Lexer \<Rightarrow> Lexer" where
  "colon_end l = add_text (CHR '':'') (incPtr 1 (upd (\<lambda>s. s\<lparr>sym := Keyword_sym\<rparr>) l))"

lemma lexWord_eq:
  "lexWord l = (if BC_char (word_end l) = CHR '':'' then (if isalpha (BC_char (colon_end (word_end l)))
     then scan_while (\<lambda>c. isalpha c \<or> c = CHR '':'') (upd (\<lambda>s. s\<lparr>sym := KeywordSequence_sym\<rparr>) (colon_end (word_end l)))
     else colon_end (word_end l)) else word_end l)"
  by (simp only: lexWord_def word_end_def colon_end_def Let_def)

lemma word_end:
  assumes "rest_of_line l = w @ r" "\<forall>c \<in> set w. is_word_char c" "r = [] \<or> \<not> is_word_char (hd r)"
  shows "text_of (word_end l) = w" "sym_of (word_end l) = Identifier_sym" "rest_of_line (word_end l) = r"
  using scan_while_word[of "upd (\<lambda>s. s\<lparr>ltext := [], symc := NUL\<rparr>) l" w r is_word_char] assms by (simp_all add: word_end_def)

lemma colon_end [simp]:
  "text_of (colon_end l) = text_of l @ '':''" "sym_of (colon_end l) = Keyword_sym" "rest_of_line (colon_end l) = drop 1 (rest_of_line l)"
  by (simp_all add: colon_end_def)

lemma BC_rest: "BC_char l = (case rest_of_line l of [] \<Rightarrow> NUL | c # _ \<Rightarrow> c)"
  by (auto simp: char_at_rest split: list.splits)

lemma colon_no_word [simp]: "\<not> is_word_char (CHR '':'')"
  by (simp add: is_word_char_def isalpha_def isdigit_def less_eq_char_def)

text \<open>A word is read up to the first character that cannot belong to it; after the colon of a keyword only letters
  and colons count.\<close>

lemma word_identifier:
  assumes "rest_of_line l = w @ r" "\<forall>c \<in> set w. is_word_char c" "r = [] \<or> \<not> is_word_char (hd r) \<and> hd r \<noteq> CHR '':''"
  shows "sym_of (lexWord l) = Identifier_sym \<and> text_of (lexWord l) = w \<and> rest_of_line (lexWord l) = r"
proof -
  have r: "r = [] \<or> \<not> is_word_char (hd r)" using assms(3) by blast
  note w = word_end[OF assms(1,2) r]
  have "BC_char (word_end l) \<noteq> CHR '':''" using w(3) assms(3) by (cases r) (auto simp: BC_rest)
  then show ?thesis using w by (simp add: lexWord_eq)
qed

lemma word_keyword:
  assumes "rest_of_line l = w @ CHR '':'' # r" "\<forall>c \<in> set w. is_word_char c" "r = [] \<or> \<not> isalpha (hd r)"
  shows "sym_of (lexWord l) = Keyword_sym \<and> text_of (lexWord l) = w @ '':'' \<and> rest_of_line (lexWord l) = r"
proof -
  have w: "text_of (word_end l) = w" "rest_of_line (word_end l) = CHR '':'' # r"
    using word_end[OF assms(1,2)] by simp_all
  moreover from this have "\<not> isalpha (BC_char (colon_end (word_end l)))" using assms(3) by (cases r) (auto simp: BC_rest)
  ultimately show ?thesis by (simp add: lexWord_eq BC_rest)
qed

lemma word_sequence:
  assumes "rest_of_line l = w @ CHR '':'' # v @ r" "\<forall>c \<in> set w. is_word_char c" "\<forall>c \<in> set v. isalpha c \<or> c = CHR '':''"
    and "v \<noteq> []" "isalpha (hd v)" "r = [] \<or> \<not> (isalpha (hd r) \<or> hd r = CHR '':'')"
  shows "sym_of (lexWord l) = KeywordSequence_sym \<and> text_of (lexWord l) = w @ '':'' @ v \<and> rest_of_line (lexWord l) = r"
proof -
  have w: "text_of (word_end l) = w" "rest_of_line (word_end l) = CHR '':'' # v @ r"
    using word_end[OF assms(1,2)] by simp_all
  moreover from this have "isalpha (BC_char (colon_end (word_end l)))" using assms(4,5) by (cases v) (auto simp: BC_rest)
  ultimately show ?thesis
    using scan_while_word[of "upd (\<lambda>s. s\<lparr>sym := KeywordSequence_sym\<rparr>) (colon_end (word_end l))" v r "\<lambda>c. isalpha c \<or> c = CHR '':''"]
      assms(3,6) by (simp add: lexWord_eq) (simp add: BC_rest)
qed

subsection \<open>Numbers and strings\<close>

lemma lexNumber_digits:
  "rest_of_line l = c # w @ r \<Longrightarrow> \<forall>d \<in> set w. isdigit d \<Longrightarrow> r = [] \<or> \<not> isdigit (hd r) \<and> hd r \<noteq> CHR ''.'' \<Longrightarrow>
    text_of (lexNumber_loop saw l) = text_of l @ c # w \<and> sym_of (lexNumber_loop saw l) = sym_of l
    \<and> rest_of_line (lexNumber_loop saw l) = r"
proof (induction w arbitrary: l c)
  case Nil
  let ?l = "incPtr 1 (add_text c l)"
  have c: "BC_char l = c" using Nil(1) by (simp add: BC_rest)
  have rest: "rest_of_line ?l = r" using Nil(1) by simp
  then have b: "BC_char ?l \<noteq> CHR ''.''" "\<not> isdigit (BC_char ?l)" using Nil(3) by (cases r; auto simp: BC_rest)+
  then have "lex_decimal_mark saw ?l = (saw, ?l)" by (simp add: lex_decimal_mark_def)
  then have "lexNumber_loop saw l = ?l" using b(2) c by (simp add: lexNumber_loop.simps[of saw l])
  then show ?case using rest by simp
next
  case (Cons d w)
  let ?l = "incPtr 1 (add_text c l)"
  have c: "BC_char l = c" using Cons.prems(1) by (simp add: BC_rest)
  have rest: "rest_of_line ?l = d # w @ r" using Cons.prems(1) by simp
  then have b: "BC_char ?l = d" by (simp add: BC_rest)
  have d: "isdigit d" "d \<noteq> CHR ''.''" using Cons.prems(2) no_special(7)[of d] by auto
  then have "lex_decimal_mark saw ?l = (saw, ?l)" using b by (simp add: lex_decimal_mark_def)
  then have "lexNumber_loop saw l = lexNumber_loop saw ?l" using b c d by (simp add: lexNumber_loop.simps[of saw l])
  then show ?case using Cons.IH[OF rest] Cons.prems(2,3) by simp
qed

text \<open>How a character is written in a string literal.\<close>

definition escape :: "char \<Rightarrow> string" where
  "escape c = (case find (\<lambda>(_, d). d = c) escapes of Some (e, _) \<Rightarrow> [BACKSLASH, e] | None \<Rightarrow> [c])"

lemma escape_cases:
  obtains e where "escape c = [BACKSLASH, e]" "map_of escapes e = Some c"
  | "escape c = [c]" "c \<noteq> BACKSLASH" "c \<noteq> QUOTE"
proof (cases "find (\<lambda>(_, d). d = c) escapes")
  case None
  then have "\<forall>p \<in> set escapes. snd p \<noteq> c" by (auto simp: find_None_iff)
  then have "c \<noteq> BACKSLASH" "c \<noteq> QUOTE" by (auto simp: escapes_def)
  then show thesis using that(2) None by (simp add: escape_def)
next
  case (Some p)
  then have "p \<in> set escapes" "snd p = c" by (auto simp: find_Some_iff) (metis nth_mem)
  moreover have "distinct (map fst escapes)" by (simp add: escapes_def)
  ultimately have "map_of escapes (fst p) = Some c" by (metis map_of_is_SomeI prod.collapse)
  then show thesis using that(1)[of "fst p"] Some by (simp add: escape_def split: prod.splits)
qed

lemma lexString_escaped:
  "rest_of_line l = concat (map escape s) @ QUOTE # r \<Longrightarrow>
    \<exists>l'. lexString_loop l = Inr l' \<and> text_of l' = text_of l @ s \<and> sym_of l' = sym_of l \<and> rest_of_line l' = r"
proof (induction s arbitrary: l)
  case Nil
  then have "BC_char l = QUOTE" by (simp add: BC_rest)
  then show ?case using Nil by (simp add: lexString_loop.simps[of l])
next
  case (Cons c s)
  have fill: "fill_lines [NEWLINE] l = (True, l)" if "rest_of_line l \<noteq> []"
    using that rest_Nil[of l] by (simp add: fill_lines.simps[of "[NEWLINE]" l])
  show ?case
  proof (cases rule: escape_cases[of c])
    case (1 e)
    let ?l = "incPtr 1 (add_text c (incPtr 1 l))"
    have l: "rest_of_line l = BACKSLASH # e # concat (map escape s) @ QUOTE # r" using Cons.prems 1(1) by simp
    then have "BC_char l = BACKSLASH" "BC_char (incPtr 1 l) = e" "\<not> EOB (incPtr 1 l)"
      using rest_Nil[of "incPtr 1 l"] by (simp_all add: BC_rest)
    then have "lexString_loop l = lexString_loop ?l"
      using fill l 1(2) by (simp add: lexString_loop.simps[of l] lexStringChar_def lexEscapeChar_def)
    then show ?thesis using Cons.IH[of ?l] l by simp
  next
    case 2
    let ?l = "incPtr 1 (add_text c l)"
    have l: "rest_of_line l = c # concat (map escape s) @ QUOTE # r" using Cons.prems 2(1) by simp
    then have "BC_char l = c" by (simp add: BC_rest)
    then have "lexString_loop l = lexString_loop ?l"
      using fill l 2(2,3) by (simp add: lexString_loop.simps[of l] lexStringChar_def)
    then show ?thesis using Cons.IH[of ?l] l by simp
  qed
qed

subsection \<open>Properties\<close>

text \<open>C30. Every symbol the lexer answers, except the one for the end of the file or an unknown character, takes at
  least one character or line off the input.\<close>

theorem GetSym_consumes:
  assumes "GetSym l = Inr l'" "\<not> peekDone l" "sym_of l' \<noteq> NONE_sym"
  shows "remaining l' < remaining l"
  using GetSym_less[OF assms] .

text \<open>A lexer at the start of a line.\<close>

definition on_line :: "string \<Rightarrow> Lexer" where
  "on_line x = (new_Lexer [])\<lparr>buf := x\<rparr>"

lemma on_line [simp]: "\<not> peekDone (on_line x)" "rest_of_line (on_line x) = x" "remaining (on_line x) = length x"
  by (simp_all add: on_line_def new_Lexer_def rest_of_line_def remaining_def initial_LexerState_def)

lemma on_line_primitive: "nextWordInBufferIsPrimitive (on_line x) =
    (take 9 x = ''primitive'' \<and> (9 \<ge> length x \<or> \<not> (isalpha (x ! 9) \<or> isdigit (x ! 9))))"
  by (auto simp: nextWordInBufferIsPrimitive_def char_at_rest) (simp_all add: on_line_def new_Lexer_def initial_LexerState_def)

lemma sample_word: "\<exists>l'. GetSym (on_line ''a '') = Inr l' \<and> sym_of l' = Identifier_sym"
proof -
  have a: "isalpha (CHR ''a'')" "\<not> is_word_char (CHR '' '')"
    by (simp_all add: is_word_char_def isalpha_def isdigit_def less_eq_char_def)
  then have "GetSym (on_line ''a '') = Inr (lexWord (upd (\<lambda>s. s\<lparr>startBufp := bufp s\<rparr>) (on_line ''a '')))"
    by (intro GetSym_lexWord[of _ "CHR ''a''" "'' ''"]) (simp_all add: on_line_primitive)
  moreover have "sym_of (lexWord (upd (\<lambda>s. s\<lparr>startBufp := bufp s\<rparr>) (on_line ''a ''))) = Identifier_sym"
    using word_identifier[of "upd (\<lambda>s. s\<lparr>startBufp := bufp s\<rparr>) (on_line ''a '')" "''a''" "'' ''"] a by (simp add: is_word_char_def)
  ultimately show ?thesis by blast
qed

theorem GetSym_consumes_witness:
  "\<exists>l'. GetSym (on_line ''a '') = Inr l' \<and> sym_of l' \<noteq> NONE_sym \<and> remaining l' < remaining (on_line ''a '')"
proof -
  obtain l' where l': "GetSym (on_line ''a '') = Inr l'" "sym_of l' = Identifier_sym" using sample_word by blast
  then show ?thesis using GetSym_consumes[OF l'(1)] by simp
qed

text \<open>The symbols of a file up to the end or the first unknown character.\<close>

fun symbols :: "nat \<Rightarrow> Lexer \<Rightarrow> (Symbol \<times> string) list res" where
  "symbols 0 l = Inl (Undefined ''more symbols'')"
| "symbols (Suc n) l =
     res_bind (GetSym l) (\<lambda>l'.
       if sym_of l' = NONE_sym then Inr [] else res_bind (symbols n l') (\<lambda>ts. Inr ((sym_of l', text_of l') # ts)))"

lemma symbols_end:
  "\<not> peekDone l \<Longrightarrow> remaining l < n \<Longrightarrow>
    (\<exists>ts. symbols n l = Inr ts \<and> length ts \<le> remaining l) \<or> (\<exists>m. symbols n l = Inl (AssertFailed m))"
proof (induction n arbitrary: l)
  case (Suc n)
  show ?case
  proof (cases "GetSym l")
    case (Inl e)
    then show ?thesis using GetSym_error[OF Inl] by auto
  next
    case (Inr l')
    show ?thesis
    proof (cases "sym_of l' = NONE_sym")
      case False
      have "remaining l' < remaining l" using GetSym_less[OF Inr Suc.prems(1) False] .
      with Suc.IH[of l'] GetSym_peekDone[OF Inr] Suc.prems(2) Inr False show ?thesis by fastforce
    qed (simp add: Inr)
  qed
qed simp

text \<open>C18. Lexing a whole input ends: after at most as many symbols as there are characters and lines left, the end or
  an unknown character is reached, unless an escape character fails its assertion.\<close>

theorem lexing_ends:
  assumes "\<not> peekDone l"
  shows "(\<exists>ts. symbols (Suc (remaining l)) l = Inr ts \<and> length ts \<le> remaining l)
    \<or> (\<exists>m. symbols (Suc (remaining l)) l = Inl (AssertFailed m))"
  using symbols_end[OF assms] by blast

theorem lexing_ends_witness:
  "(\<exists>ts. symbols (Suc (remaining (on_line ''a''))) (on_line ''a'') = Inr ts \<and> length ts \<le> 1)
    \<or> (\<exists>m. symbols (Suc (remaining (on_line ''a''))) (on_line ''a'') = Inl (AssertFailed m))"
  using lexing_ends[of "on_line ''a''"] by simp

text \<open>C21. A symbol that has been peeked at is the next one read, and reading it leaves the lexer as if it had been read
  at once; a second peek is an error.\<close>

theorem Peek_then_GetSym:
  assumes "\<not> peekDone l" "GetSym l = Inr l'"
  shows "\<exists>l1. Peek l = Inr (sym_of l', l1) \<and> lstate l1 = lstate l \<and> GetSym l1 = Inr (l'\<lparr>stateAfterPeek := lstate l'\<rparr>)
    \<and> Peek l1 = Inl (ErrorExit ''Cannot Peek twice!'')"
  using assms GetSym_peekDone[OF assms(2)] by (cases l') (auto simp: Peek_def GetSym_def)

theorem Peek_then_GetSym_witness:
  "\<exists>l1 l2. Peek (on_line ''a '') = Inr (Identifier_sym, l1) \<and> GetSym l1 = Inr l2 \<and> sym_of l2 = Identifier_sym"
proof -
  obtain l' where l': "GetSym (on_line ''a '') = Inr l'" "sym_of l' = Identifier_sym" using sample_word by blast
  then show ?thesis using Peek_then_GetSym[OF _ l'(1)] by fastforce
qed





text \<open>C40. A sequence of keywords such as \<open>at:put2:\<close> is cut at the first digit or underscore after the first colon, although
  a single keyword may have them.\<close>

theorem keyword_sequence_cut:
  assumes "\<not> peekDone l" "rest_of_line l = w @ CHR '':'' # v @ d # r" "w \<noteq> []" "isalpha (hd w)" "\<forall>c \<in> set w. is_word_char c"
    and "\<not> nextWordInBufferIsPrimitive l" "v \<noteq> []" "\<forall>c \<in> set v. isalpha c" "isdigit d \<or> d = CHR ''_''"
  shows "\<exists>l'. GetSym l = Inr l' \<and> sym_of l' = KeywordSequence_sym \<and> text_of l' = w @ '':'' @ v \<and> rest_of_line l' = d # r"
proof -
  let ?l = "upd (\<lambda>s. s\<lparr>startBufp := bufp s\<rparr>) l"
  obtain c cs where w: "w = c # cs" using assms(3) by (cases w) auto
  have "\<not> (isalpha d \<or> d = CHR '':'')"
    using assms(9) no_special(4)[of d] class_ranges(2)[of d] by (auto simp: isalpha_def less_eq_char_def)
  then have "sym_of (lexWord ?l) = KeywordSequence_sym \<and> text_of (lexWord ?l) = w @ '':'' @ v \<and> rest_of_line (lexWord ?l) = d # r"
    using word_sequence[of ?l w v "d # r"] assms(2,5,7,8) by (cases v) auto
  moreover have "GetSym l = Inr (lexWord ?l)"
    using GetSym_lexWord[of l c "cs @ CHR '':'' # v @ d # r"] assms(1,2,4,6) w by simp
  ultimately show ?thesis by blast
qed

theorem keyword_sequence_cut_witness:
  "\<exists>l'. GetSym (on_line ''at:put2:'') = Inr l' \<and> sym_of l' = KeywordSequence_sym \<and> text_of l' = ''at:put'' \<and> rest_of_line l' = ''2:''"
  using keyword_sequence_cut[of "on_line ''at:put2:''" "''at''" "''put''" "CHR ''2''" "'':''"]
  by (simp add: on_line_primitive is_word_char_def isalpha_def isdigit_def less_eq_char_def)

end
