(* ===== verification/IntPrims.thy ===== *)
theory IntPrims
  imports Vectors InfInt_Text Lexer
begin

text \<open>
  Integers of the virtual machine: the boxed big integers (\<open>src/vmobjects/VMBigInteger\<close>), reading an integer
  (\<open>src/misc/ParseInteger\<close>) and the primitives of class \<open>Integer\<close> (\<open>src/primitives/Integer\<close>). Small integers are
  tagged, all others are objects that hold an \<open>InfInt\<close>. The constructor of a big integer asserts that its value
  does not fit a tagged integer, and assertions are checked. The theorems say for which operands the arithmetic
  and the comparisons are those of the mathematical integers.
\<close>

unbundle bit_operations_syntax

subsection \<open>Doubles and conversions\<close>

text \<open>The arithmetic of doubles is a parameter. The conversion to \<open>int64_t\<close> is \<open>None\<close> where C++ leaves it undefined.\<close>

record dblops =
  d_of_int :: "int \<Rightarrow> u64"
  d_to_int64 :: "u64 \<Rightarrow> int option"
  d_add :: "u64 \<Rightarrow> u64 \<Rightarrow> u64"
  d_sub :: "u64 \<Rightarrow> u64 \<Rightarrow> u64"
  d_mul :: "u64 \<Rightarrow> u64 \<Rightarrow> u64"
  d_div :: "u64 \<Rightarrow> u64 \<Rightarrow> u64"
  d_fmod :: "u64 \<Rightarrow> u64 \<Rightarrow> u64"
  d_neg :: "u64 \<Rightarrow> u64"
  d_sqrt :: "u64 \<Rightarrow> u64"
  d_rint :: "u64 \<Rightarrow> u64"
  d_eq :: "u64 \<Rightarrow> u64 \<Rightarrow> bool"
  d_lt :: "u64 \<Rightarrow> u64 \<Rightarrow> bool"
  d_le :: "u64 \<Rightarrow> u64 \<Rightarrow> bool"
  d_gt :: "u64 \<Rightarrow> u64 \<Rightarrow> bool"
  d_ge :: "u64 \<Rightarrow> u64 \<Rightarrow> bool"

fun toDouble_loop :: "dblops \<Rightarrow> int list \<Rightarrow> u64 \<Rightarrow> u64" where
  "toDouble_loop d [] result = result"
| "toDouble_loop d (v # vs) result =
     toDouble_loop d vs (d_add d (d_mul d result (d_of_int d BASE)) (d_of_int d v))"

definition toDouble :: "dblops \<Rightarrow> InfInt \<Rightarrow> u64" where
  "toDouble d x =
     (let result = toDouble_loop d (rev (val x)) (d_of_int d 0) in if pos x then result else d_neg d result)"

text \<open>The accumulation in a 32-bit integer wraps around, which is what truncation relies on.\<close>

fun truncateToInt_loop :: "int list \<Rightarrow> 32 word \<Rightarrow> 32 word" where
  "truncateToInt_loop [] result = result"
| "truncateToInt_loop (v # vs) result = truncateToInt_loop vs (result * word_of_int BASE + word_of_int v)"

definition truncateToInt :: "InfInt \<Rightarrow> int" where
  "truncateToInt x =
     (let result = truncateToInt_loop (rev (val x)) 0 in sint (if pos x then result else - result))"

definition NewDouble :: "u64 \<Rightarrow> vmstate \<Rightarrow> (oop \<times> vmstate) res" where
  "NewDouble value s = (case allocate (VMDbl value) s of (a, s1) \<Rightarrow> Inr (Ptr a, s1))"

definition NewStringObj :: "string \<Rightarrow> vmstate \<Rightarrow> (oop \<times> vmstate) res" where
  "NewStringObj str s = (case allocate (VMStr str) s of (a, s1) \<Rightarrow> Inr (Ptr a, s1))"

text \<open>What the tests \<open>IS_SMALL_INT\<close>, \<open>IS_BIG_INT\<close> and \<open>IS_DOUBLE\<close> tell of an object, with its value.\<close>

datatype number = SmallNum int | BigNum InfInt | DoubleNum u64 | NoNumber

fun number_of :: "vmstate \<Rightarrow> oop \<Rightarrow> number res" where
  "number_of s (SmallInt i) = Inr (SmallNum i)"
| "number_of s (Ptr a) =
     res_bind (heap_at s a) (\<lambda>ob.
       case ob of VMBig b \<Rightarrow> Inr (BigNum b) | VMDbl x \<Rightarrow> Inr (DoubleNum x) | _ \<Rightarrow> Inr NoNumber)"

text \<open>Most primitives look at both operands first.\<close>

definition with_numbers :: "vmstate \<Rightarrow> oop \<Rightarrow> oop \<Rightarrow> (number \<Rightarrow> number \<Rightarrow> 'a res) \<Rightarrow> 'a res" where
  "with_numbers s leftObj rightObj f =
     res_bind (number_of s leftObj) (\<lambda>l. res_bind (number_of s rightObj) (\<lambda>r. f l r))"

definition bool_obj :: "bool \<Rightarrow> oop" where
  "bool_obj b = (if b then trueObject else falseObject)"

subsection \<open>Big integers\<close>

definition new_VMBigInteger :: "InfInt \<Rightarrow> vmstate \<Rightarrow> (oop \<times> vmstate) res" where
  "new_VMBigInteger value s =
     (if isWithinSmallIntRange value then Inl (AssertFailed ''!embeddedInteger.isWithinSmallIntRange()'')
      else case allocate (VMBig value) s of (a, s1) \<Rightarrow> Inr (Ptr a, s1))"

definition NewInt :: "InfInt \<Rightarrow> vmstate \<Rightarrow> (oop \<times> vmstate) res" where
  "NewInt value s =
     (if isWithinSmallIntRange value then res_bind (toInt64 value) (\<lambda>(_, i). NEW_INT i s)
      else new_VMBigInteger value s)"

definition NewBigIntegerFromStr :: "string \<Rightarrow> bool \<Rightarrow> vmstate \<Rightarrow> (oop \<times> vmstate) res" where
  "NewBigIntegerFromStr str negateValue s =
     res_bind (fromString str) (\<lambda>x. new_VMBigInteger (if negateValue then InfInt_neg x else x) s)"

text \<open>What \<open>Add\<close>, \<open>Subtract\<close>, \<open>Multiply\<close>, \<open>DivideBy\<close> and \<open>Modulo\<close> have in common: an operation on big integers, an operation
  on doubles, and an operand of any kind.\<close>

definition big_arith :: "dblops \<Rightarrow> (InfInt \<Rightarrow> InfInt \<Rightarrow> InfInt res) \<Rightarrow> (u64 \<Rightarrow> u64 \<Rightarrow> u64) \<Rightarrow>
    InfInt \<Rightarrow> number \<Rightarrow> vmstate \<Rightarrow> (oop \<times> vmstate) res" where
  "big_arith d iop dop embeddedInteger value s =
     (case value of
        SmallNum i \<Rightarrow> res_bind (InfInt_of_int64 i) (\<lambda>r.
          res_bind (iop embeddedInteger r) (\<lambda>x. new_VMBigInteger x s))
      | DoubleNum right \<Rightarrow> NewDouble (dop (toDouble d embeddedInteger) right) s
      | BigNum b \<Rightarrow> res_bind (iop embeddedInteger b) (\<lambda>x. new_VMBigInteger x s)
      | NoNumber \<Rightarrow> Inl (AssertFailed ''IS_BIG_INT(value)''))"

text \<open>The operations whose other operand is a machine integer on the left.\<close>

definition int_big_arith :: "(InfInt \<Rightarrow> InfInt \<Rightarrow> InfInt res) \<Rightarrow> int \<Rightarrow> InfInt \<Rightarrow> vmstate \<Rightarrow> (oop \<times> vmstate) res" where
  "int_big_arith iop value embeddedInteger s =
     res_bind (InfInt_of_int64 value) (\<lambda>l. res_bind (iop l embeddedInteger) (\<lambda>x. new_VMBigInteger x s))"

definition Add_int :: "InfInt \<Rightarrow> int \<Rightarrow> vmstate \<Rightarrow> (oop \<times> vmstate) res" where
  "Add_int b value s =
     res_bind (InfInt_of_int64 value) (\<lambda>r. res_bind (InfInt_add b r) (\<lambda>x. new_VMBigInteger x s))"

definition big_Add :: "dblops \<Rightarrow> InfInt \<Rightarrow> number \<Rightarrow> vmstate \<Rightarrow> (oop \<times> vmstate) res" where
  "big_Add d = big_arith d InfInt_add (d_add d)"

definition SubtractFrom :: "InfInt \<Rightarrow> int \<Rightarrow> vmstate \<Rightarrow> (oop \<times> vmstate) res" where
  "SubtractFrom b value s = int_big_arith InfInt_sub value b s"

definition big_Subtract :: "dblops \<Rightarrow> InfInt \<Rightarrow> number \<Rightarrow> vmstate \<Rightarrow> (oop \<times> vmstate) res" where
  "big_Subtract d = big_arith d InfInt_sub (d_sub d)"

definition Multiply_int :: "InfInt \<Rightarrow> int \<Rightarrow> vmstate \<Rightarrow> (oop \<times> vmstate) res" where
  "Multiply_int b value s =
     res_bind (InfInt_of_int64 value) (\<lambda>r. res_bind (InfInt_mult b r) (\<lambda>x. new_VMBigInteger x s))"

definition big_Multiply :: "dblops \<Rightarrow> InfInt \<Rightarrow> number \<Rightarrow> vmstate \<Rightarrow> (oop \<times> vmstate) res" where
  "big_Multiply d = big_arith d InfInt_mult (d_mul d)"

definition DivisionFrom :: "InfInt \<Rightarrow> int \<Rightarrow> vmstate \<Rightarrow> (oop \<times> vmstate) res" where
  "DivisionFrom b value s = int_big_arith InfInt_div value b s"

definition DivideBy :: "dblops \<Rightarrow> InfInt \<Rightarrow> number \<Rightarrow> vmstate \<Rightarrow> (oop \<times> vmstate) res" where
  "DivideBy d = big_arith d InfInt_div (d_div d)"

definition ModuloFrom :: "InfInt \<Rightarrow> int \<Rightarrow> vmstate \<Rightarrow> (oop \<times> vmstate) res" where
  "ModuloFrom b value s = int_big_arith InfInt_mod value b s"

definition Modulo :: "dblops \<Rightarrow> InfInt \<Rightarrow> number \<Rightarrow> vmstate \<Rightarrow> (oop \<times> vmstate) res" where
  "Modulo d = big_arith d InfInt_mod (d_fmod d)"

definition Negate :: "oop \<Rightarrow> InfInt \<Rightarrow> vmstate \<Rightarrow> (oop \<times> vmstate) res" where
  "Negate this b s = (if InfInt_lt b InfInt_zero then new_VMBigInteger (InfInt_neg b) s else Inr (this, s))"

definition IsEqual :: "InfInt \<Rightarrow> InfInt \<Rightarrow> bool" where
  "IsEqual b other = InfInt_eq b other"

subsection \<open>Reading an integer\<close>

text \<open>\<open>strtoll\<close> in base 10: blanks, a sign, digits. The answer is \<open>None\<close> when there is no digit, and otherwise the number,
  of which the range error of \<open>strtoll\<close> is that it does not fit \<open>int64_t\<close>.\<close>

definition digits_val :: "string \<Rightarrow> int" where
  "digits_val cs = foldl (\<lambda>n c. 10 * n + (of_char c - 48)) 0 cs"

definition strtoll :: "string \<Rightarrow> int option" where
  "strtoll str =
     (let cs = dropWhile isspace str;
          neg = (cs \<noteq> [] \<and> hd cs = CHR ''-'');
          cs1 = (if cs \<noteq> [] \<and> hd cs \<in> {CHR ''-'', CHR ''+''} then tl cs else cs);
          ds = takeWhile isdigit cs1
      in if ds = [] then None else Some (if neg then - digits_val ds else digits_val ds))"

definition ParseInteger :: "string \<Rightarrow> bool \<Rightarrow> vmstate \<Rightarrow> (oop \<times> vmstate) res" where
  "ParseInteger str negateValue s =
     (case strtoll str of
        None \<Rightarrow> NEW_INT 0 s
      | Some i \<Rightarrow>
          if i < INT64_MIN \<or> INT64_MAX < i then NewBigIntegerFromStr str negateValue s
          else if negateValue then
            (if i = INT64_MIN then Inl (Undefined ''signed overflow'') else NEW_INT (- i) s)
          else NEW_INT i s)"

subsection \<open>Arithmetic primitives\<close>

text \<open>Two small integers: the overflow check of the compiler's builtins, and the exact operation on overflow.\<close>

definition small_arith :: "(int \<Rightarrow> int \<Rightarrow> int) \<Rightarrow> (InfInt \<Rightarrow> InfInt \<Rightarrow> InfInt res) \<Rightarrow> int \<Rightarrow> int \<Rightarrow> vmstate \<Rightarrow>
    (oop \<times> vmstate) res" where
  "small_arith f iop left right s =
     (let result = f left right in
      if result < INT64_MIN \<or> INT64_MAX < result then
        res_bind (InfInt_of_int64 left) (\<lambda>l. res_bind (InfInt_of_int64 right) (\<lambda>r.
          res_bind (iop l r) (\<lambda>x. NewInt x s)))
      else NEW_INT result s)"

definition intPlus :: "dblops \<Rightarrow> oop \<Rightarrow> oop \<Rightarrow> vmstate \<Rightarrow> (oop \<times> vmstate) res" where
  "intPlus d leftObj rightObj s =
     with_numbers s leftObj rightObj (\<lambda>l r.
       case l of
         SmallNum left \<Rightarrow>
           (case r of
              SmallNum right \<Rightarrow> small_arith (+) InfInt_add left right s
            | DoubleNum right \<Rightarrow> NewDouble (d_add d (d_of_int d left) right) s
            | BigNum b \<Rightarrow> Add_int b left s
            | NoNumber \<Rightarrow> Inl (AssertFailed ''IS_BIG_INT(rightObj)''))
       | BigNum b \<Rightarrow> big_Add d b r s
       | _ \<Rightarrow> Inl (AssertFailed ''The receiver should always be an int''))"

definition intBitwiseXor :: "oop \<Rightarrow> oop \<Rightarrow> vmstate \<Rightarrow> (oop \<times> vmstate) res" where
  "intBitwiseXor leftObj rightObj s =
     (case (leftObj, rightObj) of
        (SmallInt left, SmallInt right) \<Rightarrow> NEW_INT (left XOR right) s
      | _ \<Rightarrow> Inl (ErrorExit ''#xor: not supported on non-small-int arguments''))"

definition clzll :: "64 word \<Rightarrow> nat" where
  "clzll w = length (takeWhile (\<lambda>i. \<not> bit w i) (rev [0..<64]))"

text \<open>The builtin is undefined for 0, and so is a shift by a negative distance.\<close>

definition intLeftShift :: "oop \<Rightarrow> oop \<Rightarrow> vmstate \<Rightarrow> (oop \<times> vmstate) res" where
  "intLeftShift leftObj rightObj s =
     (case (leftObj, rightObj) of
        (SmallInt left, SmallInt right) \<Rightarrow>
          if left = 0 then Inl (Undefined ''__builtin_clzll(0)'')
          else if 64 - int (clzll (word_of_int left)) + right > 63 then
            res_bind (InfInt_of_int64 left) (\<lambda>l. res_bind (InfInt_shl l right) (\<lambda>x. NewInt x s))
          else if right < 0 then Inl (Undefined ''negative shift'')
          else NEW_INT (sint (push_bit (nat right) (word_of_int left :: 64 word))) s
      | _ \<Rightarrow> Inl (ErrorExit ''#<< not supported on non-small-int arguments''))"

definition intUnsignedRightShift :: "oop \<Rightarrow> oop \<Rightarrow> vmstate \<Rightarrow> (oop \<times> vmstate) res" where
  "intUnsignedRightShift leftObj rightObj s =
     (case (leftObj, rightObj) of
        (SmallInt left, SmallInt right) \<Rightarrow>
          if right < 0 \<or> right \<ge> 64 then Inl (Undefined ''shift distance'')
          else NEW_INT (sint (drop_bit (nat right) (word_of_int left :: 64 word))) s
      | _ \<Rightarrow> Inl (ErrorExit ''#<< not supported on non-small-int arguments''))"

definition intMinus :: "dblops \<Rightarrow> oop \<Rightarrow> oop \<Rightarrow> vmstate \<Rightarrow> (oop \<times> vmstate) res" where
  "intMinus d leftObj rightObj s =
     with_numbers s leftObj rightObj (\<lambda>l r.
       case l of
         SmallNum left \<Rightarrow>
           (case r of
              SmallNum right \<Rightarrow> small_arith (-) InfInt_sub left right s
            | DoubleNum right \<Rightarrow> NewDouble (d_sub d (d_of_int d left) right) s
            | BigNum b \<Rightarrow> SubtractFrom b left s
            | NoNumber \<Rightarrow> Inl (AssertFailed ''IS_BIG_INT(rightObj)''))
       | BigNum b \<Rightarrow> big_Subtract d b r s
       | _ \<Rightarrow> Inl (AssertFailed ''The receiver should always be an int''))"

definition intStar :: "dblops \<Rightarrow> oop \<Rightarrow> oop \<Rightarrow> vmstate \<Rightarrow> (oop \<times> vmstate) res" where
  "intStar d leftObj rightObj s =
     with_numbers s leftObj rightObj (\<lambda>l r.
       case l of
         SmallNum left \<Rightarrow>
           (case r of
              SmallNum right \<Rightarrow> small_arith (*) InfInt_mult left right s
            | DoubleNum right \<Rightarrow> NewDouble (d_mul d (d_of_int d left) right) s
            | BigNum b \<Rightarrow> Multiply_int b left s
            | NoNumber \<Rightarrow> Inl (AssertFailed ''IS_BIG_INT(rightObj)''))
       | BigNum b \<Rightarrow> big_Multiply d b r s
       | _ \<Rightarrow> Inl (AssertFailed ''The receiver should always be an int''))"

text \<open>The last branch tests and converts the left operand again instead of the right one.\<close>

definition intSlashslash :: "dblops \<Rightarrow> oop \<Rightarrow> oop \<Rightarrow> vmstate \<Rightarrow> (oop \<times> vmstate) res" where
  "intSlashslash d leftObj rightObj s =
     with_numbers s leftObj rightObj (\<lambda>l r.
       res_bind (case l of SmallNum i \<Rightarrow> Inr (d_of_int d i) | BigNum b \<Rightarrow> Inr (toDouble d b)
                 | _ \<Rightarrow> Inl (AssertFailed ''IS_BIG_INT(leftObj)'')) (\<lambda>left.
       res_bind (case r of SmallNum i \<Rightarrow> Inr (d_of_int d i) | DoubleNum x \<Rightarrow> Inr x
                 | _ \<Rightarrow> (case l of BigNum b \<Rightarrow> Inr (toDouble d b) | _ \<Rightarrow> Inl (AssertFailed ''IS_BIG_INT(leftObj)''))) (\<lambda>right.
         NewDouble (d_div d left right) s)))"

text \<open>Division of machine integers by 0 is undefined.\<close>

definition intSlash :: "dblops \<Rightarrow> oop \<Rightarrow> oop \<Rightarrow> vmstate \<Rightarrow> (oop \<times> vmstate) res" where
  "intSlash d leftObj rightObj s =
     with_numbers s leftObj rightObj (\<lambda>l r.
       case l of
         SmallNum left \<Rightarrow>
           (case r of
              SmallNum right \<Rightarrow>
                if right = 0 then Inl (Undefined ''division by zero'') else NEW_INT (left sdiv right) s
            | DoubleNum right \<Rightarrow>
                (case d_to_int64 d (d_div d (d_of_int d left) right) of
                   Some result \<Rightarrow> NEW_INT result s
                 | None \<Rightarrow> Inl (Undefined ''conversion of a double''))
            | BigNum b \<Rightarrow> DivisionFrom b left s
            | NoNumber \<Rightarrow> Inl (AssertFailed ''IS_BIG_INT(rightObj)''))
       | BigNum b \<Rightarrow> DivideBy d b r s
       | _ \<Rightarrow> Inl (AssertFailed ''IS_BIG_INT(leftObj)''))"

text \<open>The remainder of C++ and the correction of its sign. The least \<open>int64_t\<close> by -1 overflows, but a tagged dividend
  is never that number.\<close>

definition small_percent :: "int \<Rightarrow> int \<Rightarrow> vmstate \<Rightarrow> (oop \<times> vmstate) res" where
  "small_percent left right s =
     (if right = 0 then Inl (Undefined ''division by zero'')
      else let result = left smod right in
           NEW_INT (if result \<noteq> 0 \<and> (result < 0) \<noteq> (right < 0) then result + right else result) s)"

definition intPercent :: "dblops \<Rightarrow> oop \<Rightarrow> oop \<Rightarrow> vmstate \<Rightarrow> (oop \<times> vmstate) res" where
  "intPercent d leftObj rightObj s =
     with_numbers s leftObj rightObj (\<lambda>l r.
       case l of
         SmallNum left \<Rightarrow>
           (case r of
              SmallNum right \<Rightarrow> small_percent left right s
            | DoubleNum x \<Rightarrow>
                (case d_to_int64 d x of
                   Some right \<Rightarrow> small_percent left right s
                 | None \<Rightarrow> Inl (Undefined ''conversion of a double''))
            | BigNum b \<Rightarrow> ModuloFrom b left s
            | NoNumber \<Rightarrow> Inl (AssertFailed ''IS_BIG_INT(rightObj)''))
       | BigNum b \<Rightarrow> Modulo d b r s
       | _ \<Rightarrow> Inl (AssertFailed ''IS_BIG_INT(leftObj)''))"

definition intRem :: "oop \<Rightarrow> oop \<Rightarrow> vmstate \<Rightarrow> (oop \<times> vmstate) res" where
  "intRem leftObj rightObj s =
     (case leftObj of
        SmallInt left \<Rightarrow>
          (case rightObj of
             SmallInt right \<Rightarrow>
               if right = 0 then Inl (Undefined ''division by zero'')
               else NEW_INT (left - (left sdiv right) * right) s
           | _ \<Rightarrow> Inl (ErrorExit ''not yet implemented #rem: small-int and something else''))
      | _ \<Rightarrow> Inl (ErrorExit ''not yet implemented #rem: big int and something else''))"

definition intAnd :: "oop \<Rightarrow> oop \<Rightarrow> vmstate \<Rightarrow> (oop \<times> vmstate) res" where
  "intAnd leftObj rightObj s =
     with_numbers s leftObj rightObj (\<lambda>l r.
       case (l, r) of
         (SmallNum left, SmallNum right) \<Rightarrow> NEW_INT (left AND right) s
       | (BigNum left, SmallNum right) \<Rightarrow> NEW_INT (truncateToInt64 left AND right) s
       | _ \<Rightarrow> Inl (ErrorExit ''#& not supported on non-small-int arguments''))"

subsection \<open>Comparison primitives\<close>

definition intEqual :: "dblops \<Rightarrow> oop \<Rightarrow> oop \<Rightarrow> vmstate \<Rightarrow> (oop \<times> vmstate) res" where
  "intEqual d leftObj rightObj s =
     with_numbers s leftObj rightObj (\<lambda>l r.
       case l of
         SmallNum left \<Rightarrow>
           Inr (bool_obj (case r of SmallNum right \<Rightarrow> left = right
                          | DoubleNum right \<Rightarrow> d_eq d (d_of_int d left) right
                          | _ \<Rightarrow> False), s)
       | BigNum left \<Rightarrow> Inr (bool_obj (case r of BigNum right \<Rightarrow> IsEqual left right | _ \<Rightarrow> False), s)
       | _ \<Rightarrow> Inl (AssertFailed ''IS_BIG_INT(leftObj)''))"

definition intEqualEqual :: "oop \<Rightarrow> oop \<Rightarrow> vmstate \<Rightarrow> (oop \<times> vmstate) res" where
  "intEqualEqual leftObj rightObj s =
     with_numbers s leftObj rightObj (\<lambda>l r.
       case l of
         SmallNum left \<Rightarrow> Inr (bool_obj (case r of SmallNum right \<Rightarrow> left = right | _ \<Rightarrow> False), s)
       | BigNum left \<Rightarrow> Inr (bool_obj (case r of BigNum right \<Rightarrow> IsEqual left right | _ \<Rightarrow> False), s)
       | _ \<Rightarrow> Inl (AssertFailed ''IS_BIG_INT(leftObj)''))"

text \<open>The shape of the four comparisons: the test of two machine integers, that of two doubles, the test that the
  code makes of a big right operand against a small left one (in this order), and the test of two big integers.\<close>

definition int_compare :: "dblops \<Rightarrow> (int \<Rightarrow> int \<Rightarrow> bool) \<Rightarrow> (u64 \<Rightarrow> u64 \<Rightarrow> bool) \<Rightarrow> (InfInt \<Rightarrow> InfInt \<Rightarrow> bool) \<Rightarrow>
    (InfInt \<Rightarrow> InfInt \<Rightarrow> bool) \<Rightarrow> oop \<Rightarrow> oop \<Rightarrow> vmstate \<Rightarrow> bool res" where
  "int_compare d small dbl big_right big leftObj rightObj s =
     with_numbers s leftObj rightObj (\<lambda>l r.
       case l of
         SmallNum left \<Rightarrow>
           (case r of
              SmallNum right \<Rightarrow> Inr (small left right)
            | DoubleNum right \<Rightarrow> Inr (dbl (d_of_int d left) right)
            | BigNum right \<Rightarrow> res_bind (InfInt_of_int64 left) (\<lambda>x. Inr (big_right right x))
            | NoNumber \<Rightarrow> Inl (AssertFailed ''IS_BIG_INT(rightObj)''))
       | BigNum left \<Rightarrow>
           (case r of
              SmallNum right \<Rightarrow> res_bind (InfInt_of_int64 right) (\<lambda>x. Inr (big left x))
            | DoubleNum right \<Rightarrow> Inl (ErrorExit ''#< on big int not supported with double'')
            | BigNum right \<Rightarrow> Inr (big left right)
            | NoNumber \<Rightarrow> Inl (AssertFailed ''IS_BIG_INT(rightObj)''))
       | _ \<Rightarrow> Inl (AssertFailed ''IS_BIG_INT(leftObj)''))"

definition answer_bool :: "bool res \<Rightarrow> vmstate \<Rightarrow> (oop \<times> vmstate) res" where
  "answer_bool b s = res_bind b (\<lambda>x. Inr (bool_obj x, s))"

definition lowerThan :: "dblops \<Rightarrow> oop \<Rightarrow> oop \<Rightarrow> vmstate \<Rightarrow> bool res" where
  "lowerThan d = int_compare d (<) (d_lt d) InfInt_ge InfInt_lt"

definition intLowerthan :: "dblops \<Rightarrow> oop \<Rightarrow> oop \<Rightarrow> vmstate \<Rightarrow> (oop \<times> vmstate) res" where
  "intLowerthan d leftObj rightObj s = answer_bool (lowerThan d leftObj rightObj s) s"

definition intLowerThanEqual :: "dblops \<Rightarrow> oop \<Rightarrow> oop \<Rightarrow> vmstate \<Rightarrow> (oop \<times> vmstate) res" where
  "intLowerThanEqual d leftObj rightObj s =
     answer_bool (int_compare d (\<le>) (d_le d) InfInt_gt InfInt_le leftObj rightObj s) s"

definition intGreaterThan :: "dblops \<Rightarrow> oop \<Rightarrow> oop \<Rightarrow> vmstate \<Rightarrow> (oop \<times> vmstate) res" where
  "intGreaterThan d leftObj rightObj s =
     answer_bool (int_compare d (>) (d_gt d) InfInt_lt InfInt_gt leftObj rightObj s) s"

definition intGreaterThanEqual :: "dblops \<Rightarrow> oop \<Rightarrow> oop \<Rightarrow> vmstate \<Rightarrow> (oop \<times> vmstate) res" where
  "intGreaterThanEqual d leftObj rightObj s =
     answer_bool (int_compare d (\<ge>) (d_ge d) InfInt_lt InfInt_ge leftObj rightObj s) s"

definition intMin :: "dblops \<Rightarrow> oop \<Rightarrow> oop \<Rightarrow> vmstate \<Rightarrow> (oop \<times> vmstate) res" where
  "intMin d self arg s = res_bind (lowerThan d self arg s) (\<lambda>b. Inr (if b then self else arg, s))"

definition intMax :: "dblops \<Rightarrow> oop \<Rightarrow> oop \<Rightarrow> vmstate \<Rightarrow> (oop \<times> vmstate) res" where
  "intMax d self arg s = res_bind (lowerThan d self arg s) (\<lambda>b. Inr (if b then arg else self, s))"

text \<open>Unlike the others, it accepts an operand that is no number.\<close>

definition intUnequal :: "dblops \<Rightarrow> oop \<Rightarrow> oop \<Rightarrow> vmstate \<Rightarrow> (oop \<times> vmstate) res" where
  "intUnequal d leftObj rightObj s =
     with_numbers s leftObj rightObj (\<lambda>l r.
       case l of
         SmallNum left \<Rightarrow>
           (case r of
              SmallNum right \<Rightarrow> Inr (bool_obj (left \<noteq> right), s)
            | DoubleNum right \<Rightarrow> Inr (bool_obj (\<not> d_eq d (d_of_int d left) right), s)
            | BigNum right \<Rightarrow> res_bind (InfInt_of_int64 left) (\<lambda>x. Inr (bool_obj (InfInt_neq right x), s))
            | NoNumber \<Rightarrow> Inr (trueObject, s))
       | BigNum left \<Rightarrow>
           (case r of
              SmallNum right \<Rightarrow> res_bind (InfInt_of_int64 right) (\<lambda>x. Inr (bool_obj (InfInt_neq left x), s))
            | DoubleNum right \<Rightarrow> Inl (ErrorExit ''#< on big int not supported with double'')
            | BigNum right \<Rightarrow> Inr (bool_obj (InfInt_neq left right), s)
            | NoNumber \<Rightarrow> Inr (trueObject, s))
       | _ \<Rightarrow> Inl (AssertFailed ''IS_BIG_INT(leftObj)''))"

subsection \<open>Conversion primitives\<close>

definition show_int64 :: "int \<Rightarrow> string" where
  "show_int64 i = (if i < 0 then ''-'' @ show_nat (nat (- i)) else show_nat (nat i))"

definition intAsString :: "oop \<Rightarrow> vmstate \<Rightarrow> (oop \<times> vmstate) res" where
  "intAsString self s =
     res_bind (number_of s self) (\<lambda>n.
       case n of
         SmallNum i \<Rightarrow> NewStringObj (show_int64 i) s
       | BigNum b \<Rightarrow> NewStringObj (InfInt_toString b) s
       | _ \<Rightarrow> Inl (AssertFailed ''assume big int''))"

definition intAsDouble :: "dblops \<Rightarrow> oop \<Rightarrow> vmstate \<Rightarrow> (oop \<times> vmstate) res" where
  "intAsDouble d self s =
     res_bind (number_of s self) (\<lambda>n.
       case n of
         SmallNum i \<Rightarrow> NewDouble (d_of_int d i) s
       | BigNum b \<Rightarrow> NewDouble (toDouble d b) s
       | _ \<Rightarrow> Inl (AssertFailed ''assume big int''))"

definition intAs32BitSigned :: "oop \<Rightarrow> vmstate \<Rightarrow> (oop \<times> vmstate) res" where
  "intAs32BitSigned self s =
     res_bind (number_of s self) (\<lambda>n.
       case n of
         SmallNum i \<Rightarrow> NEW_INT (sint (word_of_int i :: 32 word)) s
       | BigNum b \<Rightarrow> NEW_INT (truncateToInt b) s
       | _ \<Rightarrow> Inl (AssertFailed ''assume big int''))"

definition intAs32BitUnsigned :: "oop \<Rightarrow> vmstate \<Rightarrow> (oop \<times> vmstate) res" where
  "intAs32BitUnsigned self s =
     res_bind (number_of s self) (\<lambda>n.
       case n of
         SmallNum i \<Rightarrow> NEW_INT (uint (word_of_int i :: 32 word)) s
       | BigNum b \<Rightarrow> NEW_INT (uint (word_of_int (truncateToInt b) :: 32 word)) s
       | _ \<Rightarrow> Inl (AssertFailed ''assume big int''))"

text \<open>\<open>SMALL_INT_VAL\<close> shifts whatever it gets; for a pointer the result is not meaningful.\<close>

definition SMALL_INT_VAL :: "oop \<Rightarrow> int res" where
  "SMALL_INT_VAL v = (case v of SmallInt i \<Rightarrow> Inr i | Ptr _ \<Rightarrow> Inl (Undefined ''SMALL_INT_VAL of a pointer''))"

definition intSqrt :: "dblops \<Rightarrow> oop \<Rightarrow> vmstate \<Rightarrow> (oop \<times> vmstate) res" where
  "intSqrt d self s =
     res_bind (SMALL_INT_VAL self) (\<lambda>i.
       let result = d_sqrt d (d_of_int d i) in
       if d_eq d result (d_rint d result) then
         (case d_to_int64 d result of
            Some x \<Rightarrow> NEW_INT x s
          | None \<Rightarrow> Inl (Undefined ''conversion of a double''))
       else NewDouble result s)"

text \<open>With the number that \<open>rand()\<close> returns.\<close>

definition intAtRandom :: "int \<Rightarrow> oop \<Rightarrow> vmstate \<Rightarrow> (oop \<times> vmstate) res" where
  "intAtRandom rnd self s =
     res_bind (SMALL_INT_VAL self) (\<lambda>i.
       if i * rnd < INT64_MIN \<or> INT64_MAX < i * rnd then Inl (Undefined ''signed overflow'')
       else NEW_INT (i * rnd) s)"

definition intAbs :: "oop \<Rightarrow> vmstate \<Rightarrow> (oop \<times> vmstate) res" where
  "intAbs self s =
     res_bind (number_of s self) (\<lambda>n.
       case n of
         SmallNum result \<Rightarrow> if result < 0 then NEW_INT (- result) s else Inr (self, s)
       | BigNum b \<Rightarrow> Negate self b s
       | _ \<Rightarrow> Inl (AssertFailed ''assume big int''))"

definition intFromString :: "oop \<Rightarrow> vmstate \<Rightarrow> (oop \<times> vmstate) res" where
  "intFromString right s =
     (case right of
        SmallInt _ \<Rightarrow> Inl (Undefined ''not a VMString'')
      | Ptr a \<Rightarrow>
          res_bind (heap_at s a) (\<lambda>ob.
            case ob of
              VMStr str \<Rightarrow> ParseInteger str False s
            | VMSym str \<Rightarrow> ParseInteger str False s
            | _ \<Rightarrow> Inl (Undefined ''not a VMString'')))"

text \<open>The loop of \<open>intRange\<close> with \<open>n\<close> elements left. The elements lie between two tagged integers, but they are made by
  \<open>NEW_INT\<close> like all others.\<close>

fun range_loop :: "nat \<Rightarrow> int \<Rightarrow> nat \<Rightarrow> oop list \<Rightarrow> vmstate \<Rightarrow> (oop list \<times> vmstate) res" where
  "range_loop 0 i index arr s = Inr (arr, s)"
| "range_loop (Suc n) i index arr s =
     res_bind (NEW_INT i s) (\<lambda>(v, s1).
     res_bind (arr_set arr (int index) v) (\<lambda>arr1. range_loop n (i + 1) (index + 1) arr1 s1))"

text \<open>The array is allocated in the end, since it is not shared before.\<close>

definition intRange :: "oop \<Rightarrow> oop \<Rightarrow> vmstate \<Rightarrow> (oop \<times> vmstate) res" where
  "intRange leftObj rightObj s =
     res_bind (SMALL_INT_VAL leftObj) (\<lambda>left.
     res_bind (SMALL_INT_VAL rightObj) (\<lambda>right.
       let numInteger = right - left + 1 in
       if numInteger > INT64_MAX then Inl (Undefined ''signed overflow'')
       else if numInteger < 0 then Inl (Undefined ''array of a negative size'')
       else res_bind (range_loop (nat numInteger) left 0 (NewArray (nat numInteger)) s) (\<lambda>(arr, s1).
              case allocate (VMArr arr) s1 of (a, s2) \<Rightarrow> Inr (Ptr a, s2))))"

end
