(* ===== verification/IntPrims_Props.thy ===== *)
theory IntPrims_Props
  imports IntPrims
begin

text \<open>
  The integer primitives against the mathematical integers. An object represents an integer in normal form when it
  is a tagged integer of the tagged range, or a big integer outside of it.
\<close>

definition small :: "int \<Rightarrow> bool" where
  "small n \<longleftrightarrow> VMTAGGEDINTEGER_MIN \<le> n \<and> n \<le> VMTAGGEDINTEGER_MAX"

definition int_at :: "vmstate \<Rightarrow> oop \<Rightarrow> int \<Rightarrow> bool" where
  "int_at s v n \<longleftrightarrow>
     (if small n then v = SmallInt n else number_of s v = Inr (BigNum (InfInt_of_int n)))"

text \<open>The answer is \<open>n\<close> in normal form, and no object but a new one has changed.\<close>

definition answers :: "(oop \<times> vmstate) res \<Rightarrow> vmstate \<Rightarrow> int \<Rightarrow> bool" where
  "answers out s n \<longleftrightarrow>
     (\<exists>v s1. out = Inr (v, s1) \<and> int_at s1 v n \<and> (\<forall>a. a \<noteq> hp s \<longrightarrow> heap s1 a = heap s a))"

text \<open>The answer of an operation on big integers: only a number that is not small is accepted.\<close>

definition answers_big :: "(oop \<times> vmstate) res \<Rightarrow> vmstate \<Rightarrow> int \<Rightarrow> bool" where
  "answers_big out s n \<longleftrightarrow>
     (if small n then out = Inl (AssertFailed ''!embeddedInteger.isWithinSmallIntRange()'') else answers out s n)"

lemma int_at_cases:
  assumes "int_at s v n"
  obtains "small n" "v = SmallInt n" "number_of s v = Inr (SmallNum n)"
  | "\<not> small n" "number_of s v = Inr (BigNum (InfInt_of_int n))"
  using assms by (auto simp: int_at_def split: if_splits)

lemma small_int64: "small n \<Longrightarrow> INT64_MIN \<le> n \<and> n \<le> INT64_MAX"
  by (simp add: small_def INT64_MIN_def INT64_MAX_def VMTAGGEDINTEGER_MIN_def VMTAGGEDINTEGER_MAX_def)

lemma InfInt_of_small [simp]: "small n \<Longrightarrow> InfInt_of_int64 n = Inr (InfInt_of_int n)"
  using small_int64 InfInt_of_int64_val by blast

lemma small_within [simp]: "isWithinSmallIntRange (InfInt_of_int n) \<longleftrightarrow> small n"
  by (simp add: isWithinSmallIntRange_val small_def VMTAGGEDINTEGER_MIN_def VMTAGGEDINTEGER_MAX_def)

lemma answers_NEW_INT: "INT64_MIN \<le> n \<Longrightarrow> n \<le> INT64_MAX \<Longrightarrow> answers (NEW_INT n s) s n"
  by (auto simp: NEW_INT_def answers_def int_at_def small_def[symmetric] InfInt_of_int64_val allocate_def heap_at_def)

lemma answers_new_big: "answers_big (new_VMBigInteger (InfInt_of_int n) s) s n"
  by (auto simp: answers_big_def new_VMBigInteger_def answers_def int_at_def allocate_def heap_at_def)

lemma answers_NewInt: "answers (NewInt (InfInt_of_int n) s) s n"
proof (cases "small n")
  case True
  then have r: "INT64_MIN \<le> n" "n \<le> INT64_MAX" using small_int64 by auto
  then have "signed_take_bit 63 n = n" by (intro signed_take_bit_int64) auto
  then show ?thesis using True r answers_NEW_INT[OF r] by (simp add: NewInt_def toInt64_val)
next
  case False
  then show ?thesis using answers_new_big[of n s] by (simp add: NewInt_def answers_big_def)
qed

lemma InfInt_ops_of_int [simp]:
  "InfInt_add (InfInt_of_int m) (InfInt_of_int n) = Inr (InfInt_of_int (m + n))"
  "InfInt_sub (InfInt_of_int m) (InfInt_of_int n) = Inr (InfInt_of_int (m - n))"
  "InfInt_mult (InfInt_of_int m) (InfInt_of_int n) = Inr (InfInt_of_int (m * n))"
  by (simp_all add: InfInt_exact)

lemma InfInt_of_int_order [simp]:
  "InfInt_lt (InfInt_of_int m) (InfInt_of_int n) \<longleftrightarrow> m < n"
  "InfInt_le (InfInt_of_int m) (InfInt_of_int n) \<longleftrightarrow> m \<le> n"
  "InfInt_gt (InfInt_of_int m) (InfInt_of_int n) \<longleftrightarrow> m > n"
  "InfInt_ge (InfInt_of_int m) (InfInt_of_int n) \<longleftrightarrow> m \<ge> n"
  "InfInt_eq (InfInt_of_int m) (InfInt_of_int n) \<longleftrightarrow> m = n"
  "InfInt_neq (InfInt_of_int m) (InfInt_of_int n) \<longleftrightarrow> m \<noteq> n"
  by (simp_all add: InfInt_lt_val InfInt_le_val InfInt_gt_val InfInt_ge_val InfInt_eq_iff InfInt_neq_iff)

text \<open>The contract of an exact operation on big integers, and what the routines built on it answer.\<close>

locale exact_op =
  fixes f :: "int \<Rightarrow> int \<Rightarrow> int" and iop :: "InfInt \<Rightarrow> InfInt \<Rightarrow> InfInt res" and ok :: "int \<Rightarrow> bool"
  assumes iop_exact: "ok n \<Longrightarrow> iop (InfInt_of_int m) (InfInt_of_int n) = Inr (InfInt_of_int (f m n))"
begin

lemma big_left:
  "int_at s r n \<Longrightarrow> number_of s r = Inr x \<Longrightarrow> ok n \<Longrightarrow>
   answers_big (big_arith d iop dop (InfInt_of_int m) x s) s (f m n)"
  by (erule int_at_cases) (auto simp: big_arith_def iop_exact answers_new_big)

lemma big_right: "small m \<Longrightarrow> ok n \<Longrightarrow> answers_big (int_big_arith iop m (InfInt_of_int n) s) s (f m n)"
  by (simp add: int_big_arith_def iop_exact answers_new_big)

lemma small_both: "small m \<Longrightarrow> small n \<Longrightarrow> ok n \<Longrightarrow> answers (small_arith f iop m n s) s (f m n)"
  by (auto simp: small_arith_def Let_def iop_exact answers_NewInt answers_NEW_INT)

end

interpretation sum: exact_op "(+)" InfInt_add "\<lambda>_. True" by unfold_locales simp
interpretation difference: exact_op "(-)" InfInt_sub "\<lambda>_. True" by unfold_locales simp
interpretation product: exact_op "(*)" InfInt_mult "\<lambda>_. True" by unfold_locales simp
interpretation quotient: exact_op "(sdiv)" InfInt_div "\<lambda>n. n \<noteq> 0" by unfold_locales (simp add: InfInt_div_of_int)
interpretation remainder: exact_op "(smod)" InfInt_mod "\<lambda>n. n \<noteq> 0" by unfold_locales (simp add: InfInt_mod_of_int)

lemma Add_int_answers: "small m \<Longrightarrow> answers_big (Add_int (InfInt_of_int n) m s) s (m + n)"
  by (simp add: Add_int_def answers_new_big add.commute)

lemma Multiply_int_answers: "small m \<Longrightarrow> answers_big (Multiply_int (InfInt_of_int n) m s) s (m * n)"
  by (simp add: Multiply_int_def answers_new_big mult.commute)

definition arithmetic_answers :: "(oop \<times> vmstate) res \<Rightarrow> vmstate \<Rightarrow> int \<Rightarrow> int \<Rightarrow> int \<Rightarrow> bool" where
  "arithmetic_answers out s m n k \<longleftrightarrow> (if small m \<and> small n then answers out s k else answers_big out s k)"

lemma two_ints:
  assumes "int_at s l m" "int_at s r n"
  obtains (both_small) "small m" "small n" "l = SmallInt m" "r = SmallInt n"
  | (right_big) "small m" "\<not> small n" "l = SmallInt m" "number_of s r = Inr (BigNum (InfInt_of_int n))"
  | (left_big) "\<not> small m" "number_of s l = Inr (BigNum (InfInt_of_int m))"
      "number_of s r = Inr (if small n then SmallNum n else BigNum (InfInt_of_int n))"
  using assms by (cases "small m"; cases "small n") (auto simp: int_at_def)

lemmas big_operations = big_Add_def big_Subtract_def big_Multiply_def DivideBy_def Modulo_def
  SubtractFrom_def DivisionFrom_def ModuloFrom_def

text \<open>C8. Addition, subtraction and multiplication of integers in normal form answer the exact result in normal form
  when both operands are tagged. When one is a big integer they do so if the result is outside the tagged range,
  and otherwise violate the assertion of the constructor of big integers: sums and differences of big integers
  never become small again.\<close>

theorem int_arithmetic_exact:
  assumes "int_at s l m" "int_at s r n"
  shows "arithmetic_answers (intPlus d l r s) s m n (m + n)
    \<and> arithmetic_answers (intMinus d l r s) s m n (m - n)
    \<and> arithmetic_answers (intStar d l r s) s m n (m * n)"
  using assms
proof (cases rule: two_ints)
  case both_small
  then show ?thesis
    by (simp add: arithmetic_answers_def with_numbers_def intPlus_def intMinus_def intStar_def
        sum.small_both difference.small_both product.small_both)
next
  case right_big
  then show ?thesis
    by (simp add: arithmetic_answers_def with_numbers_def intPlus_def intMinus_def intStar_def
        Add_int_answers Multiply_int_answers big_operations difference.big_right)
next
  case left_big
  then show ?thesis
    by (simp add: arithmetic_answers_def with_numbers_def intPlus_def intMinus_def intStar_def big_operations
        sum.big_left[OF assms(2)] difference.big_left[OF assms(2)] product.big_left[OF assms(2)])
qed

lemma smod_floor:
  fixes m n :: int
  assumes "n \<noteq> 0"
  shows "(if m smod n \<noteq> 0 \<and> (m smod n < 0) \<noteq> (n < 0) then m smod n + n else m smod n) = m mod n"
proof -
  let ?r = "m smod n"
  have m: "m mod n = ?r mod n" by (metis mod_mult_self1 smod_sdiv_mult_eq)
  have b: "\<bar>?r\<bar> < \<bar>n\<bar>" using assms by (rule smod_bound)
  consider "0 < n" "0 \<le> ?r" | "0 < n" "?r < 0" | "n < 0" "?r \<le> 0" | "n < 0" "0 < ?r" using assms by linarith
  then show ?thesis
  proof cases
    case 2
    then have "(?r + n) mod n = ?r + n" using b by (intro mod_pos_pos_trivial) auto
    then show ?thesis using 2 m by simp
  next
    case 4
    then have "(?r + n) mod n = ?r + n" using b by (intro mod_neg_neg_trivial) auto
    then show ?thesis using 4 m by simp
  qed (use m b in \<open>auto simp: mod_pos_pos_trivial mod_neg_neg_trivial\<close>)
qed

lemma small_smod:
  assumes "n \<noteq> 0" "small m \<or> small n"
  shows "small (m smod n)"
  using assms(2)
proof
  assume "small n"
  then show ?thesis using smod_bound[OF assms(1), of m]
    by (auto simp: small_def VMTAGGEDINTEGER_MIN_def VMTAGGEDINTEGER_MAX_def)
next
  assume s: "small m"
  have "\<bar>m\<bar> mod \<bar>n\<bar> \<le> \<bar>m\<bar>" "0 \<le> \<bar>m\<bar> mod \<bar>n\<bar>" using assms(1) by (simp_all add: zmod_le_nonneg_dividend)
  then show ?thesis using s
    by (auto simp: smod_int_abs small_def VMTAGGEDINTEGER_MIN_def VMTAGGEDINTEGER_MAX_def)
qed

lemma sdiv_int64:
  assumes "small m"
  shows "INT64_MIN \<le> m sdiv n" "m sdiv n \<le> INT64_MAX"
proof -
  have "\<bar>m\<bar> div \<bar>n\<bar> \<le> \<bar>m\<bar>" using zdiv_mono2[of "\<bar>m\<bar>" 1 "\<bar>n\<bar>"] by (cases "n = 0") simp_all
  moreover have "0 \<le> \<bar>m\<bar> div \<bar>n\<bar>" by (simp add: div_int_pos_iff)
  ultimately show "INT64_MIN \<le> m sdiv n" "m sdiv n \<le> INT64_MAX" using assms
    by (auto simp: sdiv_int_abs small_def VMTAGGEDINTEGER_MIN_def VMTAGGEDINTEGER_MAX_def INT64_MIN_def INT64_MAX_def)
qed

lemma small_mod_int64:
  assumes "small n" "n \<noteq> 0"
  shows "INT64_MIN \<le> m mod n" "m mod n \<le> INT64_MAX"
proof -
  have "\<bar>m mod n\<bar> < \<bar>n\<bar>" using assms(2) by (rule abs_mod_less)
  moreover have "\<bar>n\<bar> \<le> 2 ^ 62" using assms(1)
    by (simp add: small_def VMTAGGEDINTEGER_MIN_def VMTAGGEDINTEGER_MAX_def abs_le_iff)
  ultimately show "INT64_MIN \<le> m mod n" "m mod n \<le> INT64_MAX"
    by (simp_all add: INT64_MIN_def INT64_MAX_def)
qed

lemma small_percent_answers: "small n \<Longrightarrow> n \<noteq> 0 \<Longrightarrow> answers (small_percent m n s) s (m mod n)"
  using answers_NEW_INT[OF small_mod_int64, of n m s] unfolding small_percent_def Let_def
  by (subst smod_floor) auto

lemmas comparison_defs = with_numbers_def intEqual_def intEqualEqual_def intUnequal_def intLowerthan_def
  intLowerThanEqual_def intGreaterThan_def intGreaterThanEqual_def intMin_def intMax_def lowerThan_def
  int_compare_def answer_bool_def IsEqual_def

text \<open>C16. For integers in normal form all comparisons, equality, identity and inequality decide the order of the
  numbers, also between a tagged and a big integer, and the minimum and the maximum are the right operand.\<close>

theorem int_comparisons_exact:
  assumes "int_at s l m" "int_at s r n"
  shows "intEqual d l r s = Inr (bool_obj (m = n), s)
    \<and> intEqualEqual l r s = Inr (bool_obj (m = n), s)
    \<and> intUnequal d l r s = Inr (bool_obj (m \<noteq> n), s)
    \<and> intLowerthan d l r s = Inr (bool_obj (m < n), s)
    \<and> intLowerThanEqual d l r s = Inr (bool_obj (m \<le> n), s)
    \<and> intGreaterThan d l r s = Inr (bool_obj (m > n), s)
    \<and> intGreaterThanEqual d l r s = Inr (bool_obj (m \<ge> n), s)
    \<and> intMin d l r s = Inr (if m < n then l else r, s)
    \<and> intMax d l r s = Inr (if m < n then r else l, s)"
  using assms
proof (cases rule: two_ints)
  case both_small
  then show ?thesis
    by (simp add: comparison_defs)
next
  case right_big
  moreover from this have "m \<noteq> n" by auto
  ultimately show ?thesis
    by (auto simp: comparison_defs)
next
  case left_big
  moreover from this have "small n \<Longrightarrow> m \<noteq> n" by auto
  ultimately show ?thesis
    by (cases "small n") (auto simp: comparison_defs)
qed

text \<open>C17. For integers in normal form and a divisor that is not 0, \<open>/\<close> answers the truncated quotient, \<open>rem:\<close> (for tagged
  operands only) the remainder with the sign of the dividend, and \<open>%\<close> of tagged integers the modulus with the sign
  of the divisor. But \<open>%\<close> of two big integers has the sign of the dividend, and \<open>%\<close> of a tagged and a big integer, in
  either order, never answers: its result is always in the tagged range, which the constructor of big integers
  rejects.\<close>

theorem int_division_exact:
  assumes "int_at s l m" "int_at s r n" "n \<noteq> 0"
  shows "arithmetic_answers (intSlash d l r s) s m n (m sdiv n)
    \<and> (if small m \<and> small n then answers (intPercent d l r s) s (m mod n)
       else if small m \<or> small n then
         intPercent d l r s = Inl (AssertFailed ''!embeddedInteger.isWithinSmallIntRange()'')
       else answers_big (intPercent d l r s) s (m smod n))
    \<and> (if small m \<and> small n then answers (intRem l r s) s (m smod n) else \<exists>e. intRem l r s = Inl (ErrorExit e))"
  using assms(1,2)
proof (cases rule: two_ints)
  case both_small
  then show ?thesis using assms(3) small_smod[of n m] small_int64[of "m smod n"]
    by (simp add: arithmetic_answers_def with_numbers_def intSlash_def intPercent_def intRem_def
        answers_NEW_INT sdiv_int64 small_percent_answers minus_sdiv_mult_eq_smod)
next
  case right_big
  have "answers_big (int_big_arith InfInt_mod m (InfInt_of_int n) s) s (m smod n)"
    using right_big assms(3) by (intro remainder.big_right)
  moreover have "small (m smod n)" using assms(3) right_big small_smod by blast
  moreover have "\<exists>a. r = Ptr a" using right_big by (cases r) auto
  ultimately show ?thesis using right_big assms(3) quotient.big_right[of m n s]
    by (auto simp: arithmetic_answers_def with_numbers_def intSlash_def intPercent_def intRem_def
        big_operations answers_big_def)
next
  case left_big
  have "answers_big (big_arith d InfInt_mod (d_fmod d) (InfInt_of_int m)
      (if small n then SmallNum n else BigNum (InfInt_of_int n)) s) s (m smod n)"
    using remainder.big_left[OF assms(2) left_big(3) assms(3)] .
  moreover have "small n \<Longrightarrow> small (m smod n)" using assms(3) small_smod by blast
  moreover have "\<exists>a. l = Ptr a" using left_big by (cases l) auto
  ultimately show ?thesis using left_big quotient.big_left[OF assms(2) left_big(3) assms(3), of d "d_div d" m]
    by (auto simp: arithmetic_answers_def with_numbers_def intSlash_def intPercent_def intRem_def
        big_operations answers_big_def)
qed

text \<open>Without the assertion a big integer in the tagged range can arise. Compared with the equal tagged integer it
  is at once greater, neither at least nor at most equal, not equal and not unequal.\<close>

lemma equal_small_and_big_contradict:
  assumes "small n" "number_of s r = Inr (BigNum (InfInt_of_int n))"
  shows "intLowerthan d (SmallInt n) r s = Inr (trueObject, s)"
    and "intLowerThanEqual d (SmallInt n) r s = Inr (falseObject, s)"
    and "intGreaterThanEqual d (SmallInt n) r s = Inr (falseObject, s)"
    and "intEqual d (SmallInt n) r s = Inr (falseObject, s)"
    and "intUnequal d (SmallInt n) r s = Inr (falseObject, s)"
  using assms by (simp_all add: comparison_defs bool_obj_def)

subsection \<open>Shifts\<close>

lemma clzll_bits: "64 - clzll w \<le> i \<Longrightarrow> i < 64 \<Longrightarrow> \<not> bit w i"
proof -
  assume i: "64 - clzll w \<le> i" "i < 64"
  let ?t = "takeWhile (\<lambda>i. \<not> bit w i) (rev [0..<64])"
  have "63 - i < length ?t" using i by (simp add: clzll_def)
  moreover from this have "?t ! (63 - i) = rev [0..<64] ! (63 - i)" by (rule takeWhile_nth)
  moreover have "rev [0..<64] ! (63 - i) = i" using i by (simp add: rev_nth)
  ultimately show ?thesis using nth_mem[of "63 - i" ?t] set_takeWhileD by metis
qed

lemma clzll_le: "clzll w \<le> 64"
  using length_takeWhile_le[of "\<lambda>i. \<not> bit w i" "rev [0..<64]"] by (simp add: clzll_def)

lemma clzll_bound:
  assumes "0 < n" "n < 2 ^ 63"
  shows "n < 2 ^ (64 - clzll (word_of_int n))"
proof -
  let ?w = "word_of_int n :: 64 word"
  have u: "uint ?w = n" using assms by (simp add: uint_word_of_int)
  have "take_bit (64 - clzll ?w) ?w = ?w"
    by (rule bit_word_eqI) (use clzll_bits[of ?w] in \<open>fastforce simp: bit_take_bit_iff not_le[symmetric]\<close>)
  then have "uint ?w < 2 ^ (64 - clzll ?w)" by (metis take_bit_int_less_exp unsigned_take_bit_eq)
  then show ?thesis using u by simp
qed

lemma clzll_negative:
  assumes "small m" "m < 0"
  shows "clzll (word_of_int m) = 0"
proof -
  have "m div 2 ^ 63 = - 1" using assms
    by (intro int_div_pos_eq[where r = "m + 2 ^ 63"]) (auto simp: small_def VMTAGGEDINTEGER_MIN_def)
  then have "bit (word_of_int m :: 64 word) 63"
    by (simp only: bit_word_of_int_iff) (simp add: bit_iff_odd)
  moreover have "rev [0..<64] = 63 # rev [0..<63]" using upt_Suc_append[of 0 63] by simp
  ultimately show ?thesis by (simp add: clzll_def)
qed

lemma intLeftShift_exact:
  assumes "small m" "m \<noteq> 0" "small k" "0 \<le> k"
  shows "answers (intLeftShift (SmallInt m) (SmallInt k) s) s (m * 2 ^ nat k)"
proof (cases "64 - int (clzll (word_of_int m)) + k > 63")
  case True
  then show ?thesis using assms by (simp add: intLeftShift_def InfInt_shl_val answers_NewInt)
next
  case False
  let ?c = "clzll (word_of_int m)"
  have r: "m < 2 ^ 63" using assms(1) by (simp add: small_def VMTAGGEDINTEGER_MAX_def)
  have pos: "0 < m" using False assms clzll_negative[of m] by fastforce
  have "m * 2 ^ nat k < 2 ^ (64 - ?c) * 2 ^ nat k" using clzll_bound[OF pos r] by simp
  also have "\<dots> = 2 ^ (64 - ?c + nat k)" by (simp add: power_add)
  also have "\<dots> \<le> 2 ^ 63" using False assms clzll_le[of "word_of_int m"] by (intro power_increasing) auto
  finally have "m * 2 ^ nat k < 2 ^ 63" .
  moreover have "0 < m * 2 ^ nat k" using pos by simp
  ultimately have b: "INT64_MIN \<le> m * 2 ^ nat k" "m * 2 ^ nat k \<le> INT64_MAX"
    unfolding INT64_MIN_def INT64_MAX_def by linarith+
  have "push_bit (nat k) (word_of_int m :: 64 word) = word_of_int (m * 2 ^ nat k)" by (simp add: push_bit_eq_mult)
  then have "sint (push_bit (nat k) (word_of_int m :: 64 word)) = m * 2 ^ nat k"
    using signed_take_bit_int64[OF b] by (simp only: sint_sbintrunc') simp
  then show ?thesis using False assms answers_NEW_INT[OF b, of s] by (simp add: intLeftShift_def)
qed

subsection \<open>Instances\<close>

text \<open>A heap with the numbers \<open>2\<^sup>6\<^sup>2\<close> and \<open>-2\<^sup>6\<^sup>2 - 1\<close>, the first ones that are not tagged.\<close>

definition two_bigs :: vmstate where
  "two_bigs = \<lparr>heap = [40 \<mapsto> VMBig \<lparr>val = [427387904, 611686018, 4], pos = True\<rparr>,
     41 \<mapsto> VMBig \<lparr>val = [427387905, 611686018, 4], pos = False\<rparr>], hp = 42, symcaches = (\<lambda>_. empty_symcache),
     globals = Map.empty, cur_frame = 0, pc = 0\<rparr>"

lemma two_bigs_ints:
  "int_at two_bigs (Ptr 40) 4611686018427387904" "int_at two_bigs (Ptr 41) (- 4611686018427387905)"
  "int_at two_bigs (SmallInt 7) 7" "int_at two_bigs (SmallInt 1) 1"
  "int_at two_bigs (SmallInt 4611686018427387903) 4611686018427387903"
  by (simp_all add: int_at_def two_bigs_def small_def VMTAGGEDINTEGER_MIN_def VMTAGGEDINTEGER_MAX_def heap_at_def
      InfInt_of_int_def limbs_of_rec)

lemmas two_bigs_small = small_def VMTAGGEDINTEGER_MIN_def VMTAGGEDINTEGER_MAX_def

theorem int_arithmetic_exact_witness:
  "\<forall>d. answers (intPlus d (SmallInt 4611686018427387903) (SmallInt 1) two_bigs) two_bigs 4611686018427387904
    \<and> intMinus d (Ptr 40) (SmallInt 1) two_bigs = Inl (AssertFailed ''!embeddedInteger.isWithinSmallIntRange()'')"
  using int_arithmetic_exact[OF two_bigs_ints(5,4)] int_arithmetic_exact[OF two_bigs_ints(1,4)]
  by (simp add: arithmetic_answers_def answers_big_def two_bigs_small)

theorem int_comparisons_exact_witness:
  "\<forall>d. intLowerthan d (Ptr 41) (SmallInt 7) two_bigs = Inr (trueObject, two_bigs)
    \<and> intMax d (SmallInt 7) (Ptr 40) two_bigs = Inr (Ptr 40, two_bigs)"
  using int_comparisons_exact[OF two_bigs_ints(2,3)] int_comparisons_exact[OF two_bigs_ints(3,1)]
  by (simp add: bool_obj_def)

theorem int_division_exact_witness:
  "\<forall>d. intPercent d (Ptr 40) (SmallInt 7) two_bigs = Inl (AssertFailed ''!embeddedInteger.isWithinSmallIntRange()'')
    \<and> answers (intPercent d (SmallInt 4611686018427387903) (SmallInt 7) two_bigs) two_bigs 3"
  using int_division_exact[OF two_bigs_ints(1,3)] int_division_exact[OF two_bigs_ints(5,3)]
  by (simp add: two_bigs_small)

end
