(* ===== verification/Inlining.thy ===== *)
theory Inlining
  imports MethodGen_Inv InfInt
begin

text \<open>
  The inlining of blocks (\<open>Inline...\<close> of \<open>src/compiler/MethodGenerationContext\<close>, \<open>inlineInto\<close> and
  \<open>AdaptAfterOuterInlined\<close> of \<open>src/vmobjects/VMMethod\<close>, the same methods of \<open>VMTrivialMethod\<close>). The code of a literal block
  is translated into the method being compiled; its variables become locals of that method, jumps are emitted again
  and patched, and blocks nested in it are adapted to the scope that is gone. The priority queues of pending jumps
  are lists sorted by their key. The enclosing contexts of the method being compiled are a separate list.
\<close>

subsection \<open>Scopes\<close>

definition CompleteLexicalScope :: "mgenc list \<Rightarrow> mgenc \<Rightarrow> scopes \<Rightarrow> mgenc \<times> scopes" where
  "CompleteLexicalScope outers m scs =
     (m\<lparr>lexicalScope := Some (length scs)\<rparr>,
      scs @ [\<lparr>ls_outer = (case outers of [] \<Rightarrow> None | o' # _ \<Rightarrow> lexicalScope o'), ls_arguments = arguments m,
              ls_locals = locals m\<rparr>])"

definition MakeQualifiedName :: "Variable \<Rightarrow> string res" where
  "MakeQualifiedName v =
     (if length (vname v) \<ge> 80 then Inl (AssertFailed ''name.size() < 80'')
      else Inr (take 99 (vname v @ '':'' @ show_nat (line (vcoord v)) @ '':'' @ show_nat (column (vcoord v)))))"

fun InlineAsLocals :: "Variable list \<Rightarrow> mgenc \<Rightarrow> scopes \<Rightarrow> (mgenc \<times> scopes) res" where
  "InlineAsLocals [] m scs = Inr (m, scs)"
| "InlineAsLocals (var # vars) m scs =
     (let freshCopy = CopyForInlining var (length (locals m)) in
      if \<not> IsValid freshCopy then InlineAsLocals vars m scs
      else if visArgument freshCopy then Inl (AssertFailed ''!freshCopy.IsArgument()'')
      else
        res_bind (MakeQualifiedName var) (\<lambda>qualifiedName.
        if ContainsNamed (locals m) qualifiedName then Inl (AssertFailed ''!Contains(this->locals, qualifiedName)'')
        else case lexicalScope m of
          None \<Rightarrow> Inl (Undefined ''lexicalScope->AddInlinedLocal'')
        | Some s \<Rightarrow>
            res_bind (scope_at scs s) (\<lambda>sc.
              if unat (vindex freshCopy) \<noteq> length (ls_locals sc) then Inl (AssertFailed ''var.GetIndex() == locals.size()'')
              else InlineAsLocals vars (m\<lparr>locals := locals m @ [freshCopy]\<rparr>) (AddInlinedLocal scs s freshCopy))))"

definition MergeIntoScope :: "nat option \<Rightarrow> mgenc \<Rightarrow> scopes \<Rightarrow> (mgenc \<times> scopes) res" where
  "MergeIntoScope scopeToBeInlined m scs =
     (case scopeToBeInlined of
        None \<Rightarrow> Inl (Undefined ''lexicalScope != nullptr'')
      | Some s \<Rightarrow>
          res_bind (scope_at scs s) (\<lambda>sc.
          res_bind (if (of_nat (length (ls_arguments sc)) :: byte) > 1 then InlineAsLocals (ls_arguments sc) m scs
                    else Inr (m, scs)) (\<lambda>(m1, scs1).
          if length (ls_locals sc) > 0 then InlineAsLocals (ls_locals sc) m1 scs1 else Inr (m1, scs1))))"

text \<open>The search for a local from the last one down, and that for a variable in all enclosing contexts.\<close>

fun last_same :: "Variable \<Rightarrow> Variable list \<Rightarrow> nat \<Rightarrow> nat option" where
  "last_same var vs 0 = None"
| "last_same var vs (Suc index) = (if IsSame (vs ! index) var then Some index else last_same var vs index)"

definition GetInlinedLocalIdx :: "Variable \<Rightarrow> mgenc \<Rightarrow> byte res" where
  "GetInlinedLocalIdx var m =
     (if length (locals m) \<ge> 255 then Inl (AssertFailed ''locals.size() < UINT8_MAX'')
      else case last_same var (locals m) (length (locals m)) of
        Some index \<Rightarrow> Inr (of_nat index)
      | None \<Rightarrow> Inl (ErrorExit ''Unexpected issue trying to find an inlined variable.''))"

fun GetInlinedVariable :: "Variable \<Rightarrow> mgenc list \<Rightarrow> Variable res" where
  "GetInlinedVariable oldVar [] = Inl (ErrorExit ''Failed to find inlined variable'')"
| "GetInlinedVariable oldVar (m # outers) =
     (case find (\<lambda>v. IsSame v oldVar) (locals m) of
        Some v \<Rightarrow> Inr v
      | None \<Rightarrow>
          (case find (\<lambda>v. IsSame v oldVar) (arguments m) of
             Some v \<Rightarrow> Inr v
           | None \<Rightarrow> GetInlinedVariable oldVar outers))"

subsection \<open>Adapting nested blocks\<close>

definition byte_at :: "byte list \<Rightarrow> nat \<Rightarrow> byte res" where
  "byte_at bcs i = (if i < length bcs then Inr (bcs ! i) else Inl (Undefined ''bytecodes[i]''))"

text \<open>\<open>GetConstant\<close> answers a null pointer for an index out of range, which its callers use.\<close>

definition GetConstant_lit :: "byte list \<Rightarrow> literal list \<Rightarrow> nat \<Rightarrow> (nat \<times> literal) res" where
  "GetConstant_lit bcs lits i =
     res_bind (byte_at bcs (i + 1)) (\<lambda>idx.
       if unat idx < length lits then Inr (unat idx, lits ! unat idx) else Inl (Undefined ''null constant''))"

definition no_context_bytecodes :: "byte list" where
  "no_context_bytecodes =
     [BC_DUP, BC_DUP_SECOND, BC_PUSH_CONSTANT, BC_PUSH_CONSTANT_0, BC_PUSH_CONSTANT_1, BC_PUSH_CONSTANT_2, BC_PUSH_0, BC_PUSH_1,
      BC_PUSH_NIL, BC_PUSH_GLOBAL, BC_PUSH_FIELD, BC_POP_FIELD, BC_POP, BC_SEND, BC_SEND_1, BC_SEND_2, BC_SEND_3, BC_SUPER_SEND,
      BC_RETURN_LOCAL, BC_RETURN_NON_LOCAL, BC_INC, BC_DEC, BC_JUMP, BC_INC_FIELD_PUSH, BC_INC_FIELD,
      BC_JUMP_ON_TRUE_TOP_NIL, BC_JUMP_ON_TRUE_POP, BC_JUMP_ON_FALSE_TOP_NIL, BC_JUMP_ON_FALSE_POP,
      BC_JUMP_ON_NOT_NIL_TOP_TOP, BC_JUMP_ON_NIL_TOP_TOP, BC_JUMP_ON_NOT_NIL_POP, BC_JUMP_ON_NIL_POP, BC_JUMP_BACKWARD,
      BC_JUMP2, BC_JUMP2_ON_TRUE_TOP_NIL, BC_JUMP2_ON_TRUE_POP, BC_JUMP2_ON_FALSE_TOP_NIL, BC_JUMP2_ON_FALSE_POP,
      BC_JUMP2_ON_NOT_NIL_TOP_TOP, BC_JUMP2_ON_NIL_TOP_TOP, BC_JUMP2_ON_NOT_NIL_POP, BC_JUMP2_ON_NIL_POP, BC_JUMP2_BACKWARD]"

definition own_context_bytecodes :: "byte list" where
  "own_context_bytecodes =
     [BC_PUSH_SELF, BC_PUSH_ARG_1, BC_PUSH_ARG_2, BC_PUSH_LOCAL_0, BC_PUSH_LOCAL_1, BC_PUSH_LOCAL_2, BC_PUSH_FIELD_0, BC_PUSH_FIELD_1,
      BC_POP_LOCAL_0, BC_POP_LOCAL_1, BC_POP_LOCAL_2, BC_POP_FIELD_0, BC_POP_FIELD_1]"

text \<open>One instruction of a block whose outer scope was inlined. A pushed block is cast to a method without a check.
  \<open>gens\<close> is the context that has the inlined code, followed by its enclosing ones.\<close>

definition adapt_argument :: "byte \<Rightarrow> mgenc list \<Rightarrow> nat option \<Rightarrow> scopes \<Rightarrow> nat \<Rightarrow> byte list \<Rightarrow> byte list res" where
  "adapt_argument removed gens scope scs i bcs =
     res_bind (byte_at bcs i) (\<lambda>bc.
     res_bind (byte_at bcs (i + 1)) (\<lambda>idx.
     res_bind (byte_at bcs (i + 2)) (\<lambda>ctxLevel.
     res_bind (GetArgument scs scope (unat idx) (unat ctxLevel)) (\<lambda>oldArg.
     res_bind (GetInlinedVariable oldArg gens) (\<lambda>newVar.
       let adapted = (if ctxLevel > removed then bcs[i + 2 := ctxLevel - 1] else bcs) in
       if visArgument newVar then
         (if vindex newVar = idx then Inr adapted else Inl (AssertFailed ''newVar->GetIndex() == idx''))
       else Inr (adapted[i := (if bc = BC_PUSH_ARGUMENT then BC_PUSH_LOCAL else BC_POP_LOCAL), i + 1 := vindex newVar]))))))"

definition adapt_local :: "byte \<Rightarrow> mgenc list \<Rightarrow> nat option \<Rightarrow> scopes \<Rightarrow> nat \<Rightarrow> byte list \<Rightarrow> byte list res" where
  "adapt_local removed gens scope scs i bcs =
     res_bind (byte_at bcs (i + 2)) (\<lambda>ctxLevel.
       if ctxLevel = removed then
         res_bind (byte_at bcs (i + 1)) (\<lambda>idx.
         res_bind (GetLocal scs scope (unat idx) (unat ctxLevel)) (\<lambda>oldVar.
           case gens of
             [] \<Rightarrow> Inl (Undefined ''mgencWithInlined'')
           | m # _ \<Rightarrow> res_bind (GetInlinedLocalIdx oldVar m) (\<lambda>newIdx. Inr (bcs[i + 1 := newIdx]))))
       else if ctxLevel > removed then Inr (bcs[i + 2 := ctxLevel - 1])
       else Inr bcs)"

definition adapt_instr ::
    "(byte \<Rightarrow> invokable \<Rightarrow> scopes \<Rightarrow> (invokable \<times> scopes) res) \<Rightarrow> byte \<Rightarrow> mgenc list \<Rightarrow> nat option \<Rightarrow> nat \<Rightarrow>
     byte list \<Rightarrow> literal list \<Rightarrow> scopes \<Rightarrow> (byte list \<times> literal list \<times> scopes) res" where
  "adapt_instr adapt removed gens scope i bcs lits scs =
     res_bind (byte_at bcs i) (\<lambda>bc.
       if bc \<in> set no_context_bytecodes then Inr (bcs, lits, scs)
       else if bc = BC_PUSH_ARGUMENT \<or> bc = BC_POP_ARGUMENT then
         res_bind (adapt_argument removed gens scope scs i bcs) (\<lambda>bcs1. Inr (bcs1, lits, scs))
       else if bc = BC_PUSH_BLOCK then
         res_bind (GetConstant_lit bcs lits i) (\<lambda>(k, lit).
           case lit of
             LBlock a (VMMethod sig bs ls nl mx sc loops) \<Rightarrow>
               res_bind (adapt (removed + 1) (VMMethod sig bs ls nl mx sc loops) scs) (\<lambda>(blk, scs1).
                 Inr (bcs, lits[k := LBlock a blk], scs1))
           | _ \<Rightarrow> Inl (Undefined ''static_cast<VMMethod*>''))
       else if bc = BC_PUSH_LOCAL \<or> bc = BC_POP_LOCAL then
         res_bind (adapt_local removed gens scope scs i bcs) (\<lambda>bcs1. Inr (bcs1, lits, scs))
       else if bc \<in> set own_context_bytecodes then Inr (bcs, lits, scs)
       else if bc \<in> {BC_HALT, BC_RETURN_SELF, BC_RETURN_FIELD_0, BC_RETURN_FIELD_1, BC_RETURN_FIELD_2} then
         Inl (ErrorExit ''AdaptAfterOuterInlined: not expected in a block method'')
       else Inl (ErrorExit ''AdaptAfterOuterInlined does not yet support it.''))"

text \<open>An instruction has at least one byte, so the number of bytes is enough fuel for the loop.\<close>

fun adapt_loop ::
    "(byte \<Rightarrow> invokable \<Rightarrow> scopes \<Rightarrow> (invokable \<times> scopes) res) \<Rightarrow> byte \<Rightarrow> mgenc list \<Rightarrow> nat option \<Rightarrow> nat \<Rightarrow> nat \<Rightarrow>
     byte list \<Rightarrow> literal list \<Rightarrow> scopes \<Rightarrow> (byte list \<times> literal list \<times> scopes) res" where
  "adapt_loop adapt removed gens scope 0 i bcs lits scs =
     (if i < length bcs then Inl (Undefined ''fuel'') else Inr (bcs, lits, scs))"
| "adapt_loop adapt removed gens scope (Suc n) i bcs lits scs =
     (if i < length bcs then
        res_bind (adapt_instr adapt removed gens scope i bcs lits scs) (\<lambda>(bcs1, lits1, scs1).
          adapt_loop adapt removed gens scope n (i + GetBytecodeLength (bcs ! i)) bcs1 lits1 scs1)
      else Inr (bcs, lits, scs))"

text \<open>Only methods are adapted. The first argument bounds the nesting of blocks.\<close>

fun AdaptAfterOuterInlined :: "nat \<Rightarrow> byte \<Rightarrow> mgenc list \<Rightarrow> invokable \<Rightarrow> scopes \<Rightarrow> (invokable \<times> scopes) res" where
  "AdaptAfterOuterInlined 0 removed gens blk scs = Inl (Undefined ''fuel'')"
| "AdaptAfterOuterInlined (Suc n) removed gens blk scs =
     (case blk of
        VMMethod sig bcs lits nl mx scope loops \<Rightarrow>
          res_bind (adapt_loop (\<lambda>r blk1 scs1. AdaptAfterOuterInlined n r gens blk1 scs1) removed gens scope
                      (length bcs) 0 bcs lits scs) (\<lambda>(bcs1, lits1, scs1).
          if removed = 1 then
            (case scope of
               None \<Rightarrow> Inl (Undefined ''lexicalScope->DropInlinedScope'')
             | Some sc \<Rightarrow> res_bind (DropInlinedScope scs1 sc) (\<lambda>scs2.
                 Inr (VMMethod sig bcs1 lits1 nl mx scope loops, scs2)))
          else Inr (VMMethod sig bcs1 lits1 nl mx scope loops, scs1))
      | _ \<Rightarrow> Inr (blk, scs))"

subsection \<open>Translating the code of a block\<close>

record inlining =
  i_mgenc :: mgenc
  i_scopes :: scopes
  i_literals :: "literal list"
  i_jumps :: "(nat \<times> byte \<times> nat) list"
  i_backJumps :: "(nat \<times> nat) list"
  i_backJumpsToPatch :: "(nat \<times> nat) list"

definition emit :: "(mgenc \<Rightarrow> mgenc res) \<Rightarrow> inlining \<Rightarrow> inlining res" where
  "emit f st = res_bind (f (i_mgenc st)) (\<lambda>m. Inr (st\<lparr>i_mgenc := m\<rparr>))"

fun patchJumpToCurrentAddress :: "nat \<Rightarrow> (nat \<times> byte \<times> nat) list \<Rightarrow> mgenc \<Rightarrow> ((nat \<times> byte \<times> nat) list \<times> mgenc) res" where
  "patchJumpToCurrentAddress i [] m = Inr ([], m)"
| "patchJumpToCurrentAddress i ((target, bc, idx) # jumps) m =
     (if target \<le> i then
        (if target \<noteq> i then Inl (AssertFailed ''jump.originalJumpTargetIdx == i'')
         else res_bind (PatchJumpOffsetToPointToNextInstruction idx m) (\<lambda>m1. patchJumpToCurrentAddress i jumps m1))
      else Inr ((target, bc, idx) # jumps, m))"

fun prepareBackJumpToCurrentAddress ::
    "(nat \<times> nat) list \<Rightarrow> (nat \<times> nat) list \<Rightarrow> nat \<Rightarrow> mgenc \<Rightarrow> ((nat \<times> nat) list \<times> (nat \<times> nat) list) res" where
  "prepareBackJumpToCurrentAddress [] toPatch i m = Inr ([], toPatch)"
| "prepareBackJumpToCurrentAddress ((loopBeginIdx, backwardJumpIdx) # backJumps) toPatch i m =
     (if loopBeginIdx \<le> i then
        (if loopBeginIdx \<noteq> i then Inl (AssertFailed ''jump.loopBeginIdx == i'')
         else prepareBackJumpToCurrentAddress backJumps
                (insort_key fst (backwardJumpIdx, OffsetOfNextInstruction m) toPatch) i m)
      else Inr ((loopBeginIdx, backwardJumpIdx) # backJumps, toPatch))"

text \<open>What the jumps of a block become: the same jump with a dummy offset, to be patched when the code for its target is
  emitted.\<close>

definition inline_jump :: "byte list \<Rightarrow> nat \<Rightarrow> byte \<Rightarrow> int \<Rightarrow> inlining \<Rightarrow> inlining res" where
  "inline_jump bcs i bc stackEffect st =
     (case Emit3WithDummy bc stackEffect (i_mgenc st) of (idx, m) \<Rightarrow>
        res_bind (byte_at bcs (i + 1)) (\<lambda>b1. res_bind (byte_at bcs (i + 2)) (\<lambda>b2.
          Inr (st\<lparr>i_mgenc := m,
                  i_jumps := insort_key fst (i + unat (ComputeOffset b1 b2), bc, idx) (i_jumps st)\<rparr>))))"

text \<open>An access to a local of the block itself becomes one to the local it was merged into.\<close>

definition inlined_local :: "nat option \<Rightarrow> nat \<Rightarrow> inlining \<Rightarrow> byte res" where
  "inlined_local scope idx st =
     res_bind (GetLocal (i_scopes st) scope idx 0) (\<lambda>var. GetInlinedLocalIdx var (i_mgenc st))"

definition inline_local :: "byte list \<Rightarrow> nat option \<Rightarrow> nat \<Rightarrow> byte \<Rightarrow> inlining \<Rightarrow> inlining res" where
  "inline_local bcs scope i bc st =
     res_bind (byte_at bcs (i + 1)) (\<lambda>idx. res_bind (byte_at bcs (i + 2)) (\<lambda>ctxLevel.
     res_bind (if ctxLevel = 0 then res_bind (inlined_local scope (unat idx) st) (\<lambda>newIdx. Inr (newIdx, ctxLevel))
               else Inr (idx, ctxLevel - 1)) (\<lambda>(idx1, ctx1).
       if bc = BC_PUSH_LOCAL then emit (EmitPUSHLOCAL (unat idx1) (unat ctx1)) st
       else emit (EmitPOPLOCAL (unat idx1) (unat ctx1)) st)))"

definition inline_argument :: "byte list \<Rightarrow> nat \<Rightarrow> byte \<Rightarrow> inlining \<Rightarrow> inlining res" where
  "inline_argument bcs i bc st =
     res_bind (byte_at bcs (i + 1)) (\<lambda>idx. res_bind (byte_at bcs (i + 2)) (\<lambda>ctxLevel.
       if ctxLevel = 0 then Inl (AssertFailed ''ctxLevel > 0'')
       else if bc = BC_POP_ARGUMENT then emit (EmitPOPARGUMENT (unat idx) (unat (ctxLevel - 1))) st
       else emit (EmitPUSHARGUMENT (unat idx) (unat (ctxLevel - 1))) st))"

text \<open>The symbol of a send or a global.\<close>

definition inline_symbol :: "byte list \<Rightarrow> nat \<Rightarrow> (string \<Rightarrow> mgenc \<Rightarrow> mgenc res) \<Rightarrow> inlining \<Rightarrow> inlining res" where
  "inline_symbol bcs i f st =
     res_bind (GetConstant_lit bcs (i_literals st) i) (\<lambda>(_, lit).
       case lit of LSym sy \<Rightarrow> emit (f sy) st | _ \<Rightarrow> Inl (Undefined ''(VMSymbol*)GetConstant(i)''))"

definition inline_block :: "mgenc list \<Rightarrow> byte list \<Rightarrow> nat \<Rightarrow> inlining \<Rightarrow> inlining res" where
  "inline_block outers bcs i st =
     res_bind (GetConstant_lit bcs (i_literals st) i) (\<lambda>(k, lit).
       case lit of
         LBlock a blk \<Rightarrow>
           res_bind (AdaptAfterOuterInlined (Suc (size blk)) 1 (i_mgenc st # outers) blk (i_scopes st)) (\<lambda>(blk1, scs1).
             emit (EmitPUSHBLOCK (LBlock a blk1))
               (st\<lparr>i_scopes := scs1, i_literals := (i_literals st)[k := LBlock a blk1]\<rparr>))
       | _ \<Rightarrow> Inl (Undefined ''(VMInvokable*)GetConstant(i)''))"

definition inline_constant :: "nat \<Rightarrow> inlining \<Rightarrow> inlining res" where
  "inline_constant k st =
     (if k < length (i_literals st) then emit (EmitPUSHCONSTANT (i_literals st ! k)) st
      else Inl (Undefined ''indexableFields[idx]''))"

definition inline_back_jump :: "nat \<Rightarrow> inlining \<Rightarrow> inlining res" where
  "inline_back_jump i st =
     (case i_backJumpsToPatch st of
        [] \<Rightarrow> Inl (Undefined ''backJumpsToPatch.top()'')
      | (backwardsJumpIdx, loopBeginIdx) # rest \<Rightarrow>
          if backwardsJumpIdx \<noteq> i then Inl (AssertFailed ''the jump should match with the jump instructions'')
          else emit (EmitBackwardsJumpOffsetToTarget loopBeginIdx) (st\<lparr>i_backJumpsToPatch := rest\<rparr>))"

definition field_index :: "byte list \<Rightarrow> nat \<Rightarrow> byte \<Rightarrow> byte res" where
  "field_index bcs i bc =
     (if bc = BC_PUSH_FIELD \<or> bc = BC_POP_FIELD then byte_at bcs (i + 1)
      else if bc = BC_PUSH_FIELD_0 \<or> bc = BC_POP_FIELD_0 then Inr 0 else Inr 1)"

definition plain_jumps :: "byte list" where
  "plain_jumps = [BC_JUMP, BC_JUMP_ON_TRUE_TOP_NIL, BC_JUMP_ON_FALSE_TOP_NIL, BC_JUMP_ON_NOT_NIL_TOP_TOP, BC_JUMP_ON_NIL_TOP_TOP,
     BC_JUMP2, BC_JUMP2_ON_TRUE_TOP_NIL, BC_JUMP2_ON_FALSE_TOP_NIL, BC_JUMP2_ON_NOT_NIL_TOP_TOP, BC_JUMP2_ON_NIL_TOP_TOP,
     BC_JUMP_IF_GREATER, BC_JUMP2_IF_GREATER]"

definition popping_jumps :: "byte list" where
  "popping_jumps = [BC_JUMP_ON_TRUE_POP, BC_JUMP_ON_FALSE_POP, BC_JUMP2_ON_TRUE_POP, BC_JUMP2_ON_FALSE_POP,
     BC_JUMP_ON_NOT_NIL_POP, BC_JUMP_ON_NIL_POP, BC_JUMP2_ON_NOT_NIL_POP, BC_JUMP2_ON_NIL_POP]"

definition inline_instr :: "mgenc list \<Rightarrow> byte list \<Rightarrow> nat option \<Rightarrow> nat \<Rightarrow> byte \<Rightarrow> inlining \<Rightarrow> inlining res" where
  "inline_instr outers bcs scope i bc st =
     (if bc = BC_DUP \<or> bc = BC_DUP_SECOND then emit (\<lambda>m. Inr (Emit1 bc 1 m)) st
      else if bc = BC_PUSH_FIELD \<or> bc = BC_PUSH_FIELD_0 \<or> bc = BC_PUSH_FIELD_1 then
        res_bind (field_index bcs i bc) (\<lambda>idx. emit (\<lambda>m. Inr (EmitPushFieldWithIndex idx m)) st)
      else if bc = BC_POP_FIELD \<or> bc = BC_POP_FIELD_0 \<or> bc = BC_POP_FIELD_1 then
        res_bind (field_index bcs i bc) (\<lambda>idx. emit (\<lambda>m. Inr (EmitPopFieldWithIndex idx m)) st)
      else if bc = BC_POP_ARGUMENT \<or> bc = BC_PUSH_ARGUMENT then inline_argument bcs i bc st
      else if bc = BC_INC_FIELD \<or> bc = BC_INC_FIELD_PUSH then
        res_bind (byte_at bcs (i + 1)) (\<lambda>idx. emit (\<lambda>m. Inr (Emit2 bc idx (if bc = BC_INC_FIELD then 0 else 1) m)) st)
      else if bc = BC_PUSH_LOCAL \<or> bc = BC_POP_LOCAL then inline_local bcs scope i bc st
      else if bc = BC_PUSH_LOCAL_0 \<or> bc = BC_PUSH_LOCAL_1 \<or> bc = BC_PUSH_LOCAL_2 then
        res_bind (inlined_local scope (unat (bc - BC_PUSH_LOCAL_0)) st) (\<lambda>newIdx. emit (EmitPUSHLOCAL (unat newIdx) 0) st)
      else if bc = BC_POP_LOCAL_0 \<or> bc = BC_POP_LOCAL_1 \<or> bc = BC_POP_LOCAL_2 then
        res_bind (inlined_local scope (unat (bc - BC_POP_LOCAL_0)) st) (\<lambda>newIdx. emit (EmitPOPLOCAL (unat newIdx) 0) st)
      else if bc = BC_PUSH_ARG_1 \<or> bc = BC_PUSH_ARG_2 then
        res_bind (GetArgument (i_scopes st) scope (if bc = BC_PUSH_ARG_1 then 1 else 2) 0) (\<lambda>arg.
        res_bind (GetInlinedLocalIdx arg (i_mgenc st)) (\<lambda>newIdx. emit (EmitPUSHLOCAL (unat newIdx) 0) st))
      else if bc = BC_PUSH_BLOCK then inline_block outers bcs i st
      else if bc = BC_PUSH_CONSTANT then
        res_bind (GetConstant_lit bcs (i_literals st) i) (\<lambda>(_, lit). emit (EmitPUSHCONSTANT lit) st)
      else if bc = BC_PUSH_CONSTANT_0 \<or> bc = BC_PUSH_CONSTANT_1 \<or> bc = BC_PUSH_CONSTANT_2 then
        inline_constant (unat (bc - BC_PUSH_CONSTANT_0)) st
      else if bc = BC_PUSH_0 \<or> bc = BC_PUSH_1 \<or> bc = BC_PUSH_NIL then emit (\<lambda>m. Inr (Emit1 bc 1 m)) st
      else if bc = BC_POP then emit EmitPOP st
      else if bc = BC_INC \<or> bc = BC_DEC then emit (\<lambda>m. Inr (Emit1 bc 0 m)) st
      else if bc = BC_PUSH_GLOBAL then inline_symbol bcs i EmitPUSHGLOBAL st
      else if bc \<in> {BC_SEND, BC_SEND_1, BC_SEND_2, BC_SEND_3, BC_SEND_N} then inline_symbol bcs i EmitSEND st
      else if bc = BC_SUPER_SEND then inline_symbol bcs i EmitSUPERSEND st
      else if bc = BC_RETURN_LOCAL then Inr st
      else if bc = BC_RETURN_NON_LOCAL then
        (if blockMethod (i_mgenc st) then
           (if maxContextLevel (i_mgenc st) = 0 then Inl (AssertFailed ''mgenc.GetMaxContextLevel() > 0'')
            else emit (\<lambda>m. Inr (EmitRETURNNONLOCAL m)) st)
         else emit EmitRETURNLOCAL st)
      else if bc = BC_RETURN_FIELD_0 \<or> bc = BC_RETURN_FIELD_1 \<or> bc = BC_RETURN_FIELD_2 then
        emit (\<lambda>m. Inr (EmitPushFieldWithIndex (bc - BC_RETURN_FIELD_0) m)) st
      else if bc \<in> set plain_jumps then inline_jump bcs i bc 0 st
      else if bc \<in> set popping_jumps then inline_jump bcs i bc (-1) st
      else if bc = BC_JUMP_BACKWARD \<or> bc = BC_JUMP2_BACKWARD then inline_back_jump i st
      else if bc = BC_HALT \<or> bc = BC_PUSH_SELF \<or> bc = BC_RETURN_SELF then
        Inl (ErrorExit ''inlineInto: not expected in a block method'')
      else Inl (ErrorExit ''inlineInto: inlining of it is not yet supported.''))"

text \<open>The loop over the instructions, again with the number of bytes as fuel.\<close>

fun inlineInto_loop :: "mgenc list \<Rightarrow> byte list \<Rightarrow> nat option \<Rightarrow> nat \<Rightarrow> nat \<Rightarrow> inlining \<Rightarrow> inlining res" where
  "inlineInto_loop outers bcs scope 0 i st = (if i < length bcs then Inl (Undefined ''fuel'') else Inr st)"
| "inlineInto_loop outers bcs scope (Suc n) i st =
     (if i < length bcs then
        res_bind (prepareBackJumpToCurrentAddress (i_backJumps st) (i_backJumpsToPatch st) i (i_mgenc st)) (\<lambda>(backJumps, toPatch).
        res_bind (patchJumpToCurrentAddress i (i_jumps st) (i_mgenc st)) (\<lambda>(jumps, m).
        res_bind (inline_instr outers bcs scope i (bcs ! i)
                   (st\<lparr>i_mgenc := m, i_jumps := jumps, i_backJumps := backJumps, i_backJumpsToPatch := toPatch\<rparr>)) (\<lambda>st1.
          inlineInto_loop outers bcs scope n (i + GetBytecodeLength (bcs ! i)) st1)))
      else Inr st)"

definition createBackJumpHeap :: "(nat \<times> nat) list \<Rightarrow> (nat \<times> nat) list" where
  "createBackJumpHeap loops = fold (insort_key fst) loops []"

definition inlineInto :: "mgenc list \<Rightarrow> byte list \<Rightarrow> literal list \<Rightarrow> nat option \<Rightarrow> (nat \<times> nat) list \<Rightarrow> mgenc \<Rightarrow> scopes \<Rightarrow>
    (mgenc \<times> scopes) res" where
  "inlineInto outers bcs lits scope loops m scs =
     res_bind (inlineInto_loop outers bcs scope (length bcs) 0
                \<lparr>i_mgenc = m, i_scopes = scs, i_literals = lits, i_jumps = [], i_backJumps = createBackJumpHeap loops,
                 i_backJumpsToPatch = []\<rparr>) (\<lambda>st.
       if i_jumps st \<noteq> [] then Inl (AssertFailed ''jumps.empty()'') else Inr (i_mgenc st, i_scopes st))"

fun InlineInto :: "mgenc list \<Rightarrow> invokable \<Rightarrow> bool \<Rightarrow> mgenc \<Rightarrow> scopes \<Rightarrow> (mgenc \<times> scopes) res" where
  "InlineInto outers (VMMethod sig bcs lits nl mx scope loops) mergeScope m scs =
     res_bind (if mergeScope then MergeIntoScope scope m scs else Inr (m, scs)) (\<lambda>(m1, scs1).
       inlineInto outers bcs lits scope loops m1 scs1)"
| "InlineInto outers (VMLiteralReturn sig args lit) mergeScope m scs =
     res_bind (EmitPUSHCONSTANT lit m) (\<lambda>m1. Inr (m1, scs))"
| "InlineInto outers (VMGlobalReturn sig args globalName) mergeScope m scs =
     res_bind (EmitPUSHGLOBAL globalName m) (\<lambda>m1. Inr (m1, scs))"
| "InlineInto outers (VMGetter sig args fieldIndex) mergeScope m scs =
     Inr (EmitPushFieldWithIndex (of_nat fieldIndex) m, scs)"
| "InlineInto outers (VMSetter sig args fieldIndex argIndex) mergeScope m scs =
     Inl (ErrorExit ''We do not currently support blocks for trivial setters'')"
| "InlineInto outers (VMPrimitive sig isClassSide) mergeScope m scs =
     Inl (ErrorExit ''VMPrimitive::InlineInto is not supported, and should not be reached'')"

fun inv_arguments :: "invokable \<Rightarrow> Variable list" where
  "inv_arguments (VMLiteralReturn sig args lit) = args"
| "inv_arguments (VMGlobalReturn sig args globalName) = args"
| "inv_arguments (VMGetter sig args fieldIndex) = args"
| "inv_arguments (VMSetter sig args fieldIndex argIndex) = args"
| "inv_arguments _ = []"

definition MergeScopeInto :: "invokable \<Rightarrow> mgenc \<Rightarrow> scopes \<Rightarrow> (mgenc \<times> scopes) res" where
  "MergeScopeInto blk m scs =
     (case blk of
        VMMethod sig bcs lits nl mx scope loops \<Rightarrow> MergeIntoScope scope m scs
      | _ \<Rightarrow> InlineAsLocals (inv_arguments blk) m scs)"

definition inv_GetArgument :: "scopes \<Rightarrow> invokable \<Rightarrow> nat \<Rightarrow> Variable res" where
  "inv_GetArgument scs blk index =
     (case blk of
        VMMethod sig bcs lits nl mx scope loops \<Rightarrow> GetArgument scs scope index 0
      | VMPrimitive sig isClassSide \<Rightarrow> Inl (ErrorExit ''not supported on anything but VMMethods'')
      | _ \<Rightarrow> if index < length (inv_arguments blk) then Inr (inv_arguments blk ! index) else Inl (ErrorExit ''vector::at''))"

subsection \<open>Inlined messages\<close>

definition hasOneLiteralBlockArgument :: "mgenc \<Rightarrow> bool" where
  "hasOneLiteralBlockArgument m \<longleftrightarrow> LastBytecodeIs 0 BC_PUSH_BLOCK m"

definition hasTwoLiteralBlockArguments :: "mgenc \<Rightarrow> bool" where
  "hasTwoLiteralBlockArguments m \<longleftrightarrow> LastBytecodeIs 0 BC_PUSH_BLOCK m \<and> LastBytecodeIs 1 BC_PUSH_BLOCK m"

definition getLastBlockMethodAndFreeLiteral :: "byte \<Rightarrow> mgenc \<Rightarrow> (invokable \<times> mgenc) res" where
  "getLastBlockMethodAndFreeLiteral blockLiteralIdx m =
     (if literals m = [] \<or> unat blockLiteralIdx \<noteq> length (literals m) - 1
      then Inl (AssertFailed ''blockLiteralIdx == literals.size() - 1'')
      else case last (literals m) of
        LBlock a blk \<Rightarrow> Inr (blk, m\<lparr>literals := butlast (literals m)\<rparr>)
      | _ \<Rightarrow> Inl (Undefined ''(VMInvokable*)literals.back()''))"

text \<open>The operand \<open>k\<close> bytes before the end of the code.\<close>

definition byte_from_end :: "nat \<Rightarrow> mgenc \<Rightarrow> byte res" where
  "byte_from_end k m =
     (if k \<le> length (bytecode m) then Inr (bytecode m ! (length (bytecode m) - k)) else Inl (ErrorExit ''vector::at''))"

definition extractBlockMethodAndRemoveBytecode :: "mgenc \<Rightarrow> (invokable \<times> mgenc) res" where
  "extractBlockMethodAndRemoveBytecode m =
     res_bind (byte_from_end 1 m) (\<lambda>blockLitIdx.
     res_bind (getLastBlockMethodAndFreeLiteral blockLitIdx m) (\<lambda>(toBeInlined, m1).
     res_bind (removeLastBytecodes 1 m1) (\<lambda>m2. Inr (toBeInlined, m2))))"

definition extractBlockMethodsAndRemoveBytecodes :: "mgenc \<Rightarrow> (invokable \<times> invokable \<times> mgenc) res" where
  "extractBlockMethodsAndRemoveBytecodes m =
     res_bind (byte_from_end 3 m) (\<lambda>block1LitIdx.
     res_bind (byte_from_end 1 m) (\<lambda>block2LitIdx.
     res_bind (getLastBlockMethodAndFreeLiteral block2LitIdx m) (\<lambda>(toBeInlined2, m1).
     res_bind (getLastBlockMethodAndFreeLiteral block1LitIdx m1) (\<lambda>(toBeInlined1, m2).
     res_bind (removeLastBytecodes 2 m2) (\<lambda>m3. Inr (toBeInlined1, toBeInlined2, m3))))))"

definition inlining_flag :: "bool \<Rightarrow> mgenc \<Rightarrow> mgenc" where
  "inlining_flag b m = m\<lparr>isCurrentlyInliningABlock := b\<rparr>"

text \<open>Each answers whether the message was inlined. The first one leaves the flag set.\<close>

definition InlineThenBranch :: "JumpCondition \<Rightarrow> mgenc list \<Rightarrow> mgenc \<Rightarrow> scopes \<Rightarrow> (bool \<times> mgenc \<times> scopes) res" where
  "InlineThenBranch condition outers m scs =
     (if \<not> hasOneLiteralBlockArgument m then Inr (False, m, scs)
      else
        res_bind (extractBlockMethodAndRemoveBytecode m) (\<lambda>(toBeInlined, m1).
        case EmitJumpOnWithDummyOffset condition False m1 of (jumpOffsetIdxToSkipBody, m2) \<Rightarrow>
        res_bind (InlineInto outers toBeInlined True (inlining_flag True m2) scs) (\<lambda>(m3, scs1).
        res_bind (PatchJumpOffsetToPointToNextInstruction jumpOffsetIdxToSkipBody m3) (\<lambda>m4.
          Inr (True, resetLastBytecodeBuffer m4, scs1)))))"

definition InlineThenElseBranches :: "JumpCondition \<Rightarrow> mgenc list \<Rightarrow> mgenc \<Rightarrow> scopes \<Rightarrow> (bool \<times> mgenc \<times> scopes) res" where
  "InlineThenElseBranches condition outers m scs =
     (if \<not> hasTwoLiteralBlockArguments m then Inr (False, m, scs)
      else
        res_bind (extractBlockMethodsAndRemoveBytecodes m) (\<lambda>(condMethod, bodyMethod, m1).
        case EmitJumpOnWithDummyOffset condition True m1 of (jumpOffsetIdxToSkipTrueBranch, m2) \<Rightarrow>
        res_bind (InlineInto outers condMethod True (inlining_flag True m2) scs) (\<lambda>(m3, scs1).
        case EmitJumpWithDumyOffset m3 of (jumpOffsetIdxToSkipFalseBranch, m4) \<Rightarrow>
        res_bind (PatchJumpOffsetToPointToNextInstruction jumpOffsetIdxToSkipTrueBranch m4) (\<lambda>m5.
        res_bind (InlineInto outers bodyMethod True (resetLastBytecodeBuffer m5) scs1) (\<lambda>(m6, scs2).
        res_bind (PatchJumpOffsetToPointToNextInstruction jumpOffsetIdxToSkipFalseBranch (inlining_flag False m6)) (\<lambda>m7.
          Inr (True, resetLastBytecodeBuffer m7, scs2)))))))"

definition InlineWhile :: "bool \<Rightarrow> mgenc list \<Rightarrow> mgenc \<Rightarrow> scopes \<Rightarrow> (bool \<times> mgenc \<times> scopes) res" where
  "InlineWhile isWhileTrue outers m scs =
     (if \<not> hasTwoLiteralBlockArguments m then Inr (False, m, scs)
      else
        res_bind (extractBlockMethodsAndRemoveBytecodes m) (\<lambda>(condMethod, bodyMethod, m1).
        let loopBeginIdx = OffsetOfNextInstruction m1 in
        res_bind (InlineInto outers condMethod True (inlining_flag True m1) scs) (\<lambda>(m2, scs1).
        case EmitJumpOnWithDummyOffset (if isWhileTrue then ON_FALSE else ON_TRUE) True m2 of (jumpOffsetIdxToSkipLoopBody, m3) \<Rightarrow>
        res_bind (InlineInto outers bodyMethod True m3 scs1) (\<lambda>(m4, scs2).
        res_bind (completeJumpsAndEmitReturningNil loopBeginIdx jumpOffsetIdxToSkipLoopBody m4) (\<lambda>m5.
          Inr (True, inlining_flag False m5, scs2))))))"

definition InlineAndOr :: "bool \<Rightarrow> mgenc list \<Rightarrow> mgenc \<Rightarrow> scopes \<Rightarrow> (bool \<times> mgenc \<times> scopes) res" where
  "InlineAndOr isOr outers m scs =
     (if \<not> hasOneLiteralBlockArgument m then Inr (False, m, scs)
      else
        res_bind (extractBlockMethodAndRemoveBytecode m) (\<lambda>(toBeInlined, m1).
        case EmitJumpOnWithDummyOffset (if isOr then ON_TRUE else ON_FALSE) True m1 of (jumpOffsetIdxToSkipBranch, m2) \<Rightarrow>
        res_bind (InlineInto outers toBeInlined True (inlining_flag True m2) scs) (\<lambda>(m3, scs1).
        case EmitJumpWithDumyOffset (inlining_flag False m3) of (jumpOffsetIdxToSkipPushTrue, m4) \<Rightarrow>
        res_bind (PatchJumpOffsetToPointToNextInstruction jumpOffsetIdxToSkipBranch m4) (\<lambda>m5.
        res_bind (EmitPUSHCONSTANT (if isOr then LTrue else LFalse) m5) (\<lambda>m6.
        res_bind (PatchJumpOffsetToPointToNextInstruction jumpOffsetIdxToSkipPushTrue m6) (\<lambda>m7.
          Inr (True, resetLastBytecodeBuffer m7, scs1)))))))"

definition InlineToDo :: "mgenc list \<Rightarrow> mgenc \<Rightarrow> scopes \<Rightarrow> (bool \<times> mgenc \<times> scopes) res" where
  "InlineToDo outers m scs =
     (if \<not> hasOneLiteralBlockArgument m then Inr (False, m, scs)
      else
        res_bind (extractBlockMethodAndRemoveBytecode m) (\<lambda>(toBeInlined, m1).
        res_bind (MergeScopeInto toBeInlined m1 scs) (\<lambda>(m2, scs1).
        res_bind (inv_GetArgument scs1 toBeInlined 1) (\<lambda>blockArg.
        res_bind (GetInlinedLocalIdx blockArg m2) (\<lambda>iVarIdx.
        let m3 = EmitDupSecond (inlining_flag True m2); loopBeginIdx = OffsetOfNextInstruction m3 in
        case EmitJumpIfGreaterWithDummyOffset m3 of (jumpOffsetIdxToEnd, m4) \<Rightarrow>
        res_bind (EmitPOPLOCAL (unat iVarIdx) 0 (EmitDUP m4)) (\<lambda>m5.
        res_bind (InlineInto outers toBeInlined False m5 scs1) (\<lambda>(m6, scs2).
        res_bind (EmitPOP m6) (\<lambda>m7.
        res_bind (EmitBackwardsJumpOffsetToTarget loopBeginIdx (EmitINC m7)) (\<lambda>m8.
        res_bind (PatchJumpOffsetToPointToNextInstruction jumpOffsetIdxToEnd m8) (\<lambda>m9.
          Inr (True, inlining_flag False m9, scs2)))))))))))"

end
