(* ===== verification/Inlining_Props.thy ===== *)
theory Inlining_Props
  imports Inlining
begin

text \<open>
  Inlining a block keeps the code of a method a sequence of whole instructions. While a block is inlined the buffer
  of the last bytecodes may be out of step with the code, since the push of the block is removed without it; the
  optimisations are off, so every emission appends instructions. Pending jumps stay jump instructions until they are
  patched. Adapting a nested block changes its operands but no instruction boundary.
\<close>

subsection \<open>Well-formed invokables\<close>

definition wf_code :: "byte list \<Rightarrow> bool" where
  "wf_code bcs \<longleftrightarrow> (\<exists>is. list_all wf_instr is \<and> bcs = concat is)"

fun method_ok :: "invokable \<Rightarrow> bool" and lit_ok :: "literal \<Rightarrow> bool" where
  "method_ok (VMMethod sig bcs lits nl mx scope loops) \<longleftrightarrow> wf_code bcs \<and> list_all lit_ok lits"
| "method_ok (VMLiteralReturn sig args lit) \<longleftrightarrow> lit_ok lit"
| "method_ok (VMGlobalReturn sig args g) \<longleftrightarrow> True"
| "method_ok (VMGetter sig args i) \<longleftrightarrow> True"
| "method_ok (VMSetter sig args i j) \<longleftrightarrow> True"
| "method_ok (VMPrimitive sig c) \<longleftrightarrow> True"
| "lit_ok (LBlock a blk) \<longleftrightarrow> method_ok blk"
| "lit_ok (LInt i) \<longleftrightarrow> True"
| "lit_ok (LSym s) \<longleftrightarrow> True"
| "lit_ok LNil \<longleftrightarrow> True"
| "lit_ok LTrue \<longleftrightarrow> True"
| "lit_ok LFalse \<longleftrightarrow> True"
| "lit_ok (LObj a) \<longleftrightarrow> True"

definition lits_ok :: "mgenc \<Rightarrow> bool" where
  "lits_ok m \<longleftrightarrow> list_all lit_ok (literals m)"

subsection \<open>Code with a partly valid buffer\<close>

text \<open>The code is the instructions \<open>is\<close>, and the \<open>n\<close> most recent entries of the buffer are right.\<close>

definition bparsed :: "nat \<Rightarrow> mgenc \<Rightarrow> byte list list \<Rightarrow> bool" where
  "bparsed n m is \<longleftrightarrow> bytecode m = concat is \<and> list_all wf_instr is \<and> length (last4Bytecodes m) = 4
     \<and> l4m (take n (rev (last4Bytecodes m))) (rev (map hd is))"

lemma bparsed_parsed: "4 \<le> n \<Longrightarrow> bparsed n m is \<longleftrightarrow> parsed m is"
  by (auto simp: bparsed_def parsed_def)

lemma l4m_take: "l4m bs ops \<Longrightarrow> l4m (take n bs) ops"
proof (induction bs ops arbitrary: n rule: l4m.induct)
  case (2 b bs ops)
  then show ?case by (cases n) (auto simp: l4m.simps list_all_iff dest: in_set_takeD split: if_splits list.splits)
qed simp

lemma bparsed_mono: "bparsed n m is \<Longrightarrow> k \<le> n \<Longrightarrow> bparsed k m is"
  using l4m_take[of "take n (rev (last4Bytecodes m))" "rev (map hd is)" k]
  by (auto simp: bparsed_def min_def)

lemma bparsed_reset: "bparsed n m is \<Longrightarrow> parsed (resetLastBytecodeBuffer m) is"
  by (simp add: bparsed_def parsed_def resetLastBytecodeBuffer_def)

lemma bparsed_cong:
  "bytecode m' = bytecode m \<Longrightarrow> last4Bytecodes m' = last4Bytecodes m \<Longrightarrow> bparsed n m' is \<longleftrightarrow> bparsed n m is"
  by (simp add: bparsed_def)

lemma take_commute: "take n [e, c, b] = take 3 (take n [e, c, b, a])"
proof -
  have "[e, c, b] = take 3 [e, c, b, a]" by simp
  then show ?thesis by (simp only: take_take min.commute)
qed

lemma bparsed_emit:
  assumes "bparsed n m is" "wf_instr (bc # args)" "bytecode m' = bytecode m @ bc # args"
    "last4Bytecodes m' = [last4Bytecodes m ! 1, last4Bytecodes m ! 2, last4Bytecodes m ! 3, bc]"
  shows "bparsed (Suc n) m' (is @ [bc # args])"
proof -
  have "length (last4Bytecodes m) = 4" using assms(1) by (simp add: bparsed_def)
  then obtain a b c e where l: "last4Bytecodes m = [a, b, c, e]" by (rule last4_cases)
  have "l4m (take n [e, c, b, a]) (rev (map hd is))" using assms(1) l by (simp add: bparsed_def)
  then have "l4m (take n [e, c, b]) (rev (map hd is))"
    using l4m_take[of "take n [e, c, b, a]" "rev (map hd is)" 3] by (simp only: take_commute[of n e c b a])
  then show ?thesis
    using assms l valid_not_invalid[OF assms(2)] by (auto simp: bparsed_def list_all_iff)
qed

subsection \<open>Emissions that append\<close>

definition extends :: "byte list list \<Rightarrow> mgenc \<Rightarrow> mgenc \<Rightarrow> bool" where
  "extends js m m' \<longleftrightarrow> (\<forall>n is. bparsed n m is \<longrightarrow> bparsed (n + length js) m' (is @ js))
     \<and> isCurrentlyInliningABlock m' = isCurrentlyInliningABlock m \<and> finished m' = finished m \<and> (lits_ok m \<longrightarrow> lits_ok m')"

lemma extends_refl: "extends [] m m"
  by (simp add: extends_def)

lemma extends_trans: "extends js m m1 \<Longrightarrow> extends ks m1 m2 \<Longrightarrow> extends (js @ ks) m m2"
  unfolding extends_def by (simp add: add.assoc[symmetric]) (metis append.assoc)

named_theorems appends

lemma extends_AddBytecode:
  "wf_instr [bc] \<Longrightarrow> extends [[bc]] m (Emit1 bc e m)"
  "wf_instr [bc, x] \<Longrightarrow> extends [[bc, x]] m (Emit2 bc x e m)"
  "wf_instr [bc, x, y] \<Longrightarrow> extends [[bc, x, y]] m (Emit3 bc x y e m)"
  by (auto simp: extends_def lits_ok_def Emit1_def Emit2_def Emit3_def AddBytecode_def AddBytecodeArgument_def Let_def
      intro!: bparsed_emit)

lemma extends_lits: "bytecode m' = bytecode m \<Longrightarrow> last4Bytecodes m' = last4Bytecodes m \<Longrightarrow>
    isCurrentlyInliningABlock m' = isCurrentlyInliningABlock m \<Longrightarrow> finished m' = finished m \<Longrightarrow>
    (lits_ok m \<Longrightarrow> lits_ok m') \<Longrightarrow> extends [] m m'"
  using bparsed_cong[of m' m] by (simp add: extends_def)

lemma extends_AddLiteral: "AddLiteralIfAbsent lit m = Inr (idx, m') \<Longrightarrow> lit_ok lit \<Longrightarrow> extends [] m m'"
  by (rule extends_lits) (auto simp: AddLiteralIfAbsent_def AddLiteral_def Let_def lits_ok_def split: if_splits)

lemma extends_with_literal:
  assumes "AddLiteralIfAbsent lit m = Inr (idx, m1)" "lit_ok lit" "extends js m1 m2"
  shows "extends js m m2"
  using extends_trans[OF extends_AddLiteral[OF assms(1,2)] assms(3)] by simp

text \<open>Some instructions are appended.\<close>

definition grows :: "mgenc \<Rightarrow> mgenc \<Rightarrow> bool" where
  "grows m m' \<longleftrightarrow> (\<exists>js. js \<noteq> [] \<and> extends js m m')"

lemma grows_emit [simp]:
  "wf_instr [bc] \<Longrightarrow> grows m (Emit1 bc e m)"
  "wf_instr [bc, x] \<Longrightarrow> grows m (Emit2 bc x e m)"
  "wf_instr [bc, x, y] \<Longrightarrow> grows m (Emit3 bc x y e m)"
  using extends_AddBytecode unfolding grows_def by blast+

lemma grows_with_literal:
  "AddLiteralIfAbsent lit m = Inr (idx, m1) \<Longrightarrow> lit_ok lit \<Longrightarrow> grows m1 m2 \<Longrightarrow> grows m m2"
  using extends_with_literal unfolding grows_def by blast

lemma grows_field [simp]: "grows m (EmitPushFieldWithIndex idx m)" "grows m (EmitPopFieldWithIndex idx m)"
  by (simp_all add: EmitPushFieldWithIndex_def EmitPopFieldWithIndex_def)

lemma grows_local [appends]:
  "EmitPUSHLOCAL i c m = Inr m' \<Longrightarrow> grows m m'" "EmitPOPLOCAL i c m = Inr m' \<Longrightarrow> grows m m'"
  "EmitPUSHARGUMENT i c m = Inr m' \<Longrightarrow> grows m m'" "EmitPOPARGUMENT i c m = Inr m' \<Longrightarrow> grows m m'"
  by (auto simp: EmitPUSHLOCAL_def EmitPOPLOCAL_def EmitPUSHARGUMENT_def EmitPOPARGUMENT_def split: if_splits)

lemma grows_constant [appends]: "EmitPUSHCONSTANT lit m = Inr m' \<Longrightarrow> lit_ok lit \<Longrightarrow> grows m m'"
  by (auto simp: EmitPUSHCONSTANT_def split: if_splits intro: grows_with_literal)

lemma grows_block [appends]: "EmitPUSHBLOCK lit m = Inr m' \<Longrightarrow> lit_ok lit \<Longrightarrow> grows m m'"
  by (auto simp: EmitPUSHBLOCK_def intro: grows_with_literal)

lemma grows_global [appends]: "EmitPUSHGLOBAL g m = Inr m' \<Longrightarrow> grows m m'"
  by (auto simp: EmitPUSHGLOBAL_def split: if_splits dest: grows_constant intro: grows_with_literal)

lemma grows_send [appends]: "EmitSEND s m = Inr m' \<Longrightarrow> grows m m'" "EmitSUPERSEND s m = Inr m' \<Longrightarrow> grows m m'"
  by (auto simp: EmitSEND_def EmitSUPERSEND_def intro: grows_with_literal)

lemma grows_pop [appends]: "EmitPOP m = Inr m' \<Longrightarrow> isCurrentlyInliningABlock m \<Longrightarrow> grows m m'"
  by (auto simp: EmitPOP_def OptimizeDupPopPopSequence_def)

lemma grows_return [appends]: "EmitRETURNLOCAL m = Inr m' \<Longrightarrow> isCurrentlyInliningABlock m \<Longrightarrow> grows m m'"
  by (auto simp: EmitRETURNLOCAL_def OptimizeReturnField_def)

subsection \<open>Pending jumps\<close>

definition jump_at :: "byte list list \<Rightarrow> nat \<Rightarrow> bool" where
  "jump_at is idx \<longleftrightarrow> (\<exists>as j x y bs. is = as @ [j, x, y] # bs \<and> IsJumpBytecode j \<and> idx = length (concat as) + 1)"

lemma jump_at_append: "jump_at is idx \<Longrightarrow> jump_at (is @ js) idx"
  unfolding jump_at_def by (metis append.assoc append_Cons)

lemma jump_at_new: "IsJumpBytecode j \<Longrightarrow> jump_at (is @ [[j, x, y]]) (length (concat is) + 1)"
  unfolding jump_at_def by blast

text \<open>Replacing a jump by another one keeps all jumps where they are.\<close>

lemma jump_at_replace:
  assumes "jump_at (as @ [j, x, y] # bs) idx" "IsJumpBytecode j'"
  shows "jump_at (as @ [j', x', y'] # bs) idx"
proof -
  obtain cs k u v ds where c: "as @ [j, x, y] # bs = cs @ [k, u, v] # ds" "IsJumpBytecode k" "idx = length (concat cs) + 1"
    using assms(1) by (auto simp: jump_at_def)
  from c(1) consider "cs = as" | es where "cs = as @ [j, x, y] # es" "bs = es @ [k, u, v] # ds"
    | es where "as = cs @ [k, u, v] # es" "ds = es @ [j, x, y] # bs"
    by (auto simp: append_eq_append_conv2 append_eq_Cons_conv Cons_eq_append_conv)
  then show ?thesis
  proof cases
    case 1
    then show ?thesis using c(3) assms(2) unfolding jump_at_def by blast
  next
    case (2 es)
    then have "as @ [j', x', y'] # bs = (as @ [j', x', y'] # es) @ [k, u, v] # ds" by simp
    moreover have "idx = length (concat (as @ [j', x', y'] # es)) + 1" using c(3) 2 by simp
    ultimately show ?thesis using c(2) unfolding jump_at_def by blast
  next
    case (3 es)
    then have "as @ [j', x', y'] # bs = cs @ [k, u, v] # es @ [j', x', y'] # bs" by simp
    then show ?thesis using c(2,3) unfolding jump_at_def by blast
  qed
qed

lemma Patch_bparsed:
  assumes "bparsed n m is" "jump_at is idx" "PatchJumpOffsetToPointToNextInstruction idx m = Inr m'"
  obtains is' where "bparsed n m' is'" "\<And>k. jump_at is k \<Longrightarrow> jump_at is' k" "m' = m\<lparr>bytecode := bytecode m'\<rparr>"
proof -
  obtain as j x y bs where s: "is = as @ [j, x, y] # bs" "IsJumpBytecode j" "idx = length (concat as) + 1"
    using assms(2) by (auto simp: jump_at_def)
  let ?off = "3 + length (concat bs)"
  let ?j = "if ?off \<le> 255 then j else wide_jump j"
  let ?i = "[?j, of_nat (?off mod 256), of_nat (?off div 256)]"
  have bc: "bytecode m = concat as @ j # x # y # concat bs" and wf: "list_all wf_instr (as @ bs)"
    and l4: "length (last4Bytecodes m) = 4" "l4m (take n (rev (last4Bytecodes m))) (rev (map hd (as @ [j, x, y] # bs)))"
    using assms(1) s(1) by (auto simp: bparsed_def)
  have m': "m' = m\<lparr>bytecode := concat as @ ?i @ concat bs\<rparr>"
    using assms(3) bc s(3)
    by (auto simp: PatchJumpOffsetToPointToNextInstruction_def checkJumpOffset_def Let_def wide_jump_def nth_append
        list_update_append split: if_splits)
  have j: "IsJumpBytecode ?j" using s(2) wide_jump by simp
  have "l4m (take n (rev (last4Bytecodes m))) (rev (map hd (as @ ?i # bs)))"
  proof (cases "?off \<le> 255")
    case True
    then show ?thesis using l4(2) by simp
  next
    case False
    have "length (concat bs) \<le> 3 * length bs" using wf by (intro instrs_count) simp
    then have "4 \<le> length bs" using False by simp
    then show ?thesis using l4 by (intro l4m_replace_old[OF l4(2)]) simp
  qed
  then have "bparsed n m' (as @ ?i # bs)" using m' wf l4(1) j by (simp add: bparsed_def)
  moreover have "jump_at is k \<Longrightarrow> jump_at (as @ ?i # bs) k" for k using jump_at_replace[OF _ j] s(1) by blast
  ultimately show ?thesis using that m' by simp
qed

lemma dummy_jumps:
  "EmitJumpOnWithDummyOffset c p m = (length (bytecode m) + 1, Emit3 (jump_bytecode c p) 0 0 (if p then -1 else 0) m)"
  "EmitJumpWithDumyOffset m = (length (bytecode m) + 1, Emit3 BC_JUMP 0 0 0 m)"
  "EmitJumpIfGreaterWithDummyOffset m = (length (bytecode m) + 1, Emit3 BC_JUMP_IF_GREATER 0 0 0 m)"
  "Emit3WithDummy bc e m = (length (bytecode m) + 1, Emit3 bc 0 0 e m)"
  by (simp_all add: EmitJumpOnWithDummyOffset_def EmitJumpWithDumyOffset_def EmitJumpIfGreaterWithDummyOffset_def
      Emit3WithDummy_def AddBytecodeArgumentAndGetIndex_def Emit1_def Emit3_def AddBytecode_def Let_def)

lemma jump_bytecode_jump [simp]: "IsJumpBytecode (jump_bytecode c p)"
  by (simp add: jump_bytecode_def IsJumpBytecode_def split: JumpCondition.split)

lemma grows_back_jump: "EmitBackwardsJumpOffsetToTarget b m = Inr m' \<Longrightarrow> grows m m'"
proof -
  assume "EmitBackwardsJumpOffsetToTarget b m = Inr m'"
  then obtain bc x y l where m': "m' = (Emit3 bc x y 0 m)\<lparr>inlinedLoops := l\<rparr>" "IsJumpBytecode bc"
    by (auto simp: EmitBackwardsJumpOffsetToTarget_def Let_def EmitJumpBackwardWithOffset_def IsJumpBytecode_def split: if_splits)
  have "extends [[bc, x, y]] m (Emit3 bc x y 0 m)" using m'(2) by (intro extends_AddBytecode) simp
  moreover have "extends [] (Emit3 bc x y 0 m) m'" unfolding m'(1) by (rule extends_lits) (simp_all add: lits_ok_def)
  ultimately show ?thesis using extends_trans unfolding grows_def by fastforce
qed

subsection \<open>Adapting nested blocks\<close>

text \<open>The instruction that starts at a position, and changes to its bytes.\<close>

definition boundary :: "byte list \<Rightarrow> nat \<Rightarrow> bool" where
  "boundary bcs i \<longleftrightarrow> (\<exists>as bs. list_all wf_instr as \<and> list_all wf_instr bs \<and> bcs = concat as @ concat bs \<and> i = length (concat as))"

lemma boundary_wf: "boundary bcs i \<Longrightarrow> wf_code bcs"
  unfolding boundary_def wf_code_def by (metis concat_append list_all_append)

lemma boundary_0: "wf_code bcs \<Longrightarrow> boundary bcs 0"
  unfolding boundary_def wf_code_def by (metis append_Nil concat.simps(1) list.size(3) list.pred_inject(1))

lemma boundary_instr:
  assumes "boundary bcs i" "i < length bcs"
  obtains as p bs where "list_all wf_instr as" "list_all wf_instr bs" "wf_instr p" "bcs = concat as @ p @ concat bs"
    "i = length (concat as)" "bcs ! i = hd p" "GetBytecodeLength (bcs ! i) = length p"
proof -
  obtain as bs where b: "list_all wf_instr as" "list_all wf_instr bs" "bcs = concat as @ concat bs" "i = length (concat as)"
    using assms(1) by (auto simp: boundary_def)
  with assms(2) obtain p bs' where "bs = p # bs'" by (cases bs) auto
  with b that[of as bs' p] show ?thesis by (auto simp: wf_instr_def nth_append hd_conv_nth)
qed

text \<open>Bytes \<open>i\<close> to \<open>i + 2\<close> may change when they are a whole instruction and stay one.\<close>

lemma boundary_update3:
  assumes "boundary bcs i" "i < length bcs" "bcs ! i = bc" "GetBytecodeLength bc = 3" "valid_opcode bc'" "GetBytecodeLength bc' = 3"
    "bcs' = take i bcs @ [bc', x, y] @ drop (i + 3) bcs"
  shows "boundary bcs' (i + 3)"
proof -
  obtain as p bs where b: "list_all wf_instr as" "list_all wf_instr bs" "bcs = concat as @ p @ concat bs"
    "i = length (concat as)" "length p = 3"
    using boundary_instr[OF assms(1,2)] assms(3,4) by metis
  have "bcs' = concat (as @ [[bc', x, y]]) @ concat bs" using assms(7) b by simp
  moreover have "list_all wf_instr (as @ [[bc', x, y]])" using b(1) assms(5,6) by simp
  ultimately show ?thesis using b(2,4) unfolding boundary_def by fastforce
qed

lemma boundary_next: "boundary bcs i \<Longrightarrow> i < length bcs \<Longrightarrow> boundary bcs (i + GetBytecodeLength (bcs ! i))"
proof -
  assume "boundary bcs i" "i < length bcs"
  then obtain as p bs where b: "list_all wf_instr as" "list_all wf_instr bs" "wf_instr p" "bcs = concat as @ p @ concat bs"
    "i = length (concat as)" "GetBytecodeLength (bcs ! i) = length p"
    by (metis boundary_instr)
  then have "bcs = concat (as @ [p]) @ concat bs" "list_all wf_instr (as @ [p])" by auto
  then show ?thesis using b unfolding boundary_def by fastforce
qed

lemma three_bytes:
  assumes "i + 2 < length bcs"
  shows "bcs = take i bcs @ [bcs ! i, bcs ! (i + 1), bcs ! (i + 2)] @ drop (i + 3) bcs"
    and "bcs[i + 2 := c] = take i bcs @ [bcs ! i, bcs ! (i + 1), c] @ drop (i + 3) bcs"
    and "bcs[i := a, i + 1 := b] = take i bcs @ [a, b, bcs ! (i + 2)] @ drop (i + 3) bcs"
    and "bcs[i + 2 := c, i := a, i + 1 := b] = take i bcs @ [a, b, c] @ drop (i + 3) bcs"
    and "bcs[i + 1 := b] = take i bcs @ [bcs ! i, b, bcs ! (i + 2)] @ drop (i + 3) bcs"
proof -
  show 1: "bcs = take i bcs @ [bcs ! i, bcs ! (i + 1), bcs ! (i + 2)] @ drop (i + 3) bcs"
    using assms id_take_nth_drop[of i bcs] Cons_nth_drop_Suc[of "i + 1" bcs] Cons_nth_drop_Suc[of "i + 2" bcs]
    by (simp add: numeral_eq_Suc)
  have "length (take i bcs) = i" using assms by simp
  then show "bcs[i + 2 := c] = take i bcs @ [bcs ! i, bcs ! (i + 1), c] @ drop (i + 3) bcs"
    "bcs[i := a, i + 1 := b] = take i bcs @ [a, b, bcs ! (i + 2)] @ drop (i + 3) bcs"
    "bcs[i + 2 := c, i := a, i + 1 := b] = take i bcs @ [a, b, c] @ drop (i + 3) bcs"
    "bcs[i + 1 := b] = take i bcs @ [bcs ! i, b, bcs ! (i + 2)] @ drop (i + 3) bcs"
    by (subst 1, simp add: list_update_append)+
qed

lemma byte_at_Inr: "byte_at bcs i = Inr b \<longleftrightarrow> i < length bcs \<and> b = bcs ! i"
  by (auto simp: byte_at_def)

lemma adapt_argument_boundary:
  assumes "adapt_argument removed gens scope scs i bcs = Inr bcs1" "boundary bcs i"
    "bcs ! i = BC_PUSH_ARGUMENT \<or> bcs ! i = BC_POP_ARGUMENT"
  shows "boundary bcs1 (i + 3)"
proof -
  have i: "i < length bcs" "i + 2 < length bcs" using assms(1) by (auto simp: adapt_argument_def byte_at_Inr)
  have "\<exists>bc x y. (bc = bcs ! i \<or> bc = BC_PUSH_LOCAL \<or> bc = BC_POP_LOCAL) \<and> bcs1 = take i bcs @ [bc, x, y] @ drop (i + 3) bcs"
  proof -
    have "bcs1 = bcs \<or> (\<exists>c. bcs1 = bcs[i + 2 := c]) \<or> (\<exists>a b. (a = BC_PUSH_LOCAL \<or> a = BC_POP_LOCAL) \<and>
        (bcs1 = bcs[i := a, i + 1 := b] \<or> (\<exists>c. bcs1 = bcs[i + 2 := c, i := a, i + 1 := b])))"
      using assms(1) by (auto simp: adapt_argument_def byte_at_Inr Let_def split: if_splits) blast+
    then show ?thesis using three_bytes(1-4)[OF i(2)] by metis
  qed
  then obtain bc x y where b: "bc = bcs ! i \<or> bc = BC_PUSH_LOCAL \<or> bc = BC_POP_LOCAL"
    "bcs1 = take i bcs @ [bc, x, y] @ drop (i + 3) bcs" by blast
  show ?thesis by (rule boundary_update3[OF assms(2) i(1) refl _ _ _ b(2)]) (use assms(3) b(1) in auto)
qed

lemma adapt_local_boundary:
  assumes "adapt_local removed gens scope scs i bcs = Inr bcs1" "boundary bcs i" "bcs ! i = BC_PUSH_LOCAL \<or> bcs ! i = BC_POP_LOCAL"
  shows "boundary bcs1 (i + 3)"
proof -
  have i: "i < length bcs" "i + 2 < length bcs" using assms(1) by (auto simp: adapt_local_def byte_at_Inr)
  have "bcs1 = bcs \<or> (\<exists>c. bcs1 = bcs[i + 2 := c]) \<or> (\<exists>b. bcs1 = bcs[i + 1 := b])"
    using assms(1) by (auto simp: adapt_local_def byte_at_Inr split: if_splits list.splits) blast+
  then have "\<exists>x y. bcs1 = take i bcs @ [bcs ! i, x, y] @ drop (i + 3) bcs"
    using three_bytes(1,2,5)[OF i(2)] by metis
  then obtain x y where b: "bcs1 = take i bcs @ [bcs ! i, x, y] @ drop (i + 3) bcs" by blast
  show ?thesis by (rule boundary_update3[OF assms(2) i(1) refl _ _ _ b]) (use assms(3) in auto)
qed

lemma GetConstant_lit_ok:
  "GetConstant_lit bcs lits i = Inr (k, lit) \<Longrightarrow> list_all lit_ok lits \<Longrightarrow> lit_ok lit \<and> k < length lits"
  by (auto simp: GetConstant_lit_def list_all_length split: if_splits)

lemma adapt_instr_ok:
  assumes "adapt_instr adapt removed gens scope i bcs lits scs = Inr (bcs1, lits1, scs1)" "boundary bcs i" "list_all lit_ok lits"
    "\<And>r blk scs blk' scs'. method_ok blk \<Longrightarrow> adapt r blk scs = Inr (blk', scs') \<Longrightarrow> method_ok blk'"
  shows "boundary bcs1 (i + GetBytecodeLength (bcs ! i)) \<and> list_all lit_ok lits1"
proof -
  let ?bc = "bcs ! i"
  have i: "i < length bcs" using assms(1) by (auto simp: adapt_instr_def byte_at_Inr)
  note next_ = boundary_next[OF assms(2) i]
  consider (arg) "?bc = BC_PUSH_ARGUMENT \<or> ?bc = BC_POP_ARGUMENT" | (block) "?bc = BC_PUSH_BLOCK"
    | (local) "?bc = BC_PUSH_LOCAL \<or> ?bc = BC_POP_LOCAL"
    | (other) "?bc \<noteq> BC_PUSH_ARGUMENT" "?bc \<noteq> BC_POP_ARGUMENT" "?bc \<noteq> BC_PUSH_BLOCK" "?bc \<noteq> BC_PUSH_LOCAL" "?bc \<noteq> BC_POP_LOCAL"
    by blast
  then show ?thesis
  proof cases
    case arg
    then have "adapt_argument removed gens scope scs i bcs = Inr bcs1" "lits1 = lits"
      using assms(1) by (auto simp: adapt_instr_def byte_at_Inr no_context_bytecodes_def)
    then show ?thesis using adapt_argument_boundary[OF _ assms(2) arg] assms(3) arg by auto
  next
    case local
    then have "adapt_local removed gens scope scs i bcs = Inr bcs1" "lits1 = lits"
      using assms(1) by (auto simp: adapt_instr_def byte_at_Inr no_context_bytecodes_def)
    then show ?thesis using adapt_local_boundary[OF _ assms(2) local] assms(3) local by auto
  next
    case block
    then obtain k a blk blk' where k: "GetConstant_lit bcs lits i = Inr (k, LBlock a blk)" "adapt (removed + 1) blk scs = Inr (blk', scs1)"
      "lits1 = lits[k := LBlock a blk']" "bcs1 = bcs"
      using assms(1) by (auto simp: adapt_instr_def byte_at_Inr no_context_bytecodes_def
          split: literal.splits invokable.splits)
    have "method_ok blk" using GetConstant_lit_ok[OF k(1) assms(3)] by simp
    then have "method_ok blk'" using assms(4) k(2) by blast
    then show ?thesis using next_ assms(3) k(3,4) by (auto simp: list_all_iff dest!: set_update_subset_insert[THEN subsetD])
  next
    case other
    then have "bcs1 = bcs" "lits1 = lits" using assms(1) by (auto simp: adapt_instr_def byte_at_Inr split: if_splits)
    then show ?thesis using next_ assms(3) by simp
  qed
qed

lemma adapt_loop_ok:
  assumes "\<And>r blk scs blk' scs'. method_ok blk \<Longrightarrow> adapt r blk scs = Inr (blk', scs') \<Longrightarrow> method_ok blk'"
  shows "adapt_loop adapt removed gens scope n i bcs lits scs = Inr (bcs1, lits1, scs1) \<Longrightarrow> boundary bcs i \<Longrightarrow>
    list_all lit_ok lits \<Longrightarrow> wf_code bcs1 \<and> list_all lit_ok lits1"
proof (induction n arbitrary: i bcs lits scs)
  case 0
  then show ?case using boundary_wf by (auto split: if_splits)
next
  case (Suc n)
  show ?case
  proof (cases "i < length bcs")
    case True
    then obtain bcs2 lits2 scs2 where s: "adapt_instr adapt removed gens scope i bcs lits scs = Inr (bcs2, lits2, scs2)"
      "adapt_loop adapt removed gens scope n (i + GetBytecodeLength (bcs ! i)) bcs2 lits2 scs2 = Inr (bcs1, lits1, scs1)"
      using Suc.prems(1) by auto
    have "boundary bcs2 (i + GetBytecodeLength (bcs ! i)) \<and> list_all lit_ok lits2"
      using s(1) Suc.prems(2,3) by (rule adapt_instr_ok) (rule assms)
    with Suc.IH[OF s(2)] show ?thesis by blast
  qed (use Suc.prems boundary_wf in auto)
qed

lemma Adapt_ok: "AdaptAfterOuterInlined n removed gens blk scs = Inr (blk', scs') \<Longrightarrow> method_ok blk \<Longrightarrow> method_ok blk'"
proof (induction n arbitrary: removed blk scs blk' scs')
  case (Suc n)
  show ?case
  proof (cases blk)
    case (VMMethod sig bcs lits nl mx scope loops)
    then obtain bcs1 lits1 scs1 where
      "adapt_loop (\<lambda>r blk1 scs1. AdaptAfterOuterInlined n r gens blk1 scs1) removed gens scope (length bcs) 0 bcs lits scs = Inr (bcs1, lits1, scs1)"
      "blk' = VMMethod sig bcs1 lits1 nl mx scope loops"
      using Suc.prems(1) by (auto split: if_splits option.splits)
    moreover have "boundary bcs 0" "list_all lit_ok lits"
      using Suc.prems(2) VMMethod boundary_0 by simp_all
    ultimately show ?thesis using adapt_loop_ok[of "\<lambda>r blk1 scs1. AdaptAfterOuterInlined n r gens blk1 scs1"] Suc.IH by fastforce
  qed (use Suc.prems in auto)
qed simp

subsection \<open>Fuel\<close>

lemma boundary_length: "boundary bcs i \<Longrightarrow> i < length bcs \<Longrightarrow> 1 \<le> GetBytecodeLength (bcs ! i)"
  by (elim boundary_instr) (auto simp: wf_instr_def Suc_le_eq)

lemma size_list_update: "k < length xs \<Longrightarrow> f y = f (xs ! k) \<Longrightarrow> size_list f (xs[k := y]) = size_list f xs"
  by (induction xs arbitrary: k) (auto simp: nth_Cons split: nat.splits)

text \<open>Adapting keeps the length of the code and the size of the literals.\<close>

lemma adapt_argument_length: "adapt_argument removed gens scope scs i bcs = Inr bcs1 \<Longrightarrow> length bcs1 = length bcs"
  by (auto simp: adapt_argument_def Let_def split: if_splits)

lemma adapt_local_length: "adapt_local removed gens scope scs i bcs = Inr bcs1 \<Longrightarrow> length bcs1 = length bcs"
  by (auto simp: adapt_local_def split: if_splits list.splits)

lemma adapt_instr_size:
  assumes "adapt_instr adapt removed gens scope i bcs lits scs = Inr (bcs1, lits1, scs1)"
    "\<And>r blk scs blk' scs'. adapt r blk scs = Inr (blk', scs') \<Longrightarrow> size blk' = size blk"
  shows "length bcs1 = length bcs \<and> size_list size lits1 = size_list size lits"
  using assms(1) unfolding adapt_instr_def
  by (auto simp: byte_at_Inr GetConstant_lit_def split: if_splits literal.splits invokable.splits
      dest: adapt_argument_length adapt_local_length dest!: assms(2) intro!: size_list_update)

lemma adapt_instr_cong:
  assumes "\<And>r blk scs. method_ok blk \<Longrightarrow> size blk < N \<Longrightarrow> f r blk scs = g r blk scs" "size_list size lits \<le> N" "list_all lit_ok lits"
  shows "adapt_instr f removed gens scope i bcs lits scs = adapt_instr g removed gens scope i bcs lits scs"
proof -
  have "f r (VMMethod sig bs ls nl mx sc loops) scs = g r (VMMethod sig bs ls nl mx sc loops) scs"
    if "k < length lits" "lits ! k = LBlock a (VMMethod sig bs ls nl mx sc loops)" for r k a sig bs ls nl mx sc loops
    using size_list_estimation[OF nth_mem[OF that(1)], of "size (VMMethod sig bs ls nl mx sc loops)" size] assms(2,3) that
    by (intro assms(1)) (auto simp: list_all_length)
  then show ?thesis unfolding adapt_instr_def GetConstant_lit_def
    by (auto simp: res_bind_def split: sum.splits literal.splits invokable.splits if_splits)
qed

lemma adapt_loop_cong:
  assumes "\<And>r blk scs. method_ok blk \<Longrightarrow> size blk < N \<Longrightarrow> f r blk scs = g r blk scs"
    "\<And>r blk scs blk' scs'. g r blk scs = Inr (blk', scs') \<Longrightarrow> size blk' = size blk"
    "\<And>r blk scs blk' scs'. method_ok blk \<Longrightarrow> g r blk scs = Inr (blk', scs') \<Longrightarrow> method_ok blk'"
  shows "size_list size lits \<le> N \<Longrightarrow> boundary bcs i \<Longrightarrow> list_all lit_ok lits \<Longrightarrow> length bcs \<le> i + k \<Longrightarrow> length bcs \<le> i + k' \<Longrightarrow>
    adapt_loop f removed gens scope k i bcs lits scs = adapt_loop g removed gens scope k' i bcs lits scs"
proof (induction k arbitrary: k' i bcs lits scs)
  case (Suc k)
  show ?case
  proof (cases "i < length bcs")
    case True
    then obtain l where l: "k' = Suc l" using Suc.prems(5) by (cases k') auto
    have c: "adapt_instr f removed gens scope i bcs lits scs = adapt_instr g removed gens scope i bcs lits scs"
      by (rule adapt_instr_cong[OF assms(1) Suc.prems(1,3)])
    show ?thesis
    proof (cases "adapt_instr g removed gens scope i bcs lits scs")
      case (Inr r)
      obtain bcs1 lits1 scs1 where r: "r = (bcs1, lits1, scs1)" by (cases r)
      have "length bcs1 = length bcs \<and> size_list size lits1 = size_list size lits"
        by (rule adapt_instr_size[OF Inr[unfolded r]]) (rule assms(2))
      moreover have ok: "boundary bcs1 (i + GetBytecodeLength (bcs ! i)) \<and> list_all lit_ok lits1"
        by (rule adapt_instr_ok[OF Inr[unfolded r] Suc.prems(2,3)]) (rule assms(3))
      ultimately have "size_list size lits1 \<le> N" "length bcs1 \<le> i + GetBytecodeLength (bcs ! i) + k" "length bcs1 \<le> i + GetBytecodeLength (bcs ! i) + l"
        using Suc.prems l boundary_length[OF Suc.prems(2) True] by auto
      from Suc.IH[OF this(1) _ _ this(2,3)] ok show ?thesis using True l c Inr r by simp
    qed (use True l c in simp)
  qed (cases k'; simp)
qed (case_tac k'; simp)

lemma adapt_loop_size:
  assumes "\<And>r blk scs blk' scs'. g r blk scs = Inr (blk', scs') \<Longrightarrow> size blk' = size blk"
  shows "adapt_loop g removed gens scope k i bcs lits scs = Inr (bcs1, lits1, scs1) \<Longrightarrow> size_list size lits1 = size_list size lits"
proof (induction k arbitrary: i bcs lits scs)
  case (Suc k)
  then show ?case by (auto split: if_splits dest!: adapt_instr_size[OF _ assms])
qed (auto split: if_splits)

lemma Adapt_size: "AdaptAfterOuterInlined n removed gens blk scs = Inr (blk', scs') \<Longrightarrow> size blk' = size blk"
proof (induction n arbitrary: removed blk scs blk' scs')
  case (Suc n)
  show ?case
  proof (cases blk)
    case (VMMethod sig bcs lits nl mx scope loops)
    then obtain bcs1 lits1 scs1 where
      "adapt_loop (\<lambda>r blk1 scs1. AdaptAfterOuterInlined n r gens blk1 scs1) removed gens scope (length bcs) 0 bcs lits scs = Inr (bcs1, lits1, scs1)"
      "blk' = VMMethod sig bcs1 lits1 nl mx scope loops"
      using Suc.prems(1) by (auto split: if_splits option.splits)
    then show ?thesis using adapt_loop_size[of "\<lambda>r blk1 scs1. AdaptAfterOuterInlined n r gens blk1 scs1", OF Suc.IH] VMMethod by fastforce
  qed (use Suc.prems in auto)
qed simp

lemma Adapt_fuel:
  "method_ok blk \<Longrightarrow> size blk < n \<Longrightarrow> size blk < n' \<Longrightarrow> AdaptAfterOuterInlined n removed gens blk scs = AdaptAfterOuterInlined n' removed gens blk scs"
proof (induction n arbitrary: n' removed blk scs)
  case (Suc n)
  obtain k where k: "n' = Suc k" using Suc.prems(3) by (cases n') auto
  show ?case
  proof (cases blk)
    case (VMMethod sig bcs lits nl mx scope loops)
    then have "size_list size lits \<le> min n k" "boundary bcs 0" "list_all lit_ok lits" using Suc.prems k boundary_0 by simp_all
    then have "adapt_loop (\<lambda>r blk1 scs1. AdaptAfterOuterInlined n r gens blk1 scs1) removed gens scope (length bcs) 0 bcs lits scs
      = adapt_loop (\<lambda>r blk1 scs1. AdaptAfterOuterInlined k r gens blk1 scs1) removed gens scope (length bcs) 0 bcs lits scs"
      by (intro adapt_loop_cong[of "min n k"] Suc.IH Adapt_size) (auto intro: Adapt_ok)
    then show ?thesis using VMMethod k by simp
  qed (use k in simp_all)
qed simp

lemma inlineInto_loop_fuel:
  "boundary bcs i \<Longrightarrow> length bcs \<le> i + k \<Longrightarrow> length bcs \<le> i + k' \<Longrightarrow>
   inlineInto_loop outers bcs scope k i st = inlineInto_loop outers bcs scope k' i st"
proof (induction k arbitrary: k' i st)
  case (Suc k)
  show ?case
  proof (cases "i < length bcs")
    case True
    then obtain l where l: "k' = Suc l" using Suc.prems(3) by (cases k') auto
    have "inlineInto_loop outers bcs scope k (i + GetBytecodeLength (bcs ! i)) st1 = inlineInto_loop outers bcs scope l (i + GetBytecodeLength (bcs ! i)) st1"
      for st1 using boundary_length[OF Suc.prems(1) True] boundary_next[OF Suc.prems(1) True] Suc.prems(2,3) l by (intro Suc.IH) auto
    then show ?thesis using True l by (auto simp: res_bind_def split: sum.splits)
  qed (cases k'; simp)
qed (case_tac k'; simp)

subsection \<open>Translating the code of a block\<close>

text \<open>The state of a context into which a block is inlined, with jumps pending at the positions \<open>J\<close>.\<close>

definition inl_inv :: "nat \<Rightarrow> nat set \<Rightarrow> bool \<Rightarrow> bool \<Rightarrow> mgenc \<Rightarrow> bool" where
  "inl_inv n J fl fin m \<longleftrightarrow> (\<exists>is. bparsed n m is \<and> (\<forall>idx \<in> J. jump_at is idx))
     \<and> isCurrentlyInliningABlock m = fl \<and> finished m = fin \<and> lits_ok m"

lemma inl_mono: "inl_inv n J fl fin m \<Longrightarrow> K \<subseteq> J \<Longrightarrow> k \<le> n \<Longrightarrow> inl_inv k K fl fin m"
  unfolding inl_inv_def using bparsed_mono by blast

lemma inl_grows1: "inl_inv n J fl fin m \<Longrightarrow> grows m m' \<Longrightarrow> inl_inv (Suc n) J fl fin m'"
proof -
  assume inv: "inl_inv n J fl fin m" and "grows m m'"
  then obtain js "is" where "js \<noteq> []" "extends js m m'" "bparsed n m is" "\<forall>idx \<in> J. jump_at is idx"
    by (auto simp: grows_def inl_inv_def)
  moreover from this have "bparsed (n + length js) m' (is @ js)" "Suc n \<le> n + length js"
    by (auto simp: extends_def Suc_le_eq)
  ultimately show ?thesis using inv jump_at_append bparsed_mono unfolding inl_inv_def extends_def by metis
qed

lemma inl_grows: "inl_inv n J fl fin m \<Longrightarrow> grows m m' \<Longrightarrow> inl_inv n J fl fin m'"
  using inl_grows1 inl_mono by (metis le_SucI order_refl)

lemma inl_new_jump1:
  assumes "inl_inv n J fl fin m" "IsJumpBytecode bc"
  shows "inl_inv (Suc n) (insert (length (bytecode m) + 1) J) fl fin (Emit3 bc 0 0 e m)"
proof -
  obtain "is" where s: "bparsed n m is" "\<forall>idx \<in> J. jump_at is idx" using assms(1) by (auto simp: inl_inv_def)
  have x: "extends [[bc, 0, 0]] m (Emit3 bc 0 0 e m)" using assms(2) by (intro extends_AddBytecode) simp
  then have "bparsed (Suc n) (Emit3 bc 0 0 e m) (is @ [[bc, 0, 0]])" using s(1) by (simp add: extends_def)
  moreover have "length (bytecode m) = length (concat is)" using s(1) by (simp add: bparsed_def)
  ultimately show ?thesis using assms(1) s(2) x jump_at_new[OF assms(2), of "is" 0 0] jump_at_append
    unfolding inl_inv_def extends_def by (intro conjI exI[of _ "is @ [[bc, 0, 0]]"]) auto
qed

lemma inl_new_jump: "inl_inv n J fl fin m \<Longrightarrow> IsJumpBytecode bc \<Longrightarrow>
    inl_inv n (insert (length (bytecode m) + 1) J) fl fin (Emit3 bc 0 0 e m)"
  using inl_new_jump1 inl_mono by (metis le_SucI order_refl)

lemma inl_patch:
  assumes "PatchJumpOffsetToPointToNextInstruction idx m = Inr m'" "inl_inv n J fl fin m" "idx \<in> J"
  shows "inl_inv n J fl fin m'"
proof -
  obtain "is" where s: "bparsed n m is" "\<forall>idx \<in> J. jump_at is idx" using assms(2) by (auto simp: inl_inv_def)
  with assms(3) have "jump_at is idx" by blast
  from Patch_bparsed[OF s(1) this assms(1)] obtain is' where p: "bparsed n m' is'" "\<And>k. jump_at is k \<Longrightarrow> jump_at is' k"
    "m' = m\<lparr>bytecode := bytecode m'\<rparr>" by metis
  have "isCurrentlyInliningABlock m' = isCurrentlyInliningABlock m" "finished m' = finished m" "literals m' = literals m"
    by (subst p(3), simp)+
  then show ?thesis using assms(2) s(2) p(1,2) unfolding inl_inv_def lits_ok_def by auto
qed

lemma inl_cong: "bytecode m' = bytecode m \<Longrightarrow> last4Bytecodes m' = last4Bytecodes m \<Longrightarrow> literals m' = literals m \<Longrightarrow>
    finished m' = finished m \<Longrightarrow> isCurrentlyInliningABlock m' = fl' \<Longrightarrow> inl_inv n J fl fin m \<Longrightarrow> inl_inv n J fl' fin m'"
  using bparsed_cong[of m' m] by (simp add: inl_inv_def lits_ok_def)

lemma inl_reset: "inl_inv n J fl fin m \<Longrightarrow> inl_inv 4 J fl fin (resetLastBytecodeBuffer m)"
  using bparsed_reset bparsed_parsed[of 4] by (fastforce simp: inl_inv_def resetLastBytecodeBuffer_def lits_ok_def)

lemma inl_flag: "inl_inv n J fl fin m \<Longrightarrow> inl_inv n J b fin (inlining_flag b m)"
  by (erule inl_cong[rotated -1]) (simp_all add: inlining_flag_def)

text \<open>With a valid buffer and no jump pending it is the invariant of a generation context.\<close>

lemma inl_inv_gen_ok: "inl_inv 4 J fl fin m \<Longrightarrow> gen_ok m \<and> lits_ok m \<and> finished m = fin"
  using bparsed_parsed[of 4 m] by (auto simp: inl_inv_def gen_ok_def)

definition pending :: "(nat \<times> byte \<times> nat) list \<Rightarrow> nat set" where
  "pending jumps = set (map (\<lambda>(target, bc, idx). idx) jumps)"

lemma pending_simps [simp]:
  "pending [] = {}" "pending ((target, bc, idx) # jumps) = insert idx (pending jumps)"
  "pending (insort_key fst (target, bc, idx) jumps) = insert idx (pending jumps)"
  by (simp_all add: pending_def set_insort_key)

definition st_inv :: "nat \<Rightarrow> nat set \<Rightarrow> bool \<Rightarrow> inlining \<Rightarrow> bool" where
  "st_inv n J fin st \<longleftrightarrow> inl_inv n (J \<union> pending (i_jumps st)) True fin (i_mgenc st) \<and> list_all lit_ok (i_literals st)"

lemma st_emit:
  assumes "emit f st = Inr st'" "st_inv n J fin st"
    "\<And>m'. f (i_mgenc st) = Inr m' \<Longrightarrow> isCurrentlyInliningABlock (i_mgenc st) \<Longrightarrow> grows (i_mgenc st) m'"
  shows "st_inv n J fin st'"
proof -
  obtain m' where m': "f (i_mgenc st) = Inr m'" "st' = st\<lparr>i_mgenc := m'\<rparr>" using assms(1) by (auto simp: emit_def)
  moreover have "isCurrentlyInliningABlock (i_mgenc st)" using assms(2) by (simp add: st_inv_def inl_inv_def)
  ultimately show ?thesis using assms(2,3) inl_grows by (auto simp: st_inv_def)
qed

lemma patchJump_inv:
  "patchJumpToCurrentAddress i jumps m = Inr (jumps', m') \<Longrightarrow> inl_inv n (J \<union> pending jumps) fl fin m \<Longrightarrow>
   inl_inv n (J \<union> pending jumps') fl fin m'"
proof (induction i jumps m rule: patchJumpToCurrentAddress.induct)
  case (2 i target bc idx jumps m)
  show ?case
  proof (cases "target \<le> i")
    case True
    then obtain m1 where m1: "target = i" "PatchJumpOffsetToPointToNextInstruction idx m = Inr m1"
      "patchJumpToCurrentAddress i jumps m1 = Inr (jumps', m')" using 2(2) by (auto split: if_splits)
    have "inl_inv n (J \<union> pending ((target, bc, idx) # jumps)) fl fin m1" by (rule inl_patch[OF m1(2) 2(3)]) simp
    then have "inl_inv n (J \<union> pending jumps) fl fin m1" by (rule inl_mono) auto
    with 2(1)[of m1] m1 True show ?thesis by simp
  qed (use 2 in auto)
qed simp

lemma inline_jump_inv:
  assumes "inline_jump bcs i bc e st = Inr st'" "st_inv n J fin st" "IsJumpBytecode bc"
  shows "st_inv n J fin st'"
  using assms inl_new_jump[of n "J \<union> pending (i_jumps st)" True fin "i_mgenc st" bc e]
  by (auto simp: inline_jump_def st_inv_def dummy_jumps)

lemma inline_local_inv: "inline_local bcs scope i bc st = Inr st' \<Longrightarrow> st_inv n J fin st \<Longrightarrow> st_inv n J fin st'"
  by (auto simp: inline_local_def split: if_splits elim!: st_emit dest: grows_local)

lemma inline_argument_inv: "inline_argument bcs i bc st = Inr st' \<Longrightarrow> st_inv n J fin st \<Longrightarrow> st_inv n J fin st'"
  by (auto simp: inline_argument_def split: if_splits elim!: st_emit dest: grows_local)

lemma inline_symbol_inv:
  "inline_symbol bcs i f st = Inr st' \<Longrightarrow> st_inv n J fin st \<Longrightarrow> (\<And>g m m'. f g m = Inr m' \<Longrightarrow> grows m m') \<Longrightarrow> st_inv n J fin st'"
  by (auto simp: inline_symbol_def split: literal.splits elim!: st_emit)

lemma inline_block_inv:
  assumes "inline_block outers bcs i st = Inr st'" "st_inv n J fin st"
  shows "st_inv n J fin st'"
proof -
  obtain k a blk blk1 scs1 where g: "GetConstant_lit bcs (i_literals st) i = Inr (k, LBlock a blk)"
    and ad: "AdaptAfterOuterInlined (Suc (size blk)) 1 (i_mgenc st # outers) blk (i_scopes st) = Inr (blk1, scs1)"
    and e: "emit (EmitPUSHBLOCK (LBlock a blk1)) (st\<lparr>i_scopes := scs1, i_literals := (i_literals st)[k := LBlock a blk1]\<rparr>) = Inr st'"
    using assms(1) unfolding inline_block_def by (auto split: literal.splits)
  have ls: "list_all lit_ok (i_literals st)" using assms(2) by (simp add: st_inv_def)
  have "lit_ok (LBlock a blk)" using GetConstant_lit_ok[OF g ls] by simp
  then have ok: "lit_ok (LBlock a blk1)" using Adapt_ok[OF ad] by simp
  then have "st_inv n J fin (st\<lparr>i_scopes := scs1, i_literals := (i_literals st)[k := LBlock a blk1]\<rparr>)"
    using assms(2) ls by (auto simp: st_inv_def list_all_iff dest!: subsetD[OF set_update_subset_insert])
  from st_emit[OF e this] show ?thesis using ok grows_block by blast
qed

lemma inline_back_jump_inv: "inline_back_jump i st = Inr st' \<Longrightarrow> st_inv n J fin st \<Longrightarrow> st_inv n J fin st'"
  by (auto simp: inline_back_jump_def split: list.splits if_splits elim!: st_emit intro: grows_back_jump) (auto simp: st_inv_def intro: grows_back_jump)

lemma jump_lists [simp]:
  "bc \<in> set plain_jumps \<Longrightarrow> IsJumpBytecode bc" "bc \<in> set popping_jumps \<Longrightarrow> IsJumpBytecode bc"
  by (auto simp: plain_jumps_def popping_jumps_def IsJumpBytecode_def)

lemma st_inv_literal: "st_inv n J fin st \<Longrightarrow> k < length (i_literals st) \<Longrightarrow> lit_ok (i_literals st ! k)"
  by (simp add: st_inv_def list_all_length)

lemma inline_constant_inv: "inline_constant k st = Inr st' \<Longrightarrow> st_inv n J fin st \<Longrightarrow> st_inv n J fin st'"
  by (auto simp: inline_constant_def split: if_splits elim!: st_emit intro: grows_constant st_inv_literal)

lemma inline_push_constant:
  "EmitPUSHCONSTANT lit (i_mgenc st) = Inr m' \<Longrightarrow> GetConstant_lit bcs (i_literals st) i = Inr (k, lit) \<Longrightarrow> st_inv n J fin st \<Longrightarrow>
   grows (i_mgenc st) m'"
  using GetConstant_lit_ok[of bcs "i_literals st" i k lit] by (auto simp: st_inv_def intro: grows_constant)

lemmas inline_invs = inline_jump_inv inline_local_inv inline_argument_inv inline_symbol_inv inline_block_inv
  inline_back_jump_inv inline_constant_inv inline_push_constant

lemma inline_instr_inv:
  "inline_instr outers bcs scope i bc st = Inr st' \<Longrightarrow> st_inv n J fin st \<Longrightarrow> st_inv n J fin st'"
  unfolding inline_instr_def
  by (auto simp: EmitRETURNNONLOCAL_def split: if_splits elim!: st_emit intro: appends inline_invs)

lemma inlineInto_loop_inv:
  "inlineInto_loop outers bcs scope k i st = Inr st' \<Longrightarrow> st_inv n J fin st \<Longrightarrow> st_inv n J fin st'"
proof (induction k arbitrary: i st)
  case (Suc k)
  show ?case
  proof (cases "i < length bcs")
    case True
    with Suc.prems(1) obtain bj tp jumps m st1 where
      p: "patchJumpToCurrentAddress i (i_jumps st) (i_mgenc st) = Inr (jumps, m)"
      and s: "inline_instr outers bcs scope i (bcs ! i)
        (st\<lparr>i_mgenc := m, i_jumps := jumps, i_backJumps := bj, i_backJumpsToPatch := tp\<rparr>) = Inr st1"
      and l: "inlineInto_loop outers bcs scope k (i + GetBytecodeLength (bcs ! i)) st1 = Inr st'" by auto
    have "st_inv n J fin (st\<lparr>i_mgenc := m, i_jumps := jumps, i_backJumps := bj, i_backJumpsToPatch := tp\<rparr>)"
      using patchJump_inv[OF p] Suc.prems(2) by (simp add: st_inv_def)
    from Suc.IH[OF l inline_instr_inv[OF s this]] show ?thesis .
  qed (use Suc.prems in simp)
qed (auto split: if_splits)

lemma inlineInto_inv:
  assumes "inlineInto outers bcs lits scope loops m scs = Inr (m', scs')" "list_all lit_ok lits" "inl_inv n J True fin m"
  shows "inl_inv n J True fin m'"
proof -
  obtain st where l: "inlineInto_loop outers bcs scope (length bcs) 0 \<lparr>i_mgenc = m, i_scopes = scs, i_literals = lits, i_jumps = [],
      i_backJumps = createBackJumpHeap loops, i_backJumpsToPatch = []\<rparr> = Inr st" and st: "m' = i_mgenc st" "i_jumps st = []"
    using assms(1) by (auto simp: inlineInto_def split: if_splits)
  have "st_inv n J fin st" by (rule inlineInto_loop_inv[OF l]) (use assms(2,3) in \<open>simp add: st_inv_def\<close>)
  with st show ?thesis by (simp add: st_inv_def)
qed

lemma locals_same [simp]: "\<exists>ls. m = m\<lparr>locals := ls\<rparr>" "\<exists>ls. m\<lparr>locals := l\<rparr> = m\<lparr>locals := ls\<rparr>"
  by (auto intro: exI[of _ "locals m"])

lemma InlineAsLocals_keeps: "InlineAsLocals vars m scs = Inr (m', scs') \<Longrightarrow> \<exists>ls. m' = m\<lparr>locals := ls\<rparr>"
proof (induction vars arbitrary: m scs)
  case Nil
  then show ?case by simp
next
  case (Cons var vars)
  from Cons(2) consider "InlineAsLocals vars m scs = Inr (m', scs')"
    | v scs1 where "InlineAsLocals vars (m\<lparr>locals := locals m @ [v]\<rparr>) scs1 = Inr (m', scs')"
    by (auto simp: Let_def split: if_splits option.splits)
  then show ?case using Cons(1) by cases fastforce+
qed

lemma MergeIntoScope_keeps: "MergeIntoScope scope m scs = Inr (m', scs') \<Longrightarrow> \<exists>ls. m' = m\<lparr>locals := ls\<rparr>"
  by (auto simp: MergeIntoScope_def split: option.splits if_splits dest!: InlineAsLocals_keeps)

lemma MergeScopeInto_keeps: "MergeScopeInto blk m scs = Inr (m', scs') \<Longrightarrow> \<exists>ls. m' = m\<lparr>locals := ls\<rparr>"
  by (cases blk) (auto simp: MergeScopeInto_def dest: InlineAsLocals_keeps MergeIntoScope_keeps)

lemma inl_locals: "inl_inv n J fl fin m \<Longrightarrow> inl_inv n J fl fin (m\<lparr>locals := ls\<rparr>)"
  using bparsed_cong[of "m\<lparr>locals := ls\<rparr>" m] by (simp add: inl_inv_def lits_ok_def)

lemma InlineInto_inv:
  assumes "InlineInto outers blk mergeScope m scs = Inr (m', scs')" "method_ok blk" "inl_inv n J True fin m"
  shows "inl_inv n J True fin m'"
proof (cases blk)
  case (VMMethod sig bcs lits nl mx scope loops)
  then obtain m1 scs1 where i: "inlineInto outers bcs lits scope loops m1 scs1 = Inr (m', scs')"
    "m1 = m \<or> (\<exists>ls. m1 = m\<lparr>locals := ls\<rparr>)" using assms(1) by (auto split: if_splits dest: MergeIntoScope_keeps)
  then have "inl_inv n J True fin m1" using assms(3) inl_locals by blast
  moreover have "list_all lit_ok lits" using assms(2) VMMethod by (simp add: list_all_iff)
  ultimately show ?thesis using inlineInto_inv[OF i(1)] by blast
qed (use assms in \<open>auto intro: inl_grows grows_constant grows_global\<close>)

subsection \<open>Inlined messages\<close>

text \<open>The blocks that are the arguments of a message, taken out of the code again.\<close>

lemma getLastBlock_ok:
  "getLastBlockMethodAndFreeLiteral idx m = Inr (blk, m') \<Longrightarrow> lits_ok m \<Longrightarrow>
   method_ok blk \<and> m' = m\<lparr>literals := butlast (literals m)\<rparr> \<and> lits_ok m'"
  by (auto simp: getLastBlockMethodAndFreeLiteral_def lits_ok_def list_all_iff split: if_splits literal.splits)
    (metis last_in_set lit_ok.simps(1) in_set_butlastD)+

lemma extract1_inv:
  assumes "gen_ok m" "lits_ok m" "hasOneLiteralBlockArgument m" "extractBlockMethodAndRemoveBytecode m = Inr (blk, m')"
  shows "method_ok blk \<and> inl_inv 0 {} (isCurrentlyInliningABlock m) (finished m) m'"
proof -
  obtain "is" where pis: "parsed m is" using assms(1) by (auto simp: gen_ok_def)
  have l3: "last4Bytecodes m ! 3 = BC_PUSH_BLOCK" using assms(3) by (simp add: hasOneLiteralBlockArgument_def LastBytecodeIs_def)
  obtain js args where "is = js @ [last4Bytecodes m ! 3 # args]" by (rule parsed_last[OF pis]) (simp_all add: l3)
  with pis l3 have p: "parsed m (js @ [BC_PUSH_BLOCK # args])" by simp
  obtain m1 where m1: "method_ok blk" "m1 = m\<lparr>literals := butlast (literals m)\<rparr>" "lits_ok m1" "removeLastBytecodes 1 m1 = Inr m'"
    using assms(2,4) unfolding extractBlockMethodAndRemoveBytecode_def by (auto dest!: getLastBlock_ok)
  have p1: "parsed m1 (js @ [BC_PUSH_BLOCK # args])" "last4Bytecodes m1 ! 3 = hd (BC_PUSH_BLOCK # args)" using p l3 m1(2) by (simp_all add: parsed_def)
  have "m' = m1\<lparr>bytecode := concat js\<rparr>" using parsed_remove1(1)[OF p1] m1(4) by simp
  then show ?thesis using p m1(1-3) by (auto simp: inl_inv_def bparsed_def parsed_def lits_ok_def)
qed

lemma extract2_inv:
  assumes "gen_ok m" "lits_ok m" "hasTwoLiteralBlockArguments m" "extractBlockMethodsAndRemoveBytecodes m = Inr (blk1, blk2, m')"
  shows "method_ok blk1 \<and> method_ok blk2 \<and> inl_inv 0 {} (isCurrentlyInliningABlock m) (finished m) m'"
proof -
  obtain "is" where p: "parsed m is" using assms(1) by (auto simp: gen_ok_def)
  have l: "last4Bytecodes m ! 3 = BC_PUSH_BLOCK" "last4Bytecodes m ! 2 = BC_PUSH_BLOCK"
    using assms(3) by (simp_all add: hasTwoLiteralBlockArguments_def LastBytecodeIs_def)
  obtain js x y where "is = js @ [last4Bytecodes m ! 2 # x, last4Bytecodes m ! 3 # y]" by (rule parsed_last2[OF p]) (simp_all add: l)
  with l have j: "is = js @ [BC_PUSH_BLOCK # x, BC_PUSH_BLOCK # y]" by simp
  obtain i1 i2 m0 m1 where g: "getLastBlockMethodAndFreeLiteral i2 m = Inr (blk2, m0)" "getLastBlockMethodAndFreeLiteral i1 m0 = Inr (blk1, m1)"
    and r: "removeLastBytecodes 2 m1 = Inr m'"
    using assms(4) unfolding extractBlockMethodsAndRemoveBytecodes_def by auto
  note g2 = getLastBlock_ok[OF g(1) assms(2)]
  then have "lits_ok m0" by blast
  note g1 = getLastBlock_ok[OF g(2) this]
  have m1: "method_ok blk1" "method_ok blk2" "bytecode m1 = bytecode m" "last4Bytecodes m1 = last4Bytecodes m"
      "isCurrentlyInliningABlock m1 = isCurrentlyInliningABlock m" "finished m1 = finished m" "lits_ok m1"
    using g1 g2 by auto
  have "length x = 1" "length y = 1" using p j by (simp_all add: parsed_def wf_instr_def)
  moreover have "bytes_of_last 2 (last4Bytecodes m1) = 4" using l m1(4) by (simp add: numeral_2_eq_2)
  ultimately have "m' = m1\<lparr>bytecode := concat js\<rparr>"
    using m1(3) r p j by (auto simp: removeLastBytecodes_def parsed_def)
  then show ?thesis using j p m1(1-7) by (auto simp: inl_inv_def bparsed_def parsed_def lits_ok_def)
qed

lemma inl_jump_on: "EmitJumpOnWithDummyOffset c p m = (idx, m') \<Longrightarrow> inl_inv n J fl fin m \<Longrightarrow> inl_inv n (insert idx J) fl fin m'"
  using inl_new_jump by (auto simp: dummy_jumps)

lemma inl_jump: "EmitJumpWithDumyOffset m = (idx, m') \<Longrightarrow> inl_inv n J fl fin m \<Longrightarrow> inl_inv n (insert idx J) fl fin m'"
  using inl_new_jump[of n J fl fin m BC_JUMP] by (auto simp: dummy_jumps IsJumpBytecode_def)

lemma InlineThenBranch_ok:
  assumes "InlineThenBranch c outers m scs = Inr (b, m', scs')" "gen_ok m" "lits_ok m"
  shows "gen_ok m' \<and> lits_ok m' \<and> finished m' = finished m"
proof (cases "hasOneLiteralBlockArgument m")
  case True
  with assms(1) obtain blk m1 j m2 m3 m4 where e: "extractBlockMethodAndRemoveBytecode m = Inr (blk, m1)"
    and j: "EmitJumpOnWithDummyOffset c False m1 = (j, m2)" and i: "InlineInto outers blk True (inlining_flag True m2) scs = Inr (m3, scs')"
    and p: "PatchJumpOffsetToPointToNextInstruction j m3 = Inr m4" and m': "m' = resetLastBytecodeBuffer m4"
    by (auto simp: InlineThenBranch_def split: prod.splits)
  note e' = extract1_inv[OF assms(2,3) True e]
  have "inl_inv 0 {j} True (finished m) m3" using e' InlineInto_inv[OF i _ inl_flag[OF inl_jump_on[OF j]]] by blast
  from inl_reset[OF inl_patch[OF p this]] show ?thesis using m' inl_inv_gen_ok by auto
qed (use assms in \<open>auto simp: InlineThenBranch_def\<close>)

lemma InlineThenElseBranches_ok:
  assumes "InlineThenElseBranches c outers m scs = Inr (b, m', scs')" "gen_ok m" "lits_ok m"
  shows "gen_ok m' \<and> lits_ok m' \<and> finished m' = finished m"
proof (cases "hasTwoLiteralBlockArguments m")
  case True
  with assms(1) obtain blk1 blk2 m1 j m2 m3 scs1 k m4 m5 m6 m7 where e: "extractBlockMethodsAndRemoveBytecodes m = Inr (blk1, blk2, m1)"
    and j: "EmitJumpOnWithDummyOffset c True m1 = (j, m2)" and i: "InlineInto outers blk1 True (inlining_flag True m2) scs = Inr (m3, scs1)"
    and k: "EmitJumpWithDumyOffset m3 = (k, m4)" and p: "PatchJumpOffsetToPointToNextInstruction j m4 = Inr m5"
    and i2: "InlineInto outers blk2 True (resetLastBytecodeBuffer m5) scs1 = Inr (m6, scs')"
    and p2: "PatchJumpOffsetToPointToNextInstruction k (inlining_flag False m6) = Inr m7" and m': "m' = resetLastBytecodeBuffer m7"
    by (auto simp: InlineThenElseBranches_def split: prod.splits)
  note e' = extract2_inv[OF assms(2,3) True e]
  have "inl_inv 0 {j} True (finished m) m3" using e' InlineInto_inv[OF i _ inl_flag[OF inl_jump_on[OF j]]] by blast
  from inl_reset[OF inl_patch[OF p inl_jump[OF k this]]] have "inl_inv 4 {k, j} True (finished m) (resetLastBytecodeBuffer m5)" by simp
  from inl_patch[OF p2 inl_flag[OF InlineInto_inv[OF i2 _ this]]] show ?thesis using m' e' inl_inv_gen_ok inl_reset by blast
qed (use assms in \<open>auto simp: InlineThenElseBranches_def\<close>)

lemma InlineAndOr_ok:
  assumes "InlineAndOr isOr outers m scs = Inr (b, m', scs')" "gen_ok m" "lits_ok m"
  shows "gen_ok m' \<and> lits_ok m' \<and> finished m' = finished m"
proof (cases "hasOneLiteralBlockArgument m")
  case True
  with assms(1) obtain blk m1 j m2 m3 k m4 m5 m6 m7 where e: "extractBlockMethodAndRemoveBytecode m = Inr (blk, m1)"
    and j: "EmitJumpOnWithDummyOffset (if isOr then ON_TRUE else ON_FALSE) True m1 = (j, m2)"
    and i: "InlineInto outers blk True (inlining_flag True m2) scs = Inr (m3, scs')"
    and k: "EmitJumpWithDumyOffset (inlining_flag False m3) = (k, m4)"
    and p: "PatchJumpOffsetToPointToNextInstruction j m4 = Inr m5" and c: "EmitPUSHCONSTANT (if isOr then LTrue else LFalse) m5 = Inr m6"
    and p2: "PatchJumpOffsetToPointToNextInstruction k m6 = Inr m7" and m': "m' = resetLastBytecodeBuffer m7"
    by (auto simp only: InlineAndOr_def if_True not_True_eq_False if_False split: prod.splits elim!: res_bind_InrE)
  note e' = extract1_inv[OF assms(2,3) True e]
  have "inl_inv 0 {j} True (finished m) m3" using e' InlineInto_inv[OF i _ inl_flag[OF inl_jump_on[OF j]]] by blast
  note inl_patch[OF p inl_jump[OF k inl_flag[OF this]]]
  moreover have "grows m5 m6" by (rule grows_constant[OF c]) simp
  ultimately have "inl_inv 0 {k, j} False (finished m) m6" using inl_grows by blast
  from inl_reset[OF inl_patch[OF p2 this]] show ?thesis using m' inl_inv_gen_ok by auto
qed (use assms in \<open>auto simp: InlineAndOr_def\<close>)

lemma completeJumps_inv:
  assumes "completeJumpsAndEmitReturningNil l j m = Inr m'" "inl_inv n J True fin m" "j \<in> J"
  shows "inl_inv 4 J True fin m'"
proof -
  obtain m1 m2 m3 m4 where s: "EmitPOP (resetLastBytecodeBuffer m) = Inr m1" "EmitBackwardsJumpOffsetToTarget l m1 = Inr m2"
    "PatchJumpOffsetToPointToNextInstruction j m2 = Inr m3" "EmitPUSHCONSTANT LNil m3 = Inr m4" "m' = resetLastBytecodeBuffer m4"
    using assms(1) by (auto simp: completeJumpsAndEmitReturningNil_def)
  have r: "inl_inv 4 J True fin (resetLastBytecodeBuffer m)" by (rule inl_reset[OF assms(2)])
  then have "inl_inv 4 J True fin m1" by (rule inl_grows[OF _ grows_pop[OF s(1)]]) (use r in \<open>simp add: inl_inv_def\<close>)
  then have "inl_inv 4 J True fin m3" using inl_patch[OF s(3) _ assms(3)] inl_grows grows_back_jump[OF s(2)] by blast
  then have "inl_inv 4 J True fin m4" by (rule inl_grows) (rule grows_constant[OF s(4)], simp)
  then show ?thesis using s(5) inl_reset by blast
qed

lemma InlineWhile_ok:
  assumes "InlineWhile isWhileTrue outers m scs = Inr (b, m', scs')" "gen_ok m" "lits_ok m"
  shows "gen_ok m' \<and> lits_ok m' \<and> finished m' = finished m"
proof (cases "hasTwoLiteralBlockArguments m")
  case True
  with assms(1) obtain blk1 blk2 m1 m2 scs1 j m3 m4 m5 where e: "extractBlockMethodsAndRemoveBytecodes m = Inr (blk1, blk2, m1)"
    and i: "InlineInto outers blk1 True (inlining_flag True m1) scs = Inr (m2, scs1)"
    and j: "EmitJumpOnWithDummyOffset (if isWhileTrue then ON_FALSE else ON_TRUE) True m2 = (j, m3)"
    and i2: "InlineInto outers blk2 True m3 scs1 = Inr (m4, scs')"
    and c: "completeJumpsAndEmitReturningNil (OffsetOfNextInstruction m1) j m4 = Inr m5" and m': "m' = inlining_flag False m5"
    by (auto simp only: InlineWhile_def Let_def if_True not_True_eq_False if_False split: prod.splits elim!: res_bind_InrE)
  note e' = extract2_inv[OF assms(2,3) True e]
  have "inl_inv 0 {} True (finished m) m2" using e' InlineInto_inv[OF i _ inl_flag] by blast
  from InlineInto_inv[OF i2 _ inl_jump_on[OF j this]] have "inl_inv 0 {j} True (finished m) m4" using e' by blast
  from inl_flag[OF completeJumps_inv[OF c this]] show ?thesis using m' inl_inv_gen_ok by blast
qed (use assms in \<open>auto simp: InlineWhile_def\<close>)

lemma InlineToDo_ok:
  assumes "InlineToDo outers m scs = Inr (b, m', scs')" "gen_ok m" "lits_ok m"
  shows "gen_ok m' \<and> lits_ok m' \<and> finished m' = finished m"
proof (cases "hasOneLiteralBlockArgument m")
  case True
  with assms(1) obtain blk m1 m2 scs1 ix j m4 m5 m6 m7 m8 m9 where e: "extractBlockMethodAndRemoveBytecode m = Inr (blk, m1)"
    and g: "MergeScopeInto blk m1 scs = Inr (m2, scs1)"
    and j: "EmitJumpIfGreaterWithDummyOffset (EmitDupSecond (inlining_flag True m2)) = (j, m4)" and l: "EmitPOPLOCAL (unat (ix :: byte)) 0 (EmitDUP m4) = Inr m5"
    and i: "InlineInto outers blk False m5 scs1 = Inr (m6, scs')" and p: "EmitPOP m6 = Inr m7"
    and k: "EmitBackwardsJumpOffsetToTarget (OffsetOfNextInstruction (EmitDupSecond (inlining_flag True m2))) (EmitINC m7) = Inr m8"
    and p2: "PatchJumpOffsetToPointToNextInstruction j m8 = Inr m9" and m': "m' = inlining_flag False m9"
    by (auto simp: InlineToDo_def Let_def split: prod.splits)
  note e' = extract1_inv[OF assms(2,3) True e]
  define m3 where "m3 = EmitDupSecond (inlining_flag True m2)"
  have "inl_inv 0 {} True (finished m) (inlining_flag True m2)"
    using e' MergeScopeInto_keeps[OF g] inl_locals inl_flag by blast
  then have "inl_inv 1 {} True (finished m) m3" unfolding m3_def using inl_grows1 by (fastforce simp: EmitDupSecond_def)
  then have "inl_inv (Suc 1) {j} True (finished m) m4"
    using inl_new_jump1[of 1 "{}" True "finished m" m3 BC_JUMP_IF_GREATER 0] j by (simp add: m3_def[symmetric] dummy_jumps IsJumpBytecode_def)
  then have "inl_inv (Suc (Suc 1)) {j} True (finished m) (EmitDUP m4)" using inl_grows1 by (fastforce simp: EmitDUP_def)
  from inl_grows1[OF this grows_local(2)[OF l]] have "inl_inv 4 {j} True (finished m) m5" by (simp add: eval_nat_numeral)
  from InlineInto_inv[OF i _ this] have i6: "inl_inv 4 {j} True (finished m) m6" using e' by blast
  then have "inl_inv 4 {j} True (finished m) m7" by (rule inl_grows[OF _ grows_pop[OF p]]) (use i6 in \<open>simp add: inl_inv_def\<close>)
  then have "inl_inv 4 {j} True (finished m) (EmitINC m7)" by (rule inl_grows) (simp add: EmitINC_def)
  from inl_flag[OF inl_patch[OF p2 inl_grows[OF this grows_back_jump[OF k]]]] show ?thesis using m' inl_inv_gen_ok by blast
qed (use assms in \<open>auto simp: InlineToDo_def\<close>)

subsection \<open>Summary\<close>

text \<open>C9. Inlining the literal blocks of a control message keeps the context well-formed. Whatever \<open>ifTrue:\<close> and its
  variants, \<open>whileTrue:\<close>, \<open>whileFalse:\<close>, \<open>and:\<close>, \<open>or:\<close> or \<open>to:do:\<close> become, with blocks nested to any depth: the code of the
  method is again a sequence of complete instructions, the buffer of the last instructions agrees with the code,
  every block among the literals, adapted to the scope that is gone, has well-formed code too, and
  the method is not marked finished by a return inside the inlined block.\<close>

theorem inlining_keeps_code:
  assumes "gen_ok m" "lits_ok m"
    "Inr (inlined, m', scs') \<in> {InlineThenBranch c outers m scs, InlineThenElseBranches c outers m scs, InlineWhile w outers m scs,
       InlineAndOr isOr outers m scs, InlineToDo outers m scs}"
  shows "gen_ok m' \<and> lits_ok m' \<and> finished m' = finished m"
  using assms(3) InlineThenBranch_ok[OF _ assms(1,2)] InlineThenElseBranches_ok[OF _ assms(1,2)] InlineWhile_ok[OF _ assms(1,2)]
    InlineAndOr_ok[OF _ assms(1,2)] InlineToDo_ok[OF _ assms(1,2)]
  by (metis empty_iff insert_iff)

definition sample_block :: "byte list \<Rightarrow> literal list \<Rightarrow> invokable" where
  "sample_block bcs lits = VMMethod ''$blockMethod'' bcs lits 0 1 (Some 1) []"

definition sample_loop :: mgenc where
  "sample_loop = (NewMethodGenerationContext \<lparr>cname = ''Sample'', superName = ''Object'', classSide = False, instanceFields = [], instanceMethods = [],
      classFields = [], classMethods = []\<rparr> None)
     \<lparr>lexicalScope := Some 0, bytecode := [BC_PUSH_BLOCK, 0, BC_PUSH_BLOCK, 1],
      last4Bytecodes := [BC_INVALID, BC_INVALID, BC_PUSH_BLOCK, BC_PUSH_BLOCK],
      literals := [LBlock 0 (sample_block [BC_PUSH_CONSTANT_0, BC_RETURN_LOCAL] [LTrue]),
                   LBlock 1 (sample_block [BC_PUSH_1, BC_POP, BC_PUSH_NIL, BC_RETURN_LOCAL] [])]\<rparr>"

definition sample_scopes :: scopes where
  "sample_scopes = [\<lparr>ls_outer = None, ls_arguments = [], ls_locals = []\<rparr>, \<lparr>ls_outer = Some 0, ls_arguments = [], ls_locals = []\<rparr>]"

lemma sample_loop_ok: "gen_ok sample_loop" "lits_ok sample_loop"
proof -
  have "parsed sample_loop [[BC_PUSH_BLOCK, 0], [BC_PUSH_BLOCK, 1]]"
    by (simp add: parsed_def sample_loop_def NewMethodGenerationContext_def wf_instr_def)
  then show "gen_ok sample_loop" unfolding gen_ok_def by blast
  have "wf_code [BC_PUSH_CONSTANT_0, BC_RETURN_LOCAL]" "wf_code [BC_PUSH_1, BC_POP, BC_PUSH_NIL, BC_RETURN_LOCAL]"
    unfolding wf_code_def
    by (rule exI[of _ "[[BC_PUSH_CONSTANT_0], [BC_RETURN_LOCAL]]"], simp add: wf_instr_def)
       (rule exI[of _ "[[BC_PUSH_1], [BC_POP], [BC_PUSH_NIL], [BC_RETURN_LOCAL]]"], simp add: wf_instr_def)
  then show "lits_ok sample_loop" by (simp add: lits_ok_def sample_loop_def sample_block_def NewMethodGenerationContext_def)
qed

lemma sample_loop_inlined: "case InlineWhile True [] sample_loop sample_scopes of Inl e \<Rightarrow> False
   | Inr (inlined, m', scs') \<Rightarrow> inlined \<and> bytecode m' =
       [BC_PUSH_CONSTANT_0, BC_JUMP_ON_FALSE_POP, 10, 0, BC_PUSH_1, BC_POP, BC_PUSH_NIL, BC_POP, BC_JUMP_BACKWARD, 8, 0, BC_PUSH_NIL]"
  by code_simp

theorem inlining_keeps_code_witness:
  "\<exists>m' scs'. InlineWhile True [] sample_loop sample_scopes = Inr (True, m', scs') \<and> gen_ok m' \<and> lits_ok m' \<and> \<not> finished m'"
proof -
  obtain m' scs' where r: "InlineWhile True [] sample_loop sample_scopes = Inr (True, m', scs')"
    using sample_loop_inlined by (auto split: sum.splits prod.splits)
  have "finished sample_loop = False" by (simp add: sample_loop_def NewMethodGenerationContext_def)
  with inlining_keeps_code[OF sample_loop_ok, of True m' scs' ON_TRUE "[]" sample_scopes True True] r show ?thesis by auto
qed



end
