(* ===== verification/Spec2Isabelle.thy ===== *)
theory Spec2Isabelle
  imports Prelude Bytecodes InfInt_Text Optimizer Corner_Cases Vectors MarkSweep Lexer_Props IntPrims_Props Inlining_Props
begin

text \<open>
  SOM++ is a virtual machine for SOM, a small Smalltalk, written in C++ (\<open>src/src\<close>). A lexer and a parser read
  class files; the parser drives a method generation context, which emits bytecodes and improves them with a
  peephole optimiser while they are emitted; an interpreter executes the bytecodes on frames that are objects of a
  garbage-collected heap; methods are found through a lookup along the superclasses with a cache in every symbol.

  \<^bold>\<open>Theories.\<close>
  \<^item> \<open>Prelude\<close>: machine types, the ways an operation can fail, shared lemmas. An operation answers \<open>Inl\<close> of an error or
    \<open>Inr\<close> of a result. \<open>ErrorExit\<close> and \<open>ParseError\<close> end the process in the source, \<open>AssertFailed\<close> is a violated assertion,
    \<open>Undefined\<close> is what C++ leaves undefined or what the fuel of a loop does not cover.
  \<^item> \<open>Bytecodes\<close> (\<open>interpreter/bytecodes\<close>): opcodes, lengths, names.
  \<^item> \<open>InfInt\<close>, \<open>InfInt_Arith\<close>, \<open>InfInt_Text\<close> (\<open>lib/InfInt.h\<close>): big integers as limbs in base \<open>10 ^ 9\<close>. The arithmetic, the order
    and the conversions are exact for the integer the limbs stand for.
  \<^item> \<open>CodeObjects\<close>, \<open>MethodGen\<close>, \<open>MethodGen_Inv\<close> (\<open>compiler/MethodGenerationContext\<close>, \<open>compiler/BytecodeGenerator\<close>): scopes,
    literals, emission of bytecodes and the peephole optimiser, with the invariant that the emitted bytes are a
    sequence of complete instructions that agrees with the record of the last four.
  \<^item> \<open>Inlining\<close>, \<open>Inlining_Props\<close> (the \<open>Inline...\<close> methods of \<open>compiler/MethodGenerationContext\<close>, \<open>inlineInto\<close> and \<open>AdaptAfterOuterInlined\<close> of
    \<open>vmobjects/VMMethod\<close>): the blocks of control messages are translated into the code of the method; the invariant of the
    generation context and the well-formedness of all blocks are kept, and the translation ends.
  \<^item> \<open>Murmur3\<close> (\<open>misc/Murmur3Hash\<close>): the hash of a method's bytecodes.
  \<^item> \<open>Objects\<close>, \<open>Frames\<close> (\<open>vmobjects\<close>): the heap, classes, symbol caches, invokables and frames.
  \<^item> \<open>Interp\<close>, \<open>Interp_Sem\<close> (\<open>interpreter/Interpreter\<close> and the \<open>Invoke\<close> methods): every bytecode, sends and returns; execution of
    instruction sequences and when two of them are equivalent.
  \<^item> \<open>Optimizer\<close>: the optimised code means what the unoptimised code means.
  \<^item> \<open>Lookup\<close>: the cached lookup implements the search along the superclasses; installation of primitives. The symbol
    cache is an interpretation of the interface \<open>memo_cache\<close>.
  \<^item> \<open>Calls\<close>, \<open>Jumps\<close>: call and return, methods assembled as getters, patched and backward jumps, non-local return.
  \<^item> \<open>Corner_Cases\<close>: emergency frames, failing super sends, unknown messages to integers, blocks that read a field, and
    counting loops over mixed numbers.
  \<^item> \<open>Vectors\<close> (\<open>vmobjects/VMArray\<close>, \<open>vmobjects/VMVector\<close>): a vector implements a list; it is an interpretation of the interface
    \<open>sequence\<close>.
  \<^item> \<open>MarkSweep\<close> (\<open>memory/MarkSweepCollector\<close>, \<open>memory/MarkSweepHeap\<close>, the \<open>WalkObjects\<close> methods): a collection keeps exactly what
    is reachable.
  \<^item> \<open>Lexer\<close>, \<open>Lexer_Props\<close> (\<open>compiler/Lexer\<close>): lexing ends, peeking is invisible, and tokens are read as they are written.
  \<^item> \<open>IntPrims\<close>, \<open>IntPrims_Props\<close> (\<open>primitives/Integer\<close>, \<open>vmobjects/VMBigInteger\<close>, \<open>misc/ParseInteger\<close>): the primitives of integers agree with
    the mathematical integers as far as a result has a representation; \<open>exact_op\<close> is the interface of the exact
    operations on big integers they rest on, interpreted by the five operations of \<open>InfInt\<close>.

  \<^bold>\<open>Fuel.\<close> Walks along contexts, superclasses and previous frames have one more than the number of objects as fuel,
  which suffices for the acyclic chains the theorems speak of. The recursion of an invocation through native code
  is bounded by the parameter \<open>native_depth\<close>. Marking has the number of allocated objects as fuel, which always
  suffices. The translation of a block has the length of its code as fuel and the adaptation of nested blocks the size of
  the block, which is shown to be enough. The loop that collects the arguments of a failing super send has more fuel than its byte counter has
  values. The loops of the lexer need no fuel: they are shown to terminate.

  \<^bold>\<open>Parameters.\<close> The routines of primitives and the arithmetic of doubles are fields of the environment \<open>vmenv\<close> and of \<open>dblops\<close>, and the
  sizes of objects are an argument of the collector. The model has the tagged representation of integers.

  \<^bold>\<open>Not modelled.\<close> The parser's productions; the copying, debugging and generational
  collectors; the routines of the primitives of the other classes and the tables of primitives; start-up, shell, disassembler and debug output, which are
  input and output; the unit tests; the bundled allocator and profiler in \<open>src/gperftools-2.0\<close>.
\<close>

end
